theory Spec2Isabelle
  imports Main "HOL-Library.AList"
begin

section \<open>Weekly nurse scheduling: the constraint model of \<open>or_tools_scheduler.py\<close>\<close>

text \<open>
  The development embeds \<open>solve_schedule_ortools\<close> and its helpers.  The tables are
  lists of rows; a cell that pandas reads as NaN is \<open>None\<close>.  Identifiers, days and
  shifts are strings.  A Python \<open>dict\<close> is an association list in insertion order
  (\<open>AList.update\<close> overwrites the value of a key in place and appends a new key),
  a subscript \<open>m[k]\<close> is \<open>dict_get\<close>, which raises \<open>KeyError\<close>.  Every \<open>raise\<close> of
  the source is a value \<open>Inl e\<close>.

  The calls made on the \<open>CpModel\<close> object are collected in the order in which the
  source makes them (\<open>NewBoolVar\<close>, \<open>NewIntVar\<close>, \<open>Add\<close>, \<open>Maximize\<close>).  A
  decision variable is identified by the dictionary key under which the source
  stores it (the source's variable names are built from the same keys).  The
  backend solver is a parameter: it maps the collected model to a status, an
  objective value and a value for every variable.
\<close>

subsection \<open>Errors and Python helpers\<close>

datatype error =
    ValueError string
  | KeyError
  | IndexError
  | RuntimeError string

text \<open>\<open>int(v)\<close> on a numeric cell; \<open>int(float('nan'))\<close> raises \<open>ValueError\<close>.\<close>

definition py_int :: "int option \<Rightarrow> error + int" where
  "py_int c = (case c of
       None \<Rightarrow> Inl (ValueError ''cannot convert float NaN to integer'')
     | Some i \<Rightarrow> Inr i)"

text \<open>The ASCII characters that \<open>str.strip()\<close> removes.\<close>

definition py_isspace :: "char \<Rightarrow> bool" where
  "py_isspace c = (c \<in> set [CHR 0x09, CHR 0x0A, CHR 0x0B, CHR 0x0C, CHR 0x0D,
                              CHR 0x1C, CHR 0x1D, CHR 0x1E, CHR 0x1F, CHR 0x20])"

definition py_strip :: "string \<Rightarrow> string" where
  "py_strip s = rev (dropWhile py_isspace (rev (dropWhile py_isspace s)))"

text \<open>\<open>s.split(sep)\<close> for a one-character separator: never empty, \<open>"".split(";") = [""]\<close>.\<close>

fun py_split :: "char \<Rightarrow> string \<Rightarrow> string list" where
  "py_split sep [] = [[]]"
| "py_split sep (c # cs) =
     (if c = sep then [] # py_split sep cs
      else (case py_split sep cs of
              [] \<Rightarrow> [[c]]
            | w # ws \<Rightarrow> (c # w) # ws))"

text \<open>\<open>sep.join(xs)\<close>.\<close>

fun py_join :: "string \<Rightarrow> string list \<Rightarrow> string" where
  "py_join sep [] = []"
| "py_join sep [x] = x"
| "py_join sep (x # y # ys) = x @ sep @ py_join sep (y # ys)"

definition parse_semicolon_set :: "string option \<Rightarrow> string set" where
  "parse_semicolon_set s = (case s of
       None \<Rightarrow> {}
     | Some t \<Rightarrow>
         if py_strip t = [] then {}
         else set (filter (\<lambda>x. x \<noteq> []) (map py_strip (py_split (CHR '';'') t))))"

subsection \<open>Dictionaries and loops that may raise\<close>

type_synonym ('k, 'v) dict = "('k \<times> 'v) list"

definition dict_get :: "('k, 'v) dict \<Rightarrow> 'k \<Rightarrow> error + 'v" where
  "dict_get m k = (case map_of m k of None \<Rightarrow> Inl KeyError | Some v \<Rightarrow> Inr v)"

text \<open>\<open>m.get(k, dflt)\<close>.\<close>

definition dict_get_default :: "('k, 'v) dict \<Rightarrow> 'k \<Rightarrow> 'v \<Rightarrow> 'v" where
  "dict_get_default m k dflt = (case map_of m k of None \<Rightarrow> dflt | Some v \<Rightarrow> v)"

text \<open>\<open>m.setdefault(k, dflt)\<close>, for its effect on \<open>m\<close>.\<close>

definition setdefault :: "'k \<Rightarrow> 'v \<Rightarrow> ('k, 'v) dict \<Rightarrow> ('k, 'v) dict" where
  "setdefault k dflt m = (case map_of m k of None \<Rightarrow> m @ [(k, dflt)] | Some _ \<Rightarrow> m)"

text \<open>
  A loop \<open>for r in rows: m[key(r)] = val(r)\<close> whose right-hand side may raise; the
  dictionary comprehensions of the source are the same loop from the empty dictionary.
\<close>

fun dict_of_rows ::
  "('r \<Rightarrow> 'k) \<Rightarrow> ('r \<Rightarrow> error + 'v) \<Rightarrow> 'r list \<Rightarrow> ('k, 'v) dict \<Rightarrow> error + ('k, 'v) dict" where
  "dict_of_rows key val [] m = Inr m"
| "dict_of_rows key val (r # rs) m =
     (case val r of
        Inl e \<Rightarrow> Inl e
      | Inr v \<Rightarrow> dict_of_rows key val rs (AList.update (key r) v m))"

text \<open>
  A loop whose body emits a list of items (model calls, or the elements of a list
  comprehension) or raises: the items are collected in order, the first exception
  ends the loop.
\<close>

fun traverse :: "('a \<Rightarrow> error + 'b list) \<Rightarrow> 'a list \<Rightarrow> error + 'b list" where
  "traverse f [] = Inr []"
| "traverse f (a # as) =
     (case f a of
        Inl e \<Rightarrow> Inl e
      | Inr ys \<Rightarrow>
          (case traverse f as of
             Inl e \<Rightarrow> Inl e
           | Inr zs \<Rightarrow> Inr (ys @ zs)))"

text \<open>Sequencing of two steps of which the first may raise.\<close>

definition bind_err :: "error + 'a \<Rightarrow> ('a \<Rightarrow> error + 'b) \<Rightarrow> error + 'b" where
  "bind_err r f = (case r of Inl e \<Rightarrow> Inl e | Inr a \<Rightarrow> f a)"

text \<open>A dictionary comprehension whose value expression cannot raise.\<close>

definition dict_from :: "('r \<Rightarrow> 'k) \<Rightarrow> ('r \<Rightarrow> 'v) \<Rightarrow> 'r list \<Rightarrow> ('k, 'v) dict" where
  "dict_from key val rows = foldl (\<lambda>m r. AList.update (key r) (val r) m) [] rows"

subsection \<open>Input tables and configuration\<close>

record nurse_row =
  nurse_id :: string
  qualifications :: "string option"
  certification :: "string option"
  max_shifts_per_day :: "int option"
  max_shifts_per_week :: "int option"

record room_row =
  room_id :: string
  room_name :: string
  required_qualifications :: "string option"
  tags :: "string option"

record demand_row =
  d_day :: string
  d_room_id :: string
  d_shift :: string
  required_nurses :: "int option"

record pref_row =
  p_nurse_id :: string
  p_day :: string
  p_shift :: string
  preference :: "int option"

record lock_row =
  l_day :: string
  l_shift :: string
  l_room_id :: string
  l_nurse_id :: string
  locked :: "int option"

record Weights =
  w_pref :: int
  w_understaff :: int
  w_overstaff :: int
  w_fairness :: int
  w_weekend :: int

record inputs =
  nurses_df :: "nurse_row list"
  rooms_df :: "room_row list"
  demand_df :: "demand_row list"
  pref_df :: "pref_row list"
  locks_df :: "lock_row list"
  days :: "string list"
  shifts :: "string list"
  allow_overstaff :: bool
  weights :: Weights
  time_limit_seconds :: int
  target_shifts_per_nurse_week :: "int option"
  enforce_rest_night_to_day :: bool
  charge_rooms_tags :: "string set"
  require_cnor_in_or :: bool

subsection \<open>Entity normalisation (source lines 61 to 85)\<close>

text \<open>A coverage slot is (day, room, shift); a variable key is (nurse, room, shift, day).\<close>

type_synonym slot = "string \<times> string \<times> string"
type_synonym key = "string \<times> string \<times> string \<times> string"

record entities =
  nurse_ids :: "string list"
  room_ids :: "string list"
  max_per_day :: "(string, int) dict"
  max_per_week :: "(string, int) dict"
  cert_by_nurse :: "(string, string) dict"
  qual_by_nurse :: "(string, string set) dict"
  req_by_room :: "(string, string set) dict"
  tag_by_room :: "(string, string) dict"
  demand :: "(slot, int) dict"
  pref :: "(slot, int) dict"
  locks :: "(key, int) dict"

definition nan_to_empty :: "string option \<Rightarrow> string" where
  "nan_to_empty c = (case c of None \<Rightarrow> [] | Some s \<Rightarrow> s)"

definition pref_lookup :: "pref_row list \<Rightarrow> error + (slot, int) dict" where
  "pref_lookup pref_rows =
     dict_of_rows (\<lambda>r. (p_nurse_id r, p_day r, p_shift r)) (\<lambda>r. py_int (preference r)) pref_rows []"

definition locks_lookup :: "lock_row list \<Rightarrow> error + (key, int) dict" where
  "locks_lookup lock_rows =
     dict_of_rows (\<lambda>r. (l_day r, l_shift r, l_room_id r, l_nurse_id r)) (\<lambda>r. py_int (locked r))
       lock_rows []"

text \<open>The demand dictionary: the rows first, then \<open>setdefault\<close> over the horizon.\<close>

definition horizon :: "string list \<Rightarrow> string list \<Rightarrow> string list \<Rightarrow> slot list" where
  "horizon ds rids shs = [(d, rid, sh). d \<leftarrow> ds, rid \<leftarrow> rids, sh \<leftarrow> shs]"

definition demand_lookup ::
  "demand_row list \<Rightarrow> string list \<Rightarrow> string list \<Rightarrow> string list \<Rightarrow> error + (slot, int) dict" where
  "demand_lookup demand_rows ds rids shs =
     bind_err
       (dict_of_rows (\<lambda>r. (d_day r, d_room_id r, d_shift r)) (\<lambda>r. py_int (required_nurses r))
          demand_rows [])
       (\<lambda>m. Inr (fold (\<lambda>k. setdefault k 0) (horizon ds rids shs) m))"

definition normalize :: "inputs \<Rightarrow> error + entities" where
  "normalize inp =
     bind_err (dict_of_rows nurse_id (\<lambda>r. py_int (max_shifts_per_day r)) (nurses_df inp) []) (\<lambda>mpd.
     bind_err (dict_of_rows nurse_id (\<lambda>r. py_int (max_shifts_per_week r)) (nurses_df inp) []) (\<lambda>mpw.
     bind_err (demand_lookup (demand_df inp) (days inp) (map room_id (rooms_df inp)) (shifts inp)) (\<lambda>dem.
     bind_err (pref_lookup (pref_df inp)) (\<lambda>prf.
     bind_err (locks_lookup (locks_df inp)) (\<lambda>lks.
       Inr \<lparr> nurse_ids = map nurse_id (nurses_df inp),
             room_ids = map room_id (rooms_df inp),
             max_per_day = mpd,
             max_per_week = mpw,
             cert_by_nurse = dict_from nurse_id (\<lambda>r. nan_to_empty (certification r)) (nurses_df inp),
             qual_by_nurse = dict_from nurse_id (\<lambda>r. parse_semicolon_set (qualifications r)) (nurses_df inp),
             req_by_room = dict_from room_id (\<lambda>r. parse_semicolon_set (required_qualifications r)) (rooms_df inp),
             tag_by_room = dict_from room_id (\<lambda>r. nan_to_empty (tags r)) (rooms_df inp),
             demand = dem,
             pref = prf,
             locks = lks \<rparr>)))))"

subsection \<open>The model handed to the backend\<close>

datatype var =
    X key
  | Understaff slot
  | Overstaff slot
  | Total string
  | Dev string

datatype expr =
    EVar var
  | EConst int
  | ESum "expr list"
  | EAdd expr expr
  | ESub expr expr
  | EMul int expr

datatype constr =
    Le expr expr
  | Ge expr expr
  | Eq expr expr

datatype stmt =
    NewBoolVar var
  | NewIntVar int int var
  | Add constr
  | Maximize expr

fun eval :: "(var \<Rightarrow> int) \<Rightarrow> expr \<Rightarrow> int" where
  "eval v (EVar x) = v x"
| "eval v (EConst c) = c"
| "eval v (ESum es) = sum_list (map (eval v) es)"
| "eval v (EAdd a b) = eval v a + eval v b"
| "eval v (ESub a b) = eval v a - eval v b"
| "eval v (EMul c a) = c * eval v a"

fun holds :: "(var \<Rightarrow> int) \<Rightarrow> constr \<Rightarrow> bool" where
  "holds v (Le a b) = (eval v a \<le> eval v b)"
| "holds v (Ge a b) = (eval v a \<ge> eval v b)"
| "holds v (Eq a b) = (eval v a = eval v b)"

text \<open>
  What a model call demands of a solution: a Boolean variable is 0 or 1, an integer
  variable lies within its bounds, an added constraint holds.
\<close>

fun stmt_ok :: "(var \<Rightarrow> int) \<Rightarrow> stmt \<Rightarrow> bool" where
  "stmt_ok v (NewBoolVar x) = (v x = 0 \<or> v x = 1)"
| "stmt_ok v (NewIntVar lo hi x) = (lo \<le> v x \<and> v x \<le> hi)"
| "stmt_ok v (Add c) = holds v c"
| "stmt_ok v (Maximize e) = True"

definition satisfies :: "(var \<Rightarrow> int) \<Rightarrow> stmt list \<Rightarrow> bool" where
  "satisfies v m = list_all (stmt_ok v) m"

subsection \<open>Feasibility filter and variable space (source lines 87 to 100)\<close>

fun k_nurse :: "key \<Rightarrow> string" where "k_nurse (n, rid, sh, d) = n"
fun k_room :: "key \<Rightarrow> string" where "k_room (n, rid, sh, d) = rid"
fun k_shift :: "key \<Rightarrow> string" where "k_shift (n, rid, sh, d) = sh"
fun k_day :: "key \<Rightarrow> string" where "k_day (n, rid, sh, d) = d"

definition feasible :: "entities \<Rightarrow> string \<Rightarrow> string \<Rightarrow> error + bool" where
  "feasible ent n rid =
     bind_err (dict_get (req_by_room ent) rid) (\<lambda>req.
     bind_err (dict_get (qual_by_nurse ent) n) (\<lambda>qual.
       Inr (req \<subseteq> qual)))"

text \<open>
  The keys under which the loop stores a fresh Boolean variable, in the order of the
  calls of \<open>NewBoolVar\<close>; \<open>x_dict\<close> is the dictionary \<open>x\<close> after the loop.
\<close>

definition x_created :: "entities \<Rightarrow> string list \<Rightarrow> string list \<Rightarrow> error + key list" where
  "x_created ent shs ds =
     traverse (\<lambda>(n, rid).
         bind_err (feasible ent n rid) (\<lambda>ok.
           if \<not> ok then Inr [] else Inr [(n, rid, sh, d). sh \<leftarrow> shs, d \<leftarrow> ds]))
       [(n, rid). n \<leftarrow> nurse_ids ent, rid \<leftarrow> room_ids ent]"

definition x_dict :: "key list \<Rightarrow> (key, var) dict" where
  "x_dict created = dict_from (\<lambda>k. k) X created"

text \<open>\<open>[x[k] for k in x if P(k)]\<close>.\<close>

definition x_vars :: "(key \<Rightarrow> bool) \<Rightarrow> (key, var) dict \<Rightarrow> var list" where
  "x_vars P x = map snd (filter (\<lambda>kv. P (fst kv)) x)"

text \<open>\<open>[x[k] for k in ks if k in x]\<close>.\<close>

definition x_present :: "(key, var) dict \<Rightarrow> key list \<Rightarrow> var list" where
  "x_present x ks = concat (map (\<lambda>k. case map_of x k of None \<Rightarrow> [] | Some var \<Rightarrow> [var]) ks)"

definition sum_vars :: "var list \<Rightarrow> expr" where
  "sum_vars vs = ESum (map EVar vs)"

subsection \<open>Hard constraints (source lines 102 to 193)\<close>

definition daily_cap :: "entities \<Rightarrow> (key, var) dict \<Rightarrow> string list \<Rightarrow> error + stmt list" where
  "daily_cap ent x ds =
     traverse (\<lambda>(n, d).
         let vars_nd = x_vars (\<lambda>k. k_nurse k = n \<and> k_day k = d) x in
         if vars_nd \<noteq> [] then
           bind_err (dict_get (max_per_day ent) n) (\<lambda>cap.
             Inr [Add (Le (sum_vars vars_nd) (EConst cap))])
         else Inr [])
       [(n, d). n \<leftarrow> nurse_ids ent, d \<leftarrow> ds]"

definition weekly_cap :: "entities \<Rightarrow> (key, var) dict \<Rightarrow> error + stmt list" where
  "weekly_cap ent x =
     traverse (\<lambda>n.
         let vars_n = x_vars (\<lambda>k. k_nurse k = n) x in
         if vars_n \<noteq> [] then
           bind_err (dict_get (max_per_week ent) n) (\<lambda>cap.
             Inr [Add (Le (sum_vars vars_n) (EConst cap))])
         else Inr [])
       (nurse_ids ent)"

definition assigned_vars :: "entities \<Rightarrow> (key, var) dict \<Rightarrow> slot \<Rightarrow> var list" where
  "assigned_vars ent x s =
     (case s of (d, rid, sh) \<Rightarrow> x_present x (map (\<lambda>n. (n, rid, sh, d)) (nurse_ids ent)))"

definition coverage_slot :: "entities \<Rightarrow> (key, var) dict \<Rightarrow> bool \<Rightarrow> slot \<Rightarrow> error + stmt list" where
  "coverage_slot ent x allow s =
     (let assigned = assigned_vars ent x s;
          assigned_sum = (if assigned \<noteq> [] then sum_vars assigned else EConst 0);
          u = Understaff s
      in if allow then
           (let ov = Overstaff s in
            bind_err (dict_get (demand ent) s) (\<lambda>dem.
              Inr [NewIntVar 0 100 u, NewIntVar 0 100 ov,
                   Add (Eq (ESub (EAdd assigned_sum (EVar u)) (EVar ov)) (EConst dem))]))
         else
           bind_err (dict_get (demand ent) s) (\<lambda>dem.
             Inr [NewIntVar 0 100 u,
                  Add (Eq (EAdd assigned_sum (EVar u)) (EConst dem))]))"

definition coverage ::
  "entities \<Rightarrow> (key, var) dict \<Rightarrow> bool \<Rightarrow> string list \<Rightarrow> string list \<Rightarrow> error + stmt list" where
  "coverage ent x allow ds shs = traverse (coverage_slot ent x allow) (horizon ds (room_ids ent) shs)"

text \<open>\<open>day_index = {d: i for i, d in enumerate(days)}\<close> and its inversion \<open>inv_day\<close>.\<close>

definition day_index :: "string list \<Rightarrow> (string, nat) dict" where
  "day_index ds = dict_from snd fst (enumerate 0 ds)"

definition inv_day :: "string list \<Rightarrow> (nat, string) dict" where
  "inv_day ds = dict_from snd fst (day_index ds)"

definition rest_pair :: "(key, var) dict \<Rightarrow> (nat, string) dict \<Rightarrow> string \<times> nat \<Rightarrow> error + stmt list" where
  "rest_pair x invd p =
     (case p of (n, i) \<Rightarrow>
        bind_err (dict_get invd i) (\<lambda>d.
        bind_err (dict_get invd (i + 1)) (\<lambda>d_next.
          let night_vars = x_vars (\<lambda>k. k_nurse k = n \<and> k_shift k = ''Night'' \<and> k_day k = d) x;
              day_vars_next = x_vars (\<lambda>k. k_nurse k = n \<and> k_shift k = ''Day'' \<and> k_day k = d_next) x
          in if night_vars \<noteq> [] \<and> day_vars_next \<noteq> [] then
               Inr [Add (Le (EAdd (sum_vars night_vars) (sum_vars day_vars_next)) (EConst 1))]
             else Inr [])))"

definition rest_rule ::
  "entities \<Rightarrow> (key, var) dict \<Rightarrow> bool \<Rightarrow> string list \<Rightarrow> string list \<Rightarrow> error + stmt list" where
  "rest_rule ent x enforce shs ds =
     (if enforce \<and> ''Night'' \<in> set shs \<and> ''Day'' \<in> set shs then
        traverse (rest_pair x (inv_day ds))
          [(n, i). n \<leftarrow> nurse_ids ent, i \<leftarrow> [0 ..< length ds - 1]]
      else Inr [])"

definition charge_slot ::
  "entities \<Rightarrow> (key, var) dict \<Rightarrow> string list \<Rightarrow> string list \<Rightarrow> string \<times> string \<Rightarrow> error + stmt list" where
  "charge_slot ent x charge_room_ids charge_nurses p =
     (case p of (d, sh) \<Rightarrow>
        bind_err (traverse (\<lambda>rid. bind_err (dict_get (demand ent) (d, rid, sh)) (\<lambda>v. Inr [v]))
                    charge_room_ids) (\<lambda>dems.
          if sum_list dems \<le> 0 then Inr []
          else
            (let charge_assigned =
                   x_present x [(n, rid, sh, d). rid \<leftarrow> charge_room_ids, n \<leftarrow> charge_nurses]
             in if charge_assigned \<noteq> [] then
                  Inr [Add (Ge (sum_vars charge_assigned) (EConst 1))]
                else Inr [])))"

definition charge_rule ::
  "entities \<Rightarrow> (key, var) dict \<Rightarrow> string set \<Rightarrow> string list \<Rightarrow> string list \<Rightarrow> error + stmt list" where
  "charge_rule ent x charge_tags ds shs =
     bind_err (traverse (\<lambda>n. bind_err (dict_get (qual_by_nurse ent) n) (\<lambda>q.
                  Inr (if ''Charge'' \<in> q then [n] else [])))
                 (nurse_ids ent)) (\<lambda>charge_nurses.
       let charge_room_ids =
             filter (\<lambda>rid. dict_get_default (tag_by_room ent) rid [] \<in> charge_tags) (room_ids ent)
       in if charge_room_ids \<noteq> [] \<and> charge_nurses \<noteq> [] then
            traverse (charge_slot ent x charge_room_ids charge_nurses)
              [(d, sh). d \<leftarrow> ds, sh \<leftarrow> shs]
          else Inr [])"

definition cnor_slot :: "entities \<Rightarrow> (key, var) dict \<Rightarrow> slot \<Rightarrow> error + stmt list" where
  "cnor_slot ent x s =
     (case s of (d, rid, sh) \<Rightarrow>
        bind_err (dict_get (demand ent) (d, rid, sh)) (\<lambda>dem.
          if dem \<le> 0 then Inr []
          else
            bind_err (traverse (\<lambda>n. bind_err (dict_get (cert_by_nurse ent) n) (\<lambda>c.
                         Inr (if c = ''CNOR'' then x_present x [(n, rid, sh, d)] else [])))
                        (nurse_ids ent)) (\<lambda>cnor_vars.
              if cnor_vars \<noteq> [] then Inr [Add (Ge (sum_vars cnor_vars) (EConst 1))]
              else Inr [])))"

definition cnor_rule ::
  "entities \<Rightarrow> (key, var) dict \<Rightarrow> bool \<Rightarrow> string list \<Rightarrow> string list \<Rightarrow> error + stmt list" where
  "cnor_rule ent x require ds shs =
     (if require then
        (let or_room_ids =
               filter (\<lambda>rid. dict_get_default (tag_by_room ent) rid [] = ''OR'') (room_ids ent)
         in traverse (cnor_slot ent x) (horizon ds or_room_ids shs))
      else Inr [])"

definition lock_message :: "string \<Rightarrow> string \<Rightarrow> string \<Rightarrow> string \<Rightarrow> string" where
  "lock_message d sh rid n =
     ''Locked assignment infeasible (qualification mismatch or unknown IDs): ''
       @ d @ '','' @ sh @ '','' @ rid @ '','' @ n"

definition lock_item :: "(key, var) dict \<Rightarrow> key \<times> int \<Rightarrow> error + stmt list" where
  "lock_item x item =
     (case item of ((d, sh, rid, n), lk) \<Rightarrow>
        if lk \<noteq> 1 then Inr []
        else (case map_of x (n, rid, sh, d) of
                None \<Rightarrow> Inl (RuntimeError (lock_message d sh rid n))
              | Some var \<Rightarrow> Inr [Add (Eq (EVar var) (EConst 1))]))"

definition lock_rule :: "entities \<Rightarrow> (key, var) dict \<Rightarrow> error + stmt list" where
  "lock_rule ent x = traverse (lock_item x) (locks ent)"

subsection \<open>Fairness and objective (source lines 195 to 234)\<close>

definition fairness :: "entities \<Rightarrow> (key, var) dict \<Rightarrow> int option \<Rightarrow> stmt list" where
  "fairness ent x target =
     (case target of
        None \<Rightarrow> []
      | Some t \<Rightarrow>
          concat (map (\<lambda>n.
              let total = Total n;
                  vars_n = x_vars (\<lambda>k. k_nurse k = n) x;
                  dev = Dev n
              in [NewIntVar 0 1000 total,
                  Add (Eq (EVar total) (if vars_n \<noteq> [] then sum_vars vars_n else EConst 0)),
                  NewIntVar 0 1000 dev,
                  Add (Ge (EVar dev) (ESub (EVar total) (EConst t))),
                  Add (Ge (EVar dev) (ESub (EConst t) (EVar total)))])
            (nurse_ids ent)))"

text \<open>
  The dictionaries \<open>understaff\<close>, \<open>overstaff\<close> and \<open>fairness_dev\<close> after their loops.
\<close>

definition understaff_dict :: "entities \<Rightarrow> string list \<Rightarrow> string list \<Rightarrow> (slot, var) dict" where
  "understaff_dict ent ds shs = dict_from (\<lambda>s. s) Understaff (horizon ds (room_ids ent) shs)"

definition overstaff_dict :: "entities \<Rightarrow> bool \<Rightarrow> string list \<Rightarrow> string list \<Rightarrow> (slot, var) dict" where
  "overstaff_dict ent allow ds shs =
     (if allow then dict_from (\<lambda>s. s) Overstaff (horizon ds (room_ids ent) shs) else [])"

definition fairness_dev :: "entities \<Rightarrow> int option \<Rightarrow> (string, var) dict" where
  "fairness_dev ent target =
     (case target of None \<Rightarrow> [] | Some t \<Rightarrow> dict_from (\<lambda>n. n) Dev (nurse_ids ent))"

definition objective :: "inputs \<Rightarrow> entities \<Rightarrow> (key, var) dict \<Rightarrow> expr" where
  "objective inp ent x =
     (let w = weights inp;
          pref_terms =
            concat (map (\<lambda>kv.
                let p = dict_get_default (pref ent) (k_nurse (fst kv), k_day (fst kv), k_shift (fst kv)) 0
                in if p \<noteq> 0 then [EMul (w_pref w * p) (EVar (snd kv))] else []) x);
          under_terms =
            map (\<lambda>su. EMul (- w_understaff w) (EVar (snd su)))
              (understaff_dict ent (days inp) (shifts inp));
          over_terms =
            (if allow_overstaff inp then
               map (\<lambda>so. EMul (- w_overstaff w) (EVar (snd so)))
                 (overstaff_dict ent (allow_overstaff inp) (days inp) (shifts inp))
             else []);
          fair_terms =
            map (\<lambda>nd. EMul (- w_fairness w) (EVar (snd nd)))
              (fairness_dev ent (target_shifts_per_nurse_week inp));
          weekend_days = {d \<in> set (days inp). d = ''Sat'' \<or> d = ''Sun''};
          weekend_terms =
            (if weekend_days \<noteq> {} \<and> w_weekend w > 0 then
               concat (map (\<lambda>kv.
                   if k_day (fst kv) \<in> weekend_days then [EMul (- w_weekend w) (EVar (snd kv))]
                   else []) x)
             else [])
      in ESum (pref_terms @ under_terms @ over_terms @ fair_terms @ weekend_terms))"

subsection \<open>Model construction, solver invocation and result (source lines 90 to 269)\<close>

definition build_model :: "inputs \<Rightarrow> entities \<Rightarrow> error + ((key, var) dict \<times> stmt list)" where
  "build_model inp ent =
     bind_err (x_created ent (shifts inp) (days inp)) (\<lambda>created.
     let x = x_dict created in
     bind_err (daily_cap ent x (days inp)) (\<lambda>c_day.
     bind_err (weekly_cap ent x) (\<lambda>c_week.
     bind_err (coverage ent x (allow_overstaff inp) (days inp) (shifts inp)) (\<lambda>c_cov.
     bind_err (rest_rule ent x (enforce_rest_night_to_day inp) (shifts inp) (days inp)) (\<lambda>c_rest.
     bind_err (charge_rule ent x (charge_rooms_tags inp) (days inp) (shifts inp)) (\<lambda>c_charge.
     bind_err (cnor_rule ent x (require_cnor_in_or inp) (days inp) (shifts inp)) (\<lambda>c_cnor.
     bind_err (lock_rule ent x) (\<lambda>c_lock.
       Inr (x, map (\<lambda>k. NewBoolVar (X k)) created @ c_day @ c_week @ c_cov @ c_rest
               @ c_charge @ c_cnor @ c_lock
               @ fairness ent x (target_shifts_per_nurse_week inp)
               @ [Maximize (objective inp ent x)])))))))))"

datatype status = UNKNOWN | MODEL_INVALID | FEASIBLE | INFEASIBLE | OPTIMAL

fun StatusName :: "status \<Rightarrow> string" where
  "StatusName UNKNOWN = ''UNKNOWN''"
| "StatusName MODEL_INVALID = ''MODEL_INVALID''"
| "StatusName FEASIBLE = ''FEASIBLE''"
| "StatusName INFEASIBLE = ''INFEASIBLE''"
| "StatusName OPTIMAL = ''OPTIMAL''"

text \<open>
  What the backend returns: the status, the objective value (an integer: the
  objective is an integer combination of integer variables) and the value of each
  variable.  The reads \<open>solver.Value\<close> and \<open>solver.ObjectiveValue\<close> are the fields.
\<close>

record response =
  status :: status
  ObjectiveValue :: int
  Value :: "var \<Rightarrow> int"

text \<open>The backend takes the time limit, the number of search workers and the model.\<close>

type_synonym backend = "int \<Rightarrow> nat \<Rightarrow> stmt list \<Rightarrow> response"

definition found :: "status \<Rightarrow> bool" where
  "found st = (st = OPTIMAL \<or> st = FEASIBLE)"

record meta =
  meta_status :: string
  meta_objective :: "int option"

record out_row =
  out_day :: string
  out_room_id :: string
  out_room_name :: string
  out_shift :: string
  out_required_nurses :: int
  assigned_nurses :: string
  understaff :: "int option"
  overstaff :: "int option"

text \<open>\<open>rooms_df.loc[rooms_df["room_id"] == rid, "room_name"].iloc[0]\<close>.\<close>

definition room_name_of :: "room_row list \<Rightarrow> string \<Rightarrow> error + string" where
  "room_name_of rooms rid =
     (case filter (\<lambda>r. room_id r = rid) rooms of
        [] \<Rightarrow> Inl IndexError
      | r # _ \<Rightarrow> Inr (room_name r))"

definition assigned_list :: "entities \<Rightarrow> (key, var) dict \<Rightarrow> (var \<Rightarrow> int) \<Rightarrow> slot \<Rightarrow> string list" where
  "assigned_list ent x val s =
     (case s of (d, rid, sh) \<Rightarrow>
        filter (\<lambda>n. case map_of x (n, rid, sh, d) of None \<Rightarrow> False | Some var \<Rightarrow> val var = 1)
          (nurse_ids ent))"

definition out_record ::
  "inputs \<Rightarrow> entities \<Rightarrow> (key, var) dict \<Rightarrow> response \<Rightarrow> slot \<Rightarrow> error + out_row list" where
  "out_record inp ent x resp s =
     (case s of (d, rid, sh) \<Rightarrow>
        let assigned = assigned_list ent x (Value resp) s in
        bind_err (room_name_of (rooms_df inp) rid) (\<lambda>name.
        bind_err (dict_get (demand ent) s) (\<lambda>dem.
        bind_err (if found (status resp) then
                    bind_err (dict_get (understaff_dict ent (days inp) (shifts inp)) s) (\<lambda>u.
                      Inr (Some (Value resp u)))
                  else Inr None) (\<lambda>under.
        bind_err (if allow_overstaff inp \<and> found (status resp) then
                    bind_err (dict_get (overstaff_dict ent (allow_overstaff inp) (days inp) (shifts inp)) s) (\<lambda>ov.
                      Inr (Some (Value resp ov)))
                  else Inr None) (\<lambda>over.
          Inr [\<lparr> out_day = d, out_room_id = rid, out_room_name = name, out_shift = sh,
                 out_required_nurses = dem, assigned_nurses = py_join '';'' assigned,
                 understaff = under, overstaff = over \<rparr>])))))"

definition solve_schedule_ortools :: "backend \<Rightarrow> inputs \<Rightarrow> error + (out_row list \<times> meta)" where
  "solve_schedule_ortools solver inp =
     bind_err (normalize inp) (\<lambda>ent.
     bind_err (build_model inp ent) (\<lambda>xm.
       let x = fst xm;
           resp = solver (time_limit_seconds inp) 8 (snd xm);
           mt = \<lparr> meta_status = StatusName (status resp),
                  meta_objective = (if found (status resp) then Some (ObjectiveValue resp) else None) \<rparr>
       in bind_err (traverse (out_record inp ent x resp) (horizon (days inp) (room_ids ent) (shifts inp)))
            (\<lambda>out. Inr (out, mt))))"

subsection \<open>Concrete inputs\<close>

definition ex_weights :: Weights where
  "ex_weights = \<lparr> w_pref = 5, w_understaff = 200, w_overstaff = 5, w_fairness = 3, w_weekend = 2 \<rparr>"

definition ex1 :: inputs where
  "ex1 = \<lparr> nurses_df = [\<lparr> nurse_id = ''N1'', qualifications = Some ''ICU; Charge'', certification = None,
                          max_shifts_per_day = Some 1, max_shifts_per_week = Some 5 \<rparr>,
                        \<lparr> nurse_id = ''N2'', qualifications = Some ''ER'', certification = Some ''CNOR'',
                          max_shifts_per_day = Some 1, max_shifts_per_week = Some 5 \<rparr>],
            rooms_df = [\<lparr> room_id = ''R1'', room_name = ''ICU 1'', required_qualifications = Some ''ICU'', tags = Some ''ICU'' \<rparr>,
                        \<lparr> room_id = ''R2'', room_name = ''Ward'', required_qualifications = None, tags = None \<rparr>],
            demand_df = [\<lparr> d_day = ''Mon'', d_room_id = ''R1'', d_shift = ''Day'', required_nurses = Some 1 \<rparr>],
            pref_df = [],
            locks_df = [],
            days = [''Mon'', ''Tue''],
            shifts = [''Day'', ''Night''],
            allow_overstaff = True,
            weights = ex_weights,
            time_limit_seconds = 20,
            target_shifts_per_nurse_week = None,
            enforce_rest_night_to_day = True,
            charge_rooms_tags = {''ICU'', ''ER''},
            require_cnor_in_or = True \<rparr>"

text \<open>A backend that finds nothing, for the statements that do not depend on the solver.\<close>

definition no_solution :: backend where
  "no_solution t w m = \<lparr> status = UNKNOWN, ObjectiveValue = 0, Value = (\<lambda>_. 0) \<rparr>"

text \<open>Tables with repeated keys: the second row of each pair carries another value.\<close>

definition ex_duplicates :: inputs where
  "ex_duplicates = ex1 \<lparr>
      demand_df := [\<lparr> d_day = ''Mon'', d_room_id = ''R1'', d_shift = ''Day'', required_nurses = Some 2 \<rparr>,
                    \<lparr> d_day = ''Mon'', d_room_id = ''R1'', d_shift = ''Day'', required_nurses = Some 1 \<rparr>],
      pref_df := [\<lparr> p_nurse_id = ''N1'', p_day = ''Mon'', p_shift = ''Day'', preference = Some 3 \<rparr>,
                  \<lparr> p_nurse_id = ''N1'', p_day = ''Mon'', p_shift = ''Day'', preference = Some (- 1) \<rparr>],
      locks_df := [\<lparr> l_day = ''Mon'', l_shift = ''Day'', l_room_id = ''R1'', l_nurse_id = ''N2'', locked = Some 1 \<rparr>,
                   \<lparr> l_day = ''Mon'', l_shift = ''Day'', l_room_id = ''R1'', l_nurse_id = ''N2'', locked = Some 0 \<rparr>] \<rparr>"

text \<open>
  Two inputs with a missing numeric cell: the daily cap of the second nurse row, and
  the required count of the first demand row.
\<close>

definition ex_missing_cap :: inputs where
  "ex_missing_cap = ex1 \<lparr>
      nurses_df := [\<lparr> nurse_id = ''N1'', qualifications = Some ''ICU; Charge'', certification = None,
                       max_shifts_per_day = Some 1, max_shifts_per_week = Some 5 \<rparr>,
                    \<lparr> nurse_id = ''N2'', qualifications = Some ''ER'', certification = Some ''CNOR'',
                       max_shifts_per_day = None, max_shifts_per_week = Some 5 \<rparr>] \<rparr>"

definition ex_missing_demand :: inputs where
  "ex_missing_demand = ex1 \<lparr>
      demand_df := [\<lparr> d_day = ''Mon'', d_room_id = ''R1'', d_shift = ''Day'', required_nurses = None \<rparr>] \<rparr>"

text \<open>Every numeric cell that the source converts with \<open>int(...)\<close> holds a number.\<close>

definition numeric_fields_present :: "inputs \<Rightarrow> bool" where
  "numeric_fields_present inp =
     (list_all (\<lambda>r. max_shifts_per_day r \<noteq> None) (nurses_df inp) \<and>
      list_all (\<lambda>r. max_shifts_per_week r \<noteq> None) (nurses_df inp) \<and>
      list_all (\<lambda>r. required_nurses r \<noteq> None) (demand_df inp) \<and>
      list_all (\<lambda>r. preference r \<noteq> None) (pref_df inp) \<and>
      list_all (\<lambda>r. locked r \<noteq> None) (locks_df inp))"

subsection \<open>Solutions\<close>

text \<open>
  The assignments of a valuation: the keys of \<open>x\<close> whose variable has value 1 (the
  result loop of the source reads \<open>key in x and solver.Value(x[key]) == 1\<close>).
\<close>

definition assigned_keys :: "(key, var) dict \<Rightarrow> (var \<Rightarrow> int) \<Rightarrow> key list" where
  "assigned_keys x val = map fst (filter (\<lambda>kv. val (snd kv) = 1) x)"

text \<open>A valuation for \<open>ex1\<close>: nurse N1 works the Monday day shift in room R1.\<close>

definition ex1_solution :: "var \<Rightarrow> int" where
  "ex1_solution var = (if var = X (''N1'', ''R1'', ''Day'', ''Mon'') then 1 else 0)"

text \<open>The same input with overstaffing not permitted.\<close>

definition ex1_strict :: inputs where
  "ex1_strict = ex1 \<lparr> allow_overstaff := False \<rparr>"

text \<open>
  A second valuation for \<open>ex1\<close>: in addition nurse N2 works the Monday night shift in
  room R2, which has no demand; the overstaff slack of that slot absorbs it.
\<close>

definition ex1_night_solution :: "var \<Rightarrow> int" where
  "ex1_night_solution var =
     (if var = X (''N1'', ''R1'', ''Day'', ''Mon'') then 1
      else if var = X (''N2'', ''R2'', ''Night'', ''Mon'') then 1
      else if var = Overstaff (''Mon'', ''R2'', ''Night'') then 1
      else 0)"

text \<open>
  The scenario of one nurse qualified for ICU and one room that requires ICU and CNOR,
  with demand 1 on the Monday day shift; and the same with demand 101.
\<close>

definition ex_unmatched :: inputs where
  "ex_unmatched = \<lparr>
      nurses_df = [\<lparr> nurse_id = ''N1'', qualifications = Some ''ICU'', certification = None,
                      max_shifts_per_day = Some 1, max_shifts_per_week = Some 5 \<rparr>],
      rooms_df = [\<lparr> room_id = ''R1'', room_name = ''Theatre'',
                     required_qualifications = Some ''ICU;CNOR'', tags = None \<rparr>],
      demand_df = [\<lparr> d_day = ''Mon'', d_room_id = ''R1'', d_shift = ''Day'', required_nurses = Some 1 \<rparr>],
      pref_df = [],
      locks_df = [],
      days = [''Mon''],
      shifts = [''Day''],
      allow_overstaff = True,
      weights = ex_weights,
      time_limit_seconds = 20,
      target_shifts_per_nurse_week = None,
      enforce_rest_night_to_day = True,
      charge_rooms_tags = {''ICU'', ''ER''},
      require_cnor_in_or = True \<rparr>"

definition ex_unmatched_101 :: inputs where
  "ex_unmatched_101 = ex_unmatched \<lparr>
      demand_df := [\<lparr> d_day = ''Mon'', d_room_id = ''R1'', d_shift = ''Day'', required_nurses = Some 101 \<rparr>] \<rparr>"

text \<open>
  The scenario of one nurse qualified for ICU and one room that requires ICU, with
  demand 1 on the Monday day shift and overstaffing not permitted; and a backend that
  answers with the optimal solution in which that nurse is assigned.
\<close>

definition ex_matched :: inputs where
  "ex_matched = ex_unmatched \<lparr>
      rooms_df := [\<lparr> room_id = ''R1'', room_name = ''Theatre'',
                      required_qualifications = Some ''ICU'', tags = None \<rparr>],
      allow_overstaff := False \<rparr>"

definition ex_matched_backend :: backend where
  "ex_matched_backend t w m =
     \<lparr> status = OPTIMAL, ObjectiveValue = 0,
       Value = (\<lambda>var. if var = X (''N1'', ''R1'', ''Day'', ''Mon'') then 1 else 0) \<rparr>"

subsection \<open>Locks\<close>

text \<open>
  The key of a lock row, and the rows of a lock table that no later row with the same
  key overrides (the rows whose flag \<open>locks_lookup\<close> keeps).
\<close>

definition lock_key :: "lock_row \<Rightarrow> key" where
  "lock_key r = (l_day r, l_shift r, l_room_id r, l_nurse_id r)"

fun last_rows :: "lock_row list \<Rightarrow> lock_row list" where
  "last_rows [] = []"
| "last_rows (r # rs) =
     (if lock_key r \<in> lock_key ` set rs then last_rows rs else r # last_rows rs)"

text \<open>
  The condition under which the variable-space loop creates a variable for a key: the
  identifiers resolve to a nurse, a room, a selected shift and a selected day, and the
  nurse is qualified for the room.
\<close>

definition variable_exists :: "inputs \<Rightarrow> entities \<Rightarrow> key \<Rightarrow> bool" where
  "variable_exists inp ent k =
     (case k of (n, rid, sh, d) \<Rightarrow>
        n \<in> set (nurse_ids ent) \<and> rid \<in> set (room_ids ent) \<and> sh \<in> set (shifts inp)
        \<and> d \<in> set (days inp) \<and> feasible ent n rid = Inr True)"

text \<open>
  \<open>ex1\<close> with a lock that pins nurse N1 to room R1 on the Monday day shift, and with a
  lock that pins nurse N2 (qualified for ER) to room R1 (which requires ICU).
\<close>

definition ex_locked :: inputs where
  "ex_locked = ex1 \<lparr>
      locks_df := [\<lparr> l_day = ''Mon'', l_shift = ''Day'', l_room_id = ''R1'', l_nurse_id = ''N1'',
                      locked = Some 1 \<rparr>] \<rparr>"

definition ex_bad_lock :: inputs where
  "ex_bad_lock = ex1 \<lparr>
      locks_df := [\<lparr> l_day = ''Mon'', l_shift = ''Day'', l_room_id = ''R1'', l_nurse_id = ''N2'',
                      locked = Some 1 \<rparr>] \<rparr>"

text \<open>The key of \<open>x\<close> that a lock row pins.\<close>

definition lock_var :: "lock_row \<Rightarrow> key" where
  "lock_var r = (l_nurse_id r, l_room_id r, l_shift r, l_day r)"

subsection \<open>Optimal solutions\<close>






text \<open>The variables that an expression, a constraint and a model call mention.\<close>

fun expr_vars :: "expr \<Rightarrow> var set" where
  "expr_vars (EVar x) = {x}"
| "expr_vars (EConst c) = {}"
| "expr_vars (ESum es) = (\<Union>e\<in>set es. expr_vars e)"
| "expr_vars (EAdd a b) = expr_vars a \<union> expr_vars b"
| "expr_vars (ESub a b) = expr_vars a \<union> expr_vars b"
| "expr_vars (EMul c a) = expr_vars a"

fun constr_vars :: "constr \<Rightarrow> var set" where
  "constr_vars (Le a b) = expr_vars a \<union> expr_vars b"
| "constr_vars (Ge a b) = expr_vars a \<union> expr_vars b"
| "constr_vars (Eq a b) = expr_vars a \<union> expr_vars b"

fun stmt_vars :: "stmt \<Rightarrow> var set" where
  "stmt_vars (NewBoolVar x) = {x}"
| "stmt_vars (NewIntVar lo hi x) = {x}"
| "stmt_vars (Add c) = constr_vars c"
| "stmt_vars (Maximize e) = expr_vars e"

section \<open>Properties\<close>


lemma bind_err_Inr [simp]: "bind_err (Inr a) f = f a"
  by (simp add: bind_err_def)

lemma bind_err_Inl [simp]: "bind_err (Inl e) f = Inl e"
  by (simp add: bind_err_def)

lemma bind_err_eq_Inr: "bind_err r f = Inr b \<longleftrightarrow> (\<exists>a. r = Inr a \<and> f a = Inr b)"
  by (cases r) simp_all

lemma traverse_concat:
  "(\<And>a. a \<in> set xs \<Longrightarrow> f a = Inr (g a)) \<Longrightarrow> traverse f xs = Inr (concat (map g xs))"
  by (induction xs) simp_all

lemma traverse_Inr_iff:
  "traverse f xs = Inr ys \<longleftrightarrow>
     (\<forall>a\<in>set xs. \<exists>zs. f a = Inr zs) \<and> ys = concat (map (\<lambda>a. projr (f a)) xs)"
proof (induction xs arbitrary: ys)
  case Nil
  show ?case by auto
next
  case (Cons a as)
  show ?case
  proof (cases "f a")
    case (Inl e)
    then show ?thesis by auto
  next
    case fa: (Inr zs)
    show ?thesis
    proof (cases "traverse f as")
      case (Inl e)
      with fa Cons.IH show ?thesis by auto
    next
      case (Inr ws)
      with fa Cons.IH [of ws] show ?thesis by auto
    qed
  qed
qed

lemma traverse_Inr_mem:
  "traverse f xs = Inr ys \<Longrightarrow> a \<in> set xs \<Longrightarrow> \<exists>zs. f a = Inr zs \<and> set zs \<subseteq> set ys"
proof -
  assume t: "traverse f xs = Inr ys" and a: "a \<in> set xs"
  from t a obtain zs where zs: "f a = Inr zs" by (auto simp: traverse_Inr_iff)
  from t have "ys = concat (map (\<lambda>a. projr (f a)) xs)" by (simp add: traverse_Inr_iff)
  with a zs have "set zs \<subseteq> set ys" by force
  with zs show ?thesis by blast
qed

lemma traverse_Inr_elem:
  "traverse f xs = Inr ys \<Longrightarrow> y \<in> set ys \<Longrightarrow> \<exists>a\<in>set xs. \<exists>zs. f a = Inr zs \<and> y \<in> set zs"
  by (fastforce simp: traverse_Inr_iff)

lemma traverse_Inl:
  "traverse f xs = Inl e \<Longrightarrow> \<exists>a\<in>set xs. f a = Inl e"
  by (induction xs) (auto split: sum.splits)

lemma map_of_foldl_update:
  "map_of (foldl (\<lambda>m r. AList.update (key r) (val r) m) m rows)
     = map_of (rev (map (\<lambda>r. (key r, val r)) rows) @ m)"
proof (induction rows arbitrary: m)
  case Nil
  show ?case by simp
next
  case (Cons r rows)
  show ?case
    by (simp add: Cons.IH update_conv' map_add_def fun_eq_iff split: option.splits)
qed

lemma map_of_dict_from:
  "map_of (dict_from key val rows) = map_of (rev (map (\<lambda>r. (key r, val r)) rows))"
  by (simp add: dict_from_def map_of_foldl_update)

lemma keys_foldl_update:
  "fst ` set (foldl (\<lambda>m r. AList.update (key r) (val r) m) m rows) = key ` set rows \<union> fst ` set m"
  by (induction rows arbitrary: m) (auto simp: dom_update)

lemma distinct_foldl_update:
  "distinct (map fst m) \<Longrightarrow> distinct (map fst (foldl (\<lambda>m r. AList.update (key r) (val r) m) m rows))"
  by (induction rows arbitrary: m) (simp_all add: distinct_update)

lemma foldl_update_distinct:
  "distinct (map key rows) \<Longrightarrow> key ` set rows \<inter> fst ` set m = {} \<Longrightarrow>
   foldl (\<lambda>m r. AList.update (key r) (val r) m) m rows = m @ map (\<lambda>r. (key r, val r)) rows"
proof (induction rows arbitrary: m)
  case Nil
  show ?case by simp
next
  case (Cons r rows)
  have notin: "key r \<notin> fst ` set m" using Cons.prems(2) by auto
  have upd: "AList.update (key r) (val r) m = m @ [(key r, val r)]"
    using notin by (induction m) auto
  have "key ` set rows \<inter> fst ` set (m @ [(key r, val r)]) = {}"
    using Cons.prems by auto
  with Cons.IH [of "m @ [(key r, val r)]"] Cons.prems(1) upd show ?case by simp
qed

lemma dict_from_distinct:
  "distinct (map key rows) \<Longrightarrow> dict_from key val rows = map (\<lambda>r. (key r, val r)) rows"
  using foldl_update_distinct [of key rows "[]" val] by (simp add: dict_from_def)


lemma py_int_Inr: "py_int c = Inr i \<longleftrightarrow> c = Some i"
  by (cases c) (simp_all add: py_int_def)

lemma py_int_Inl: "py_int c = Inl e \<longleftrightarrow> c = None \<and> e = ValueError ''cannot convert float NaN to integer''"
  by (cases c) (auto simp: py_int_def)

lemma dict_of_rows_Inr:
  "dict_of_rows key val rows m = Inr m' \<longleftrightarrow>
     (\<forall>r\<in>set rows. \<exists>v. val r = Inr v) \<and>
     m' = foldl (\<lambda>m r. AList.update (key r) (projr (val r)) m) m rows"
proof (induction rows arbitrary: m)
  case Nil
  show ?case by auto
next
  case (Cons r rows)
  show ?case
  proof (cases "val r")
    case (Inl e)
    then show ?thesis by auto
  next
    case (Inr v)
    with Cons.IH [of "AList.update (key r) v m"] show ?thesis by auto
  qed
qed

lemma dict_of_rows_Inl:
  "dict_of_rows key val rows m = Inl e \<Longrightarrow> \<exists>r\<in>set rows. val r = Inl e"
  by (induction rows arbitrary: m) (auto split: sum.splits)

lemma dict_of_rows_first_error:
  "\<forall>r\<in>set pre. \<exists>v. val r = Inr v \<Longrightarrow> val r = Inl e \<Longrightarrow>
   dict_of_rows key val (pre @ r # post) m = Inl e"
  by (induction pre arbitrary: m) auto

lemma dict_of_rows_dict_from:
  "dict_of_rows key val rows [] = Inr m \<Longrightarrow> m = dict_from key (\<lambda>r. projr (val r)) rows"
  by (simp add: dict_of_rows_Inr dict_from_def)

lemma keys_dict_from: "fst ` set (dict_from key val rows) = key ` set rows"
  by (simp add: dict_from_def keys_foldl_update)

lemma distinct_dict_from: "distinct (map fst (dict_from key val rows))"
  by (simp add: dict_from_def distinct_foldl_update)

lemma dict_get_Inr: "dict_get m k = Inr v \<longleftrightarrow> map_of m k = Some v"
  by (simp add: dict_get_def split: option.splits)

lemma dict_get_Inl: "dict_get m k = Inl e \<longleftrightarrow> map_of m k = None \<and> e = KeyError"
  by (auto simp: dict_get_def split: option.splits)

lemma dict_get_present: "k \<in> fst ` set m \<Longrightarrow> \<exists>v. dict_get m k = Inr v"
  by (cases "map_of m k") (auto simp: dict_get_def map_of_eq_None_iff)

lemma map_of_fold_setdefault:
  "map_of (fold (\<lambda>k. setdefault k dflt) ks m) k =
     (case map_of m k of Some v \<Rightarrow> Some v | None \<Rightarrow> if k \<in> set ks then Some dflt else None)"
proof (induction ks arbitrary: m)
  case Nil
  show ?case by (simp split: option.splits)
next
  case (Cons a ks)
  have one: "map_of (setdefault a dflt m) k =
      (case map_of m k of Some v \<Rightarrow> Some v | None \<Rightarrow> if k = a then Some dflt else None)"
    by (cases "map_of m a") (auto simp: setdefault_def map_add_def split: option.splits)
  have "map_of (fold (\<lambda>k. setdefault k dflt) (a # ks) m) k
      = map_of (fold (\<lambda>k. setdefault k dflt) ks (setdefault a dflt m)) k"
    by simp
  also have "\<dots> = (case map_of (setdefault a dflt m) k of Some v \<Rightarrow> Some v
                     | None \<Rightarrow> if k \<in> set ks then Some dflt else None)"
    by (rule Cons.IH)
  finally show ?case
    unfolding one by (auto split: option.splits)
qed

lemma set_horizon: "set (horizon ds rids shs) = {(d, rid, sh). d \<in> set ds \<and> rid \<in> set rids \<and> sh \<in> set shs}"
  by (auto simp: horizon_def)

lemma normalize_Inr_ex:
  assumes "normalize inp = Inr ent"
  shows "\<exists>mpd mpw dem prefs lks.
      dict_of_rows nurse_id (\<lambda>r. py_int (max_shifts_per_day r)) (nurses_df inp) [] = Inr mpd
    \<and> dict_of_rows nurse_id (\<lambda>r. py_int (max_shifts_per_week r)) (nurses_df inp) [] = Inr mpw
    \<and> demand_lookup (demand_df inp) (days inp) (map room_id (rooms_df inp)) (shifts inp) = Inr dem
    \<and> pref_lookup (pref_df inp) = Inr prefs
    \<and> locks_lookup (locks_df inp) = Inr lks
    \<and> ent = \<lparr> nurse_ids = map nurse_id (nurses_df inp),
             room_ids = map room_id (rooms_df inp),
             max_per_day = mpd,
             max_per_week = mpw,
             cert_by_nurse = dict_from nurse_id (\<lambda>r. nan_to_empty (certification r)) (nurses_df inp),
             qual_by_nurse = dict_from nurse_id (\<lambda>r. parse_semicolon_set (qualifications r)) (nurses_df inp),
             req_by_room = dict_from room_id (\<lambda>r. parse_semicolon_set (required_qualifications r)) (rooms_df inp),
             tag_by_room = dict_from room_id (\<lambda>r. nan_to_empty (tags r)) (rooms_df inp),
             demand = dem,
             pref = prefs,
             locks = lks \<rparr>"
proof -
  from assms obtain mpd where a1:
    "dict_of_rows nurse_id (\<lambda>r. py_int (max_shifts_per_day r)) (nurses_df inp) [] = Inr mpd"
    unfolding normalize_def by (cases "dict_of_rows nurse_id (\<lambda>r. py_int (max_shifts_per_day r)) (nurses_df inp) []") simp_all
  from assms obtain mpw where a2:
    "dict_of_rows nurse_id (\<lambda>r. py_int (max_shifts_per_week r)) (nurses_df inp) [] = Inr mpw"
    unfolding normalize_def a1 bind_err_Inr
    by (cases "dict_of_rows nurse_id (\<lambda>r. py_int (max_shifts_per_week r)) (nurses_df inp) []") simp_all
  from assms obtain dem where a3:
    "demand_lookup (demand_df inp) (days inp) (map room_id (rooms_df inp)) (shifts inp) = Inr dem"
    unfolding normalize_def a1 a2 bind_err_Inr
    by (cases "demand_lookup (demand_df inp) (days inp) (map room_id (rooms_df inp)) (shifts inp)") simp_all
  from assms obtain prefs where a4: "pref_lookup (pref_df inp) = Inr prefs"
    unfolding normalize_def a1 a2 a3 bind_err_Inr
    by (cases "pref_lookup (pref_df inp)") simp_all
  from assms obtain lks where a5: "locks_lookup (locks_df inp) = Inr lks"
    unfolding normalize_def a1 a2 a3 a4 bind_err_Inr
    by (cases "locks_lookup (locks_df inp)") simp_all
  from assms have "Inr \<lparr> nurse_ids = map nurse_id (nurses_df inp),
             room_ids = map room_id (rooms_df inp),
             max_per_day = mpd,
             max_per_week = mpw,
             cert_by_nurse = dict_from nurse_id (\<lambda>r. nan_to_empty (certification r)) (nurses_df inp),
             qual_by_nurse = dict_from nurse_id (\<lambda>r. parse_semicolon_set (qualifications r)) (nurses_df inp),
             req_by_room = dict_from room_id (\<lambda>r. parse_semicolon_set (required_qualifications r)) (rooms_df inp),
             tag_by_room = dict_from room_id (\<lambda>r. nan_to_empty (tags r)) (rooms_df inp),
             demand = dem,
             pref = prefs,
             locks = lks \<rparr> = (Inr ent :: error + entities)"
    unfolding normalize_def a1 a2 a3 a4 a5 bind_err_Inr .
  then have "ent = \<lparr> nurse_ids = map nurse_id (nurses_df inp),
             room_ids = map room_id (rooms_df inp),
             max_per_day = mpd,
             max_per_week = mpw,
             cert_by_nurse = dict_from nurse_id (\<lambda>r. nan_to_empty (certification r)) (nurses_df inp),
             qual_by_nurse = dict_from nurse_id (\<lambda>r. parse_semicolon_set (qualifications r)) (nurses_df inp),
             req_by_room = dict_from room_id (\<lambda>r. parse_semicolon_set (required_qualifications r)) (rooms_df inp),
             tag_by_room = dict_from room_id (\<lambda>r. nan_to_empty (tags r)) (rooms_df inp),
             demand = dem,
             pref = prefs,
             locks = lks \<rparr>"
    by (simp only: sum.inject)
  with a1 a2 a3 a4 a5 show ?thesis by (intro exI conjI)
qed

lemma normalize_Inr:
  assumes "normalize inp = Inr ent"
  shows "nurse_ids ent = map nurse_id (nurses_df inp)"
    and "room_ids ent = map room_id (rooms_df inp)"
    and "dict_of_rows nurse_id (\<lambda>r. py_int (max_shifts_per_day r)) (nurses_df inp) [] = Inr (max_per_day ent)"
    and "dict_of_rows nurse_id (\<lambda>r. py_int (max_shifts_per_week r)) (nurses_df inp) [] = Inr (max_per_week ent)"
    and "cert_by_nurse ent = dict_from nurse_id (\<lambda>r. nan_to_empty (certification r)) (nurses_df inp)"
    and "qual_by_nurse ent = dict_from nurse_id (\<lambda>r. parse_semicolon_set (qualifications r)) (nurses_df inp)"
    and "req_by_room ent = dict_from room_id (\<lambda>r. parse_semicolon_set (required_qualifications r)) (rooms_df inp)"
    and "tag_by_room ent = dict_from room_id (\<lambda>r. nan_to_empty (tags r)) (rooms_df inp)"
    and "demand_lookup (demand_df inp) (days inp) (map room_id (rooms_df inp)) (shifts inp) = Inr (demand ent)"
    and "pref_lookup (pref_df inp) = Inr (pref ent)"
    and "locks_lookup (locks_df inp) = Inr (locks ent)"
proof -
  from normalize_Inr_ex [OF assms] obtain mpd mpw dem prefs lks where
    a: "dict_of_rows nurse_id (\<lambda>r. py_int (max_shifts_per_day r)) (nurses_df inp) [] = Inr mpd"
      "dict_of_rows nurse_id (\<lambda>r. py_int (max_shifts_per_week r)) (nurses_df inp) [] = Inr mpw"
      "demand_lookup (demand_df inp) (days inp) (map room_id (rooms_df inp)) (shifts inp) = Inr dem"
      "pref_lookup (pref_df inp) = Inr prefs"
      "locks_lookup (locks_df inp) = Inr lks"
    and e: "ent = \<lparr> nurse_ids = map nurse_id (nurses_df inp),
             room_ids = map room_id (rooms_df inp),
             max_per_day = mpd,
             max_per_week = mpw,
             cert_by_nurse = dict_from nurse_id (\<lambda>r. nan_to_empty (certification r)) (nurses_df inp),
             qual_by_nurse = dict_from nurse_id (\<lambda>r. parse_semicolon_set (qualifications r)) (nurses_df inp),
             req_by_room = dict_from room_id (\<lambda>r. parse_semicolon_set (required_qualifications r)) (rooms_df inp),
             tag_by_room = dict_from room_id (\<lambda>r. nan_to_empty (tags r)) (rooms_df inp),
             demand = dem,
             pref = prefs,
             locks = lks \<rparr>"
    by (elim exE conjE)
  show "nurse_ids ent = map nurse_id (nurses_df inp)" by (simp add: e)
  show "room_ids ent = map room_id (rooms_df inp)" by (simp add: e)
  show "dict_of_rows nurse_id (\<lambda>r. py_int (max_shifts_per_day r)) (nurses_df inp) [] = Inr (max_per_day ent)"
    by (simp add: e a)
  show "dict_of_rows nurse_id (\<lambda>r. py_int (max_shifts_per_week r)) (nurses_df inp) [] = Inr (max_per_week ent)"
    by (simp add: e a)
  show "cert_by_nurse ent = dict_from nurse_id (\<lambda>r. nan_to_empty (certification r)) (nurses_df inp)"
    by (simp add: e)
  show "qual_by_nurse ent = dict_from nurse_id (\<lambda>r. parse_semicolon_set (qualifications r)) (nurses_df inp)"
    by (simp add: e)
  show "req_by_room ent = dict_from room_id (\<lambda>r. parse_semicolon_set (required_qualifications r)) (rooms_df inp)"
    by (simp add: e)
  show "tag_by_room ent = dict_from room_id (\<lambda>r. nan_to_empty (tags r)) (rooms_df inp)"
    by (simp add: e)
  show "demand_lookup (demand_df inp) (days inp) (map room_id (rooms_df inp)) (shifts inp) = Inr (demand ent)"
    by (simp add: e a)
  show "pref_lookup (pref_df inp) = Inr (pref ent)" by (simp add: e a)
  show "locks_lookup (locks_df inp) = Inr (locks ent)" by (simp add: e a)
qed

lemma normalize_nurse_keys:
  assumes "normalize inp = Inr ent"
  shows "fst ` set (max_per_day ent) = set (nurse_ids ent)"
    and "fst ` set (max_per_week ent) = set (nurse_ids ent)"
    and "fst ` set (cert_by_nurse ent) = set (nurse_ids ent)"
    and "fst ` set (qual_by_nurse ent) = set (nurse_ids ent)"
proof -
  note n = normalize_Inr [OF assms]
  show "fst ` set (max_per_day ent) = set (nurse_ids ent)"
    using dict_of_rows_dict_from [OF n(3)] by (simp add: keys_dict_from n(1))
  show "fst ` set (max_per_week ent) = set (nurse_ids ent)"
    using dict_of_rows_dict_from [OF n(4)] by (simp add: keys_dict_from n(1))
  show "fst ` set (cert_by_nurse ent) = set (nurse_ids ent)"
    by (simp add: keys_dict_from n(1) n(5))
  show "fst ` set (qual_by_nurse ent) = set (nurse_ids ent)"
    by (simp add: keys_dict_from n(1) n(6))
qed

lemma normalize_room_keys:
  assumes "normalize inp = Inr ent"
  shows "fst ` set (req_by_room ent) = set (room_ids ent)"
    and "fst ` set (tag_by_room ent) = set (room_ids ent)"
  using normalize_Inr [OF assms] by (simp_all add: keys_dict_from)

lemma demand_lookup_parts:
  assumes "demand_lookup rows ds rids shs = Inr m"
  obtains m0 where
    "dict_of_rows (\<lambda>r. (d_day r, d_room_id r, d_shift r)) (\<lambda>r. py_int (required_nurses r)) rows [] = Inr m0"
    "m = fold (\<lambda>k. setdefault k 0) (horizon ds rids shs) m0"
  using assms unfolding demand_lookup_def
  by (cases "dict_of_rows (\<lambda>r. (d_day r, d_room_id r, d_shift r)) (\<lambda>r. py_int (required_nurses r)) rows []")
     simp_all

lemma normalize_demand_present:
  assumes "normalize inp = Inr ent"
    and "s \<in> set (horizon (days inp) (room_ids ent) (shifts inp))"
  shows "\<exists>v. dict_get (demand ent) s = Inr v"
proof -
  note n = normalize_Inr [OF assms(1)]
  from n(9) obtain m0 where
    dem: "demand ent = fold (\<lambda>k. setdefault k 0) (horizon (days inp) (map room_id (rooms_df inp)) (shifts inp)) m0"
    by (rule demand_lookup_parts)
  have "map_of (demand ent) s \<noteq> None"
    using assms(2) unfolding dem n(2) by (simp add: map_of_fold_setdefault split: option.splits)
  then show ?thesis by (auto simp: dict_get_def split: option.splits)
qed


lemma feasible_total:
  assumes "normalize inp = Inr ent" "n \<in> set (nurse_ids ent)" "rid \<in> set (room_ids ent)"
  shows "\<exists>b. feasible ent n rid = Inr b"
proof -
  from assms obtain req where "dict_get (req_by_room ent) rid = Inr req"
    using dict_get_present [of rid "req_by_room ent"] normalize_room_keys(1) [OF assms(1)] by auto
  moreover from assms obtain qual where "dict_get (qual_by_nurse ent) n = Inr qual"
    using dict_get_present [of n "qual_by_nurse ent"] normalize_nurse_keys(4) [OF assms(1)] by auto
  ultimately show ?thesis by (simp add: feasible_def)
qed

lemma x_created_total:
  assumes "normalize inp = Inr ent"
  shows "\<exists>cs. x_created ent shs ds = Inr cs"
proof -
  have "\<forall>p\<in>set [(n, rid). n \<leftarrow> nurse_ids ent, rid \<leftarrow> room_ids ent].
          \<exists>zs. (case p of (n, rid) \<Rightarrow> bind_err (feasible ent n rid) (\<lambda>ok.
             if \<not> ok then Inr [] else Inr [(n, rid, sh, d). sh \<leftarrow> shs, d \<leftarrow> ds])) = Inr zs"
  proof
    fix p assume "p \<in> set [(n, rid). n \<leftarrow> nurse_ids ent, rid \<leftarrow> room_ids ent]"
    then obtain n rid where p: "p = (n, rid)" "n \<in> set (nurse_ids ent)" "rid \<in> set (room_ids ent)"
      by auto
    from feasible_total [OF assms p(2,3)] obtain b where "feasible ent n rid = Inr b" ..
    then show "\<exists>zs. (case p of (n, rid) \<Rightarrow> bind_err (feasible ent n rid) (\<lambda>ok.
             if \<not> ok then Inr [] else Inr [(n, rid, sh, d). sh \<leftarrow> shs, d \<leftarrow> ds])) = Inr zs"
      by (simp add: p(1))
  qed
  then show ?thesis
    unfolding x_created_def traverse_Inr_iff by blast
qed

lemma x_created_set:
  assumes "x_created ent shs ds = Inr cs"
  shows "set cs = {(n, rid, sh, d). n \<in> set (nurse_ids ent) \<and> rid \<in> set (room_ids ent)
                      \<and> feasible ent n rid = Inr True \<and> sh \<in> set shs \<and> d \<in> set ds}"
proof -
  let ?f = "\<lambda>(n, rid). bind_err (feasible ent n rid) (\<lambda>ok.
             if \<not> ok then Inr [] else Inr [(n, rid, sh, d). sh \<leftarrow> shs, d \<leftarrow> ds])"
  let ?ps = "[(n, rid). n \<leftarrow> nurse_ids ent, rid \<leftarrow> room_ids ent]"
  from assms have tr: "traverse ?f ?ps = Inr cs" by (simp add: x_created_def)
  show ?thesis
  proof (rule set_eqI)
    fix k :: key
    obtain n rid sh d where k: "k = (n, rid, sh, d)" by (cases k) auto
    show "k \<in> set cs \<longleftrightarrow> k \<in> {(n, rid, sh, d). n \<in> set (nurse_ids ent) \<and> rid \<in> set (room_ids ent)
                      \<and> feasible ent n rid = Inr True \<and> sh \<in> set shs \<and> d \<in> set ds}"
    proof
      assume "k \<in> set cs"
      from traverse_Inr_elem [OF tr this] obtain p zs where
        p: "p \<in> set ?ps" "?f p = Inr zs" "k \<in> set zs" by blast
      obtain n' rid' where p': "p = (n', rid')" by (cases p)
      from p(2) obtain b where b: "feasible ent n' rid' = Inr b"
        and zs: "zs = (if \<not> b then [] else [(n', rid', sh, d). sh \<leftarrow> shs, d \<leftarrow> ds])"
        unfolding p' by (auto simp: bind_err_eq_Inr split: if_splits)
      from p(3) zs have "b" by (auto split: if_splits)
      with p(3) zs k b p(1) p' show "k \<in> {(n, rid, sh, d). n \<in> set (nurse_ids ent) \<and> rid \<in> set (room_ids ent)
                      \<and> feasible ent n rid = Inr True \<and> sh \<in> set shs \<and> d \<in> set ds}"
        by auto
    next
      assume "k \<in> {(n, rid, sh, d). n \<in> set (nurse_ids ent) \<and> rid \<in> set (room_ids ent)
                      \<and> feasible ent n rid = Inr True \<and> sh \<in> set shs \<and> d \<in> set ds}"
      with k have h: "n \<in> set (nurse_ids ent)" "rid \<in> set (room_ids ent)"
        "feasible ent n rid = Inr True" "sh \<in> set shs" "d \<in> set ds" by auto
      from h(1,2) have "(n, rid) \<in> set ?ps" by auto
      from traverse_Inr_mem [OF tr this] obtain zs where zs: "?f (n, rid) = Inr zs" "set zs \<subseteq> set cs"
        by blast
      from zs(1) h(3) have "zs = [(n, rid, sh, d). sh \<leftarrow> shs, d \<leftarrow> ds]" by simp
      with h(4,5) have "k \<in> set zs" by (auto simp: k)
      with zs(2) show "k \<in> set cs" by blast
    qed
  qed
qed

lemma map_of_x_dict: "map_of (x_dict cs) k = (if k \<in> set cs then Some (X k) else None)"
proof -
  have "map_of (rev (map (\<lambda>r. (r, X r)) cs)) k = (if k \<in> set cs then Some (X k) else None)"
    by (induction cs) (auto simp: map_add_def split: option.splits)
  then show ?thesis by (simp add: x_dict_def map_of_dict_from)
qed

lemma x_dict_entry: "(k, v) \<in> set (x_dict cs) \<Longrightarrow> v = X k \<and> k \<in> set cs"
proof -
  assume a: "(k, v) \<in> set (x_dict cs)"
  have "distinct (map fst (x_dict cs))" by (simp add: x_dict_def distinct_dict_from)
  from map_of_is_SomeI [OF this a] show ?thesis
    by (simp add: map_of_x_dict split: if_splits)
qed

lemma x_dict_keys: "fst ` set (x_dict cs) = set cs"
  by (simp add: x_dict_def keys_dict_from)

lemma distinct_x_dict: "distinct (map fst (x_dict cs))"
  by (simp add: x_dict_def distinct_dict_from)

lemma x_dict_snd: "kv \<in> set (x_dict cs) \<Longrightarrow> snd kv = X (fst kv)"
  using x_dict_entry [of "fst kv" "snd kv" cs] by simp

lemma x_vars_x_dict: "x_vars P (x_dict cs) = map X (filter P (map fst (x_dict cs)))"
proof -
  have "map snd (filter (\<lambda>kv. P (fst kv)) (x_dict cs)) = map (\<lambda>kv. X (fst kv)) (filter (\<lambda>kv. P (fst kv)) (x_dict cs))"
    by (rule map_cong) (auto dest: x_dict_entry)
  also have "\<dots> = map X (filter P (map fst (x_dict cs)))"
    by (simp add: filter_map comp_def)
  finally show ?thesis by (simp add: x_vars_def)
qed

lemma x_present_x_dict: "x_present (x_dict cs) ks = map X (filter (\<lambda>k. k \<in> set cs) ks)"
  by (induction ks) (simp_all add: x_present_def map_of_x_dict)

lemma build_model_Inr:
  assumes "build_model inp ent = Inr (x, m)"
  obtains cs c_day c_week c_cov c_rest c_charge c_cnor c_lock where
    "x_created ent (shifts inp) (days inp) = Inr cs"
    "x = x_dict cs"
    "daily_cap ent x (days inp) = Inr c_day"
    "weekly_cap ent x = Inr c_week"
    "coverage ent x (allow_overstaff inp) (days inp) (shifts inp) = Inr c_cov"
    "rest_rule ent x (enforce_rest_night_to_day inp) (shifts inp) (days inp) = Inr c_rest"
    "charge_rule ent x (charge_rooms_tags inp) (days inp) (shifts inp) = Inr c_charge"
    "cnor_rule ent x (require_cnor_in_or inp) (days inp) (shifts inp) = Inr c_cnor"
    "lock_rule ent x = Inr c_lock"
    "m = map (\<lambda>k. NewBoolVar (X k)) cs @ c_day @ c_week @ c_cov @ c_rest
               @ c_charge @ c_cnor @ c_lock
               @ fairness ent x (target_shifts_per_nurse_week inp)
               @ [Maximize (objective inp ent x)]"
  using assms unfolding build_model_def bind_err_eq_Inr Let_def by auto

lemma satisfies_append: "satisfies v (a @ b) \<longleftrightarrow> satisfies v a \<and> satisfies v b"
  by (simp add: satisfies_def)

lemma satisfies_mem: "satisfies v m \<Longrightarrow> s \<in> set m \<Longrightarrow> stmt_ok v s"
  by (simp add: satisfies_def list_all_iff)


lemma map_of_dict_from_distinct:
  assumes "distinct (map key rows)" "r \<in> set rows"
  shows "map_of (dict_from key val rows) (key r) = Some (val r)"
proof -
  have d: "dict_from key val rows = map (\<lambda>r. (key r, val r)) rows"
    by (rule dict_from_distinct [OF assms(1)])
  have "distinct (map fst (map (\<lambda>r. (key r, val r)) rows))"
    using assms(1) by (simp add: comp_def)
  moreover have "(key r, val r) \<in> set (map (\<lambda>r. (key r, val r)) rows)"
    using assms(2) by auto
  ultimately show ?thesis unfolding d by (rule map_of_is_SomeI)
qed

lemma feasible_rows:
  assumes norm: "normalize inp = Inr ent"
    and dn: "distinct (map nurse_id (nurses_df inp))"
    and dr: "distinct (map room_id (rooms_df inp))"
    and nr: "nr \<in> set (nurses_df inp)" and rr: "rr \<in> set (rooms_df inp)"
  shows "feasible ent (nurse_id nr) (room_id rr) =
           Inr (parse_semicolon_set (required_qualifications rr) \<subseteq> parse_semicolon_set (qualifications nr))"
proof -
  note n = normalize_Inr [OF norm]
  have "dict_get (req_by_room ent) (room_id rr) = Inr (parse_semicolon_set (required_qualifications rr))"
    unfolding n(7) dict_get_Inr by (rule map_of_dict_from_distinct [OF dr rr])
  moreover have "dict_get (qual_by_nurse ent) (nurse_id nr) = Inr (parse_semicolon_set (qualifications nr))"
    unfolding n(6) dict_get_Inr by (rule map_of_dict_from_distinct [OF dn nr])
  ultimately show ?thesis by (simp add: feasible_def)
qed

lemma length_filter_pairs:
  "length (filter P [(n, rid). n \<leftarrow> ns, rid \<leftarrow> rs])
     = (\<Sum>rid\<leftarrow>rs. length (filter (\<lambda>n. P (n, rid)) ns))"
proof (induction ns)
  case Nil
  show ?case by simp
next
  case (Cons n ns)
  have one: "length (filter P (map (\<lambda>rid. (n, rid)) rs)) = (\<Sum>rid\<leftarrow>rs. if P (n, rid) then 1 else 0)"
    by (induction rs) simp_all
  have "(\<Sum>rid\<leftarrow>rs. length (filter (\<lambda>n. P (n, rid)) (n # ns)))
      = (\<Sum>rid\<leftarrow>rs. (if P (n, rid) then 1 else 0) + length (filter (\<lambda>n. P (n, rid)) ns))"
    by (rule arg_cong [where f = sum_list]) (rule map_cong, auto)
  also have "\<dots> = (\<Sum>rid\<leftarrow>rs. if P (n, rid) then 1 else 0) + (\<Sum>rid\<leftarrow>rs. length (filter (\<lambda>n. P (n, rid)) ns))"
    by (simp add: sum_list_addf)
  finally show ?case using Cons.IH one by simp
qed

lemma distinct_pairs:
  "distinct ns \<Longrightarrow> distinct rs \<Longrightarrow> distinct [(n, rid). n \<leftarrow> ns, rid \<leftarrow> rs]"
  using distinct_product [of ns rs] by (simp add: product_concat_map)

lemma card_keys:
  assumes "finite F" "finite S" "finite D"
  shows "card {(n, rid, sh, d). (n, rid) \<in> F \<and> sh \<in> S \<and> d \<in> D} = card D * card S * card F"
proof -
  let ?g = "\<lambda>p. case p of ((n, rid), sh, d) \<Rightarrow> (n, rid, sh, d)"
  have eq: "{(n, rid, sh, d). (n, rid) \<in> F \<and> sh \<in> S \<and> d \<in> D} = ?g ` (F \<times> S \<times> D)"
  proof (rule set_eqI)
    fix k :: "'a \<times> 'b \<times> 'c \<times> 'd"
    obtain n rid sh d where k: "k = (n, rid, sh, d)" by (cases k) auto
    have "k \<in> ?g ` (F \<times> S \<times> D) \<longleftrightarrow> (\<exists>p\<in>F \<times> S \<times> D. k = ?g p)" by blast
    also have "\<dots> \<longleftrightarrow> (n, rid) \<in> F \<and> sh \<in> S \<and> d \<in> D"
      unfolding k by (simp add: Bex_def) 
    finally show "k \<in> {(n, rid, sh, d). (n, rid) \<in> F \<and> sh \<in> S \<and> d \<in> D} \<longleftrightarrow> k \<in> ?g ` (F \<times> S \<times> D)"
      unfolding k by simp
  qed
  have inj: "inj_on ?g (F \<times> S \<times> D)"
    by (auto simp: inj_on_def)
  show ?thesis
    unfolding eq card_image [OF inj] by (simp add: card_cartesian_product)
qed

lemma x_created_count:
  assumes cs: "x_created ent shs ds = Inr cs"
    and dn: "distinct (nurse_ids ent)" and dr: "distinct (room_ids ent)"
    and dsh: "distinct shs" and dd: "distinct ds"
  shows "length (x_dict cs) = length ds * length shs *
           (\<Sum>rid\<leftarrow>room_ids ent. length (filter (\<lambda>n. feasible ent n rid = Inr True) (nurse_ids ent)))"
proof -
  let ?ps = "[(n, rid). n \<leftarrow> nurse_ids ent, rid \<leftarrow> room_ids ent]"
  let ?P = "\<lambda>p. case p of (n, rid) \<Rightarrow> feasible ent n rid = Inr True"
  let ?F = "set (filter ?P ?ps)"
  have "length (x_dict cs) = length (map fst (x_dict cs))" by simp
  also have "\<dots> = card (set (map fst (x_dict cs)))"
    by (rule distinct_card [symmetric]) (rule distinct_x_dict)
  also have "\<dots> = card (set cs)" using x_dict_keys [of cs] by simp
  also have "set cs = {(n, rid, sh, d). (n, rid) \<in> ?F \<and> sh \<in> set shs \<and> d \<in> set ds}"
    unfolding x_created_set [OF cs] by auto
  also have "card \<dots> = card (set ds) * card (set shs) * card ?F"
    by (rule card_keys) simp_all
  also have "card (set ds) = length ds" by (rule distinct_card [OF dd])
  also have "card (set shs) = length shs" by (rule distinct_card [OF dsh])
  also have "card ?F = length (filter ?P ?ps)"
    by (rule distinct_card) (rule distinct_filter, rule distinct_pairs [OF dn dr])
  also have "\<dots> = (\<Sum>rid\<leftarrow>room_ids ent. length (filter (\<lambda>n. feasible ent n rid = Inr True) (nurse_ids ent)))"
    using length_filter_pairs [where P = ?P and ns = "nurse_ids ent" and rs = "room_ids ent"] by simp
  finally show ?thesis .
qed


text \<open>
  C1.  For every nurse row, room row, selected shift and selected day the dictionary
  \<open>x\<close> holds a variable under the key (nurse, room, shift, day) exactly when the
  room's required qualifications are a subset of the nurse's qualifications; every
  entry of \<open>x\<close> is a Boolean variable of the model; and, identifiers, days and shifts
  being pairwise distinct, the number of entries is
  \<open>|days| * |shifts| * (\<Sum> over rooms of the number of feasible nurses)\<close>.
\<close>

theorem variable_space_iff_feasible:
  assumes norm: "normalize inp = Inr ent"
    and build: "build_model inp ent = Inr (x, m)"
    and dn: "distinct (map nurse_id (nurses_df inp))"
    and dr: "distinct (map room_id (rooms_df inp))"
    and dd: "distinct (days inp)"
    and dsh: "distinct (shifts inp)"
  shows "(\<forall>nr\<in>set (nurses_df inp). \<forall>rr\<in>set (rooms_df inp). \<forall>sh\<in>set (shifts inp). \<forall>d\<in>set (days inp).
            (map_of x (nurse_id nr, room_id rr, sh, d) \<noteq> None) =
            (parse_semicolon_set (required_qualifications rr) \<subseteq> parse_semicolon_set (qualifications nr)))
       \<and> (\<forall>kv\<in>set x. snd kv = X (fst kv) \<and> NewBoolVar (snd kv) \<in> set m)
       \<and> length x = length (days inp) * length (shifts inp) *
           (\<Sum>rr\<leftarrow>rooms_df inp.
              length (filter (\<lambda>nr. parse_semicolon_set (required_qualifications rr)
                                      \<subseteq> parse_semicolon_set (qualifications nr)) (nurses_df inp)))"
proof -
  note n = normalize_Inr [OF norm]
  from build obtain cs rest where
    cs: "x_created ent (shifts inp) (days inp) = Inr cs" and x: "x = x_dict cs"
    and m: "m = map (\<lambda>k. NewBoolVar (X k)) cs @ rest"
    by (rule build_model_Inr) simp
  have feas: "feasible ent (nurse_id nr) (room_id rr) =
       Inr (parse_semicolon_set (required_qualifications rr) \<subseteq> parse_semicolon_set (qualifications nr))"
    if "nr \<in> set (nurses_df inp)" "rr \<in> set (rooms_df inp)" for nr rr
    using feasible_rows [OF norm dn dr that] .
  have part1: "\<forall>nr\<in>set (nurses_df inp). \<forall>rr\<in>set (rooms_df inp). \<forall>sh\<in>set (shifts inp). \<forall>d\<in>set (days inp).
            (map_of x (nurse_id nr, room_id rr, sh, d) \<noteq> None) =
            (parse_semicolon_set (required_qualifications rr) \<subseteq> parse_semicolon_set (qualifications nr))"
    unfolding x map_of_x_dict x_created_set [OF cs] n(1) n(2)
    by (auto simp: feas)
  have part2: "\<forall>kv\<in>set x. snd kv = X (fst kv) \<and> NewBoolVar (snd kv) \<in> set m"
  proof
    fix kv assume kv: "kv \<in> set x"
    from x_dict_entry [of "fst kv" "snd kv" cs] kv x
    have "snd kv = X (fst kv)" "fst kv \<in> set cs" by simp_all
    then show "snd kv = X (fst kv) \<and> NewBoolVar (snd kv) \<in> set m"
      unfolding m by auto
  qed
  have inner: "length (filter (\<lambda>n. feasible ent n (room_id rr) = Inr True) (nurse_ids ent))
      = length (filter (\<lambda>nr. parse_semicolon_set (required_qualifications rr)
                                      \<subseteq> parse_semicolon_set (qualifications nr)) (nurses_df inp))"
    if rr: "rr \<in> set (rooms_df inp)" for rr
  proof -
    have "filter (\<lambda>nr. feasible ent (nurse_id nr) (room_id rr) = Inr True) (nurses_df inp)
        = filter (\<lambda>nr. parse_semicolon_set (required_qualifications rr)
                                      \<subseteq> parse_semicolon_set (qualifications nr)) (nurses_df inp)"
      by (rule filter_cong) (simp_all add: feas rr)
    then show ?thesis
      unfolding n(1) by (simp add: filter_map comp_def)
  qed
  have "length x = length (days inp) * length (shifts inp) *
           (\<Sum>rid\<leftarrow>room_ids ent. length (filter (\<lambda>n. feasible ent n rid = Inr True) (nurse_ids ent)))"
    unfolding x
    by (rule x_created_count [OF cs]) (simp_all add: n(1) n(2) dn dr dsh dd)
  also have "(\<Sum>rid\<leftarrow>room_ids ent. length (filter (\<lambda>n. feasible ent n rid = Inr True) (nurse_ids ent)))
      = (\<Sum>rr\<leftarrow>rooms_df inp. length (filter (\<lambda>n. feasible ent n (room_id rr) = Inr True) (nurse_ids ent)))"
    unfolding n(2) by (simp add: comp_def)
  also have "\<dots> = (\<Sum>rr\<leftarrow>rooms_df inp.
              length (filter (\<lambda>nr. parse_semicolon_set (required_qualifications rr)
                                      \<subseteq> parse_semicolon_set (qualifications nr)) (nurses_df inp)))"
    by (rule arg_cong [where f = sum_list]) (rule map_cong, simp, rule inner)
  finally show ?thesis using part1 part2 by blast
qed

theorem variable_space_iff_feasible_witness:
  "\<exists>ent x m. normalize ex1 = Inr ent \<and> build_model ex1 ent = Inr (x, m)
      \<and> map_of x (''N1'', ''R1'', ''Day'', ''Mon'') \<noteq> None
      \<and> map_of x (''N2'', ''R1'', ''Day'', ''Mon'') = None
      \<and> length x = 12"
proof -
  have "case normalize ex1 of Inl e \<Rightarrow> False | Inr ent \<Rightarrow> True" by code_simp
  then obtain ent where n: "normalize ex1 = Inr ent" by (cases "normalize ex1") auto
  have "case normalize ex1 of Inl e \<Rightarrow> False
        | Inr ent \<Rightarrow> (case build_model ex1 ent of Inl e \<Rightarrow> False | Inr xm \<Rightarrow> True)"
    by code_simp
  with n obtain x m where b: "build_model ex1 ent = Inr (x, m)"
    by (cases "build_model ex1 ent") auto
  have d: "distinct (map nurse_id (nurses_df ex1))" "distinct (map room_id (rooms_df ex1))"
    "distinct (days ex1)" "distinct (shifts ex1)"
    by (simp_all add: ex1_def)
  note t = variable_space_iff_feasible [OF n b d]
  have cnt: "(\<Sum>rr\<leftarrow>rooms_df ex1.
              length (filter (\<lambda>nr. parse_semicolon_set (required_qualifications rr)
                                      \<subseteq> parse_semicolon_set (qualifications nr)) (nurses_df ex1))) = 3"
    by code_simp
  have len: "length (days ex1) = 2" "length (shifts ex1) = 2" by (simp_all add: ex1_def)
  from t have "length x = 12" unfolding cnt len by simp
  moreover
  have r1: "\<lparr> room_id = ''R1'', room_name = ''ICU 1'', required_qualifications = Some ''ICU'', tags = Some ''ICU'' \<rparr> \<in> set (rooms_df ex1)"
    and n1: "\<lparr> nurse_id = ''N1'', qualifications = Some ''ICU; Charge'', certification = None,
                          max_shifts_per_day = Some 1, max_shifts_per_week = Some 5 \<rparr> \<in> set (nurses_df ex1)"
    and n2: "\<lparr> nurse_id = ''N2'', qualifications = Some ''ER'', certification = Some ''CNOR'',
                          max_shifts_per_day = Some 1, max_shifts_per_week = Some 5 \<rparr> \<in> set (nurses_df ex1)"
    and sd: "''Day'' \<in> set (shifts ex1)" "''Mon'' \<in> set (days ex1)"
    by (simp_all add: ex1_def)
  have p1: "parse_semicolon_set (Some ''ICU'') \<subseteq> parse_semicolon_set (Some ''ICU; Charge'')"
    by code_simp
  have p2: "\<not> parse_semicolon_set (Some ''ICU'') \<subseteq> parse_semicolon_set (Some ''ER'')"
    by code_simp
  from t have iff: "\<forall>nr\<in>set (nurses_df ex1). \<forall>rr\<in>set (rooms_df ex1). \<forall>sh\<in>set (shifts ex1). \<forall>d\<in>set (days ex1).
            (map_of x (nurse_id nr, room_id rr, sh, d) \<noteq> None) =
            (parse_semicolon_set (required_qualifications rr) \<subseteq> parse_semicolon_set (qualifications nr))"
    by blast
  from iff [rule_format, OF n1 r1 sd] p1
  have "map_of x (''N1'', ''R1'', ''Day'', ''Mon'') \<noteq> None" by simp
  moreover from iff [rule_format, OF n2 r1 sd] p2
  have "map_of x (''N2'', ''R1'', ''Day'', ''Mon'') = None" by simp
  ultimately show ?thesis using n b by blast
qed


subsection \<open>Normalisation: missing cells and repeated keys\<close>

lemma dict_of_rows_py_int_Inr:
  "(\<exists>m'. dict_of_rows key (\<lambda>r. py_int (f r)) rows m = Inr m') \<longleftrightarrow> list_all (\<lambda>r. f r \<noteq> None) rows"
  by (auto simp: dict_of_rows_Inr py_int_Inr list_all_iff)

lemma dict_of_rows_py_int_Inl:
  "dict_of_rows key (\<lambda>r. py_int (f r)) rows m = Inl e \<Longrightarrow>
   e = ValueError ''cannot convert float NaN to integer''"
  by (auto dest!: dict_of_rows_Inl simp: py_int_Inl)

lemma demand_lookup_Inr:
  "(\<exists>m'. demand_lookup rows ds rids shs = Inr m') \<longleftrightarrow> list_all (\<lambda>r. required_nurses r \<noteq> None) rows"
  unfolding demand_lookup_def bind_err_eq_Inr
  using dict_of_rows_py_int_Inr [of "\<lambda>r. (d_day r, d_room_id r, d_shift r)" required_nurses rows "[]"]
  by auto

lemma demand_lookup_Inl:
  "demand_lookup rows ds rids shs = Inl e \<Longrightarrow> e = ValueError ''cannot convert float NaN to integer''"
  unfolding demand_lookup_def bind_err_def
  by (auto split: sum.splits dest: dict_of_rows_py_int_Inl)

lemma normalize_total:
  "(\<exists>ent. normalize inp = Inr ent) \<longleftrightarrow> numeric_fields_present inp"
proof
  assume "\<exists>ent. normalize inp = Inr ent"
  then obtain ent where e: "normalize inp = Inr ent" ..
  note n = normalize_Inr [OF e]
  show "numeric_fields_present inp"
    unfolding numeric_fields_present_def
    using n(3) n(4) n(9) n(10) n(11)
      dict_of_rows_py_int_Inr [of nurse_id max_shifts_per_day "nurses_df inp" "[]"]
      dict_of_rows_py_int_Inr [of nurse_id max_shifts_per_week "nurses_df inp" "[]"]
      demand_lookup_Inr [of "demand_df inp" "days inp" "map room_id (rooms_df inp)" "shifts inp"]
      dict_of_rows_py_int_Inr [of "\<lambda>r. (p_nurse_id r, p_day r, p_shift r)" preference "pref_df inp" "[]"]
      dict_of_rows_py_int_Inr [of "\<lambda>r. (l_day r, l_shift r, l_room_id r, l_nurse_id r)" locked "locks_df inp" "[]"]
    unfolding pref_lookup_def locks_lookup_def by blast
next
  assume p: "numeric_fields_present inp"
  from p obtain mpd where a1: "dict_of_rows nurse_id (\<lambda>r. py_int (max_shifts_per_day r)) (nurses_df inp) [] = Inr mpd"
    using dict_of_rows_py_int_Inr [of nurse_id max_shifts_per_day "nurses_df inp" "[]"]
    by (auto simp: numeric_fields_present_def)
  from p obtain mpw where a2: "dict_of_rows nurse_id (\<lambda>r. py_int (max_shifts_per_week r)) (nurses_df inp) [] = Inr mpw"
    using dict_of_rows_py_int_Inr [of nurse_id max_shifts_per_week "nurses_df inp" "[]"]
    by (auto simp: numeric_fields_present_def)
  from p obtain dem where a3: "demand_lookup (demand_df inp) (days inp) (map room_id (rooms_df inp)) (shifts inp) = Inr dem"
    using demand_lookup_Inr [of "demand_df inp" "days inp" "map room_id (rooms_df inp)" "shifts inp"]
    by (auto simp: numeric_fields_present_def)
  from p obtain prefs where a4: "pref_lookup (pref_df inp) = Inr prefs"
    using dict_of_rows_py_int_Inr [of "\<lambda>r. (p_nurse_id r, p_day r, p_shift r)" preference "pref_df inp" "[]"]
    by (auto simp: numeric_fields_present_def pref_lookup_def)
  from p obtain lks where a5: "locks_lookup (locks_df inp) = Inr lks"
    using dict_of_rows_py_int_Inr [of "\<lambda>r. (l_day r, l_shift r, l_room_id r, l_nurse_id r)" locked "locks_df inp" "[]"]
    by (auto simp: numeric_fields_present_def locks_lookup_def)
  show "\<exists>ent. normalize inp = Inr ent"
    unfolding normalize_def by (simp add: a1 a2 a3 a4 a5)
qed

lemma normalize_error:
  assumes "normalize inp = Inl e"
  shows "e = ValueError ''cannot convert float NaN to integer''"
proof -
  let ?v = "ValueError ''cannot convert float NaN to integer''"
  show ?thesis
    using assms unfolding normalize_def bind_err_def pref_lookup_def locks_lookup_def
    by (auto split: sum.splits dest: dict_of_rows_py_int_Inl demand_lookup_Inl)
qed

lemma map_of_last_wins:
  assumes "rows = pre @ r # post" "\<forall>r'\<in>set post. key r' \<noteq> key r"
  shows "map_of (rev (map (\<lambda>r. (key r, val r)) rows)) (key r) = Some (val r)"
proof -
  have "map_of (rev (map (\<lambda>r. (key r, val r)) post)) (key r) = None"
    using assms(2) by (auto simp: map_of_eq_None_iff image_iff)
  then show ?thesis
    unfolding assms(1) by (simp add: map_add_def)
qed

lemma dict_of_rows_last_wins:
  assumes "dict_of_rows key (\<lambda>r. py_int (f r)) rows [] = Inr m"
    and "rows = pre @ r # post" "\<forall>r'\<in>set post. key r' \<noteq> key r"
  shows "map_of m (key r) = f r"
proof -
  from assms(1) have all: "\<forall>r\<in>set rows. \<exists>v. py_int (f r) = Inr v"
    by (simp add: dict_of_rows_Inr)
  with assms(2) obtain v where v: "f r = Some v" by (auto simp: py_int_Inr)
  have "map_of m (key r) = Some (projr (py_int (f r)))"
    unfolding dict_of_rows_dict_from [OF assms(1)] map_of_dict_from
    by (rule map_of_last_wins [OF assms(2,3)])
  with v show ?thesis by (simp add: py_int_def)
qed


lemma demand_last_wins:
  assumes "normalize inp = Inr ent"
    and "demand_df inp = pre @ r # post"
    and "\<forall>r'\<in>set post. (d_day r', d_room_id r', d_shift r') \<noteq> (d_day r, d_room_id r, d_shift r)"
  shows "map_of (demand ent) (d_day r, d_room_id r, d_shift r) = required_nurses r"
proof -
  note n = normalize_Inr [OF assms(1)]
  from n(9) obtain m0 where
    m0: "dict_of_rows (\<lambda>r. (d_day r, d_room_id r, d_shift r)) (\<lambda>r. py_int (required_nurses r)) (demand_df inp) [] = Inr m0"
    and dem: "demand ent = fold (\<lambda>k. setdefault k 0) (horizon (days inp) (map room_id (rooms_df inp)) (shifts inp)) m0"
    by (rule demand_lookup_parts)
  have lw: "map_of m0 (d_day r, d_room_id r, d_shift r) = required_nurses r"
    using dict_of_rows_last_wins [OF m0 assms(2)] assms(3) by simp
  from m0 assms(2) have "required_nurses r \<noteq> None"
    by (auto simp: dict_of_rows_Inr py_int_Inr)
  with lw show ?thesis
    unfolding dem map_of_fold_setdefault by (auto split: option.splits)
qed

text \<open>
  C10.  In the demand, preference and lock tables a key that occurs in several rows
  is not rejected (normalisation succeeds whenever every numeric cell holds a number)
  and is not aggregated: the dictionary built from the table holds, under that key,
  the value of the last row carrying it.
\<close>

theorem duplicate_rows_last_wins:
  assumes "numeric_fields_present inp"
  shows "\<exists>ent. normalize inp = Inr ent
      \<and> (\<forall>pre r post. demand_df inp = pre @ r # post
            \<and> (\<forall>r'\<in>set post. (d_day r', d_room_id r', d_shift r') \<noteq> (d_day r, d_room_id r, d_shift r))
           \<longrightarrow> map_of (demand ent) (d_day r, d_room_id r, d_shift r) = required_nurses r)
      \<and> (\<forall>pre r post. pref_df inp = pre @ r # post
            \<and> (\<forall>r'\<in>set post. (p_nurse_id r', p_day r', p_shift r') \<noteq> (p_nurse_id r, p_day r, p_shift r))
           \<longrightarrow> map_of (pref ent) (p_nurse_id r, p_day r, p_shift r) = preference r)
      \<and> (\<forall>pre r post. locks_df inp = pre @ r # post
            \<and> (\<forall>r'\<in>set post. (l_day r', l_shift r', l_room_id r', l_nurse_id r')
                                   \<noteq> (l_day r, l_shift r, l_room_id r, l_nurse_id r))
           \<longrightarrow> map_of (locks ent) (l_day r, l_shift r, l_room_id r, l_nurse_id r) = locked r)"
proof -
  from assms obtain ent where e: "normalize inp = Inr ent"
    using normalize_total by blast
  note n = normalize_Inr [OF e]
  have d: "map_of (demand ent) (d_day r, d_room_id r, d_shift r) = required_nurses r"
    if "demand_df inp = pre @ r # post"
      "\<forall>r'\<in>set post. (d_day r', d_room_id r', d_shift r') \<noteq> (d_day r, d_room_id r, d_shift r)"
    for pre r post
    using demand_last_wins [OF e that] .
  have p: "map_of (pref ent) (p_nurse_id r, p_day r, p_shift r) = preference r"
    if "pref_df inp = pre @ r # post"
      "\<forall>r'\<in>set post. (p_nurse_id r', p_day r', p_shift r') \<noteq> (p_nurse_id r, p_day r, p_shift r)"
    for pre r post
    using dict_of_rows_last_wins [OF n(10) [unfolded pref_lookup_def] that(1)] that(2) by simp
  have l: "map_of (locks ent) (l_day r, l_shift r, l_room_id r, l_nurse_id r) = locked r"
    if "locks_df inp = pre @ r # post"
      "\<forall>r'\<in>set post. (l_day r', l_shift r', l_room_id r', l_nurse_id r')
                                   \<noteq> (l_day r, l_shift r, l_room_id r, l_nurse_id r)"
    for pre r post
    using dict_of_rows_last_wins [OF n(11) [unfolded locks_lookup_def] that(1)] that(2) by simp
  from e d p l show ?thesis by blast
qed

theorem duplicate_rows_last_wins_witness:
  "numeric_fields_present ex_duplicates \<and>
   (\<exists>ent. normalize ex_duplicates = Inr ent
      \<and> map_of (demand ent) (''Mon'', ''R1'', ''Day'') = Some 1
      \<and> map_of (pref ent) (''N1'', ''Mon'', ''Day'') = Some (- 1)
      \<and> map_of (locks ent) (''Mon'', ''Day'', ''R1'', ''N2'') = Some 0)"
proof -
  have h: "numeric_fields_present ex_duplicates" by code_simp
  from duplicate_rows_last_wins [OF h] obtain ent where e: "normalize ex_duplicates = Inr ent"
    and d: "\<And>pre r post. demand_df ex_duplicates = pre @ r # post
            \<and> (\<forall>r'\<in>set post. (d_day r', d_room_id r', d_shift r') \<noteq> (d_day r, d_room_id r, d_shift r))
           \<Longrightarrow> map_of (demand ent) (d_day r, d_room_id r, d_shift r) = required_nurses r"
    and p: "\<And>pre r post. pref_df ex_duplicates = pre @ r # post
            \<and> (\<forall>r'\<in>set post. (p_nurse_id r', p_day r', p_shift r') \<noteq> (p_nurse_id r, p_day r, p_shift r))
           \<Longrightarrow> map_of (pref ent) (p_nurse_id r, p_day r, p_shift r) = preference r"
    and l: "\<And>pre r post. locks_df ex_duplicates = pre @ r # post
            \<and> (\<forall>r'\<in>set post. (l_day r', l_shift r', l_room_id r', l_nurse_id r')
                                   \<noteq> (l_day r, l_shift r, l_room_id r, l_nurse_id r))
           \<Longrightarrow> map_of (locks ent) (l_day r, l_shift r, l_room_id r, l_nurse_id r) = locked r"
    by blast
  have "map_of (demand ent) (''Mon'', ''R1'', ''Day'') = Some 1"
    using d [of "[\<lparr> d_day = ''Mon'', d_room_id = ''R1'', d_shift = ''Day'', required_nurses = Some 2 \<rparr>]"
               "\<lparr> d_day = ''Mon'', d_room_id = ''R1'', d_shift = ''Day'', required_nurses = Some 1 \<rparr>" "[]"]
    by (simp add: ex_duplicates_def)
  moreover have "map_of (pref ent) (''N1'', ''Mon'', ''Day'') = Some (- 1)"
    using p [of "[\<lparr> p_nurse_id = ''N1'', p_day = ''Mon'', p_shift = ''Day'', preference = Some 3 \<rparr>]"
               "\<lparr> p_nurse_id = ''N1'', p_day = ''Mon'', p_shift = ''Day'', preference = Some (- 1) \<rparr>" "[]"]
    by (simp add: ex_duplicates_def)
  moreover have "map_of (locks ent) (''Mon'', ''Day'', ''R1'', ''N2'') = Some 0"
    using l [of "[\<lparr> l_day = ''Mon'', l_shift = ''Day'', l_room_id = ''R1'', l_nurse_id = ''N2'', locked = Some 1 \<rparr>]"
               "\<lparr> l_day = ''Mon'', l_shift = ''Day'', l_room_id = ''R1'', l_nurse_id = ''N2'', locked = Some 0 \<rparr>" "[]"]
    by (simp add: ex_duplicates_def)
  ultimately show ?thesis using h e by blast
qed

text \<open>
  C7, as stated, fails: a missing numeric cell raises the \<open>ValueError\<close> of \<open>int\<close>,
  whose message names neither a row nor a field.  A missing daily cap in the second
  nurse row and a missing required count in the first demand row give the same error.
\<close>

theorem missing_field_error_names_no_row:
  "solve_schedule_ortools no_solution ex_missing_cap
      = Inl (ValueError ''cannot convert float NaN to integer'')
   \<and> solve_schedule_ortools no_solution ex_missing_demand
      = Inl (ValueError ''cannot convert float NaN to integer'')"
  by code_simp

text \<open>
  C7, amended.  If a numeric cell that the source converts (a nurse's daily or weekly
  cap, a demand row's required count, a preference score, a lock flag) is missing,
  normalisation raises \<open>ValueError\<close> with the fixed message of \<open>int\<close>, and the call
  returns that error whatever the backend is: no model is built and the backend is
  not invoked.
\<close>

theorem missing_numeric_field_fails:
  assumes "\<not> numeric_fields_present inp"
  shows "normalize inp = Inl (ValueError ''cannot convert float NaN to integer'')
       \<and> (\<forall>solver. solve_schedule_ortools solver inp
              = Inl (ValueError ''cannot convert float NaN to integer''))"
proof -
  from assms have "\<not> (\<exists>ent. normalize inp = Inr ent)" by (simp add: normalize_total)
  then obtain e where e: "normalize inp = Inl e" by (cases "normalize inp") auto
  from normalize_error [OF e] e
  have n: "normalize inp = Inl (ValueError ''cannot convert float NaN to integer'')" by simp
  then show ?thesis by (simp add: solve_schedule_ortools_def)
qed

theorem missing_numeric_field_fails_witness:
  "\<not> numeric_fields_present ex_missing_cap
   \<and> normalize ex_missing_cap = Inl (ValueError ''cannot convert float NaN to integer'')
   \<and> solve_schedule_ortools no_solution ex_missing_cap
        = Inl (ValueError ''cannot convert float NaN to integer'')"
proof -
  have h: "\<not> numeric_fields_present ex_missing_cap" by code_simp
  from missing_numeric_field_fails [OF h] h show ?thesis by blast
qed


subsection \<open>Solutions of the model\<close>

lemma eval_sum_vars: "eval v (sum_vars vs) = sum_list (map v vs)"
  by (simp add: sum_vars_def comp_def)

lemma bool_sum_count:
  "\<forall>k\<in>set ks. v (X k) = 0 \<or> v (X k) = 1 \<Longrightarrow>
   sum_list (map v (map X ks)) = int (length (filter (\<lambda>k. v (X k) = 1) ks))"
  by (induction ks) auto

lemma build_bool:
  assumes "build_model inp ent = Inr (x, m)" "satisfies v m" "k \<in> fst ` set x"
  shows "v (X k) = 0 \<or> v (X k) = 1"
proof -
  from assms(1) obtain cs rest where x: "x = x_dict cs" and m: "m = map (\<lambda>k. NewBoolVar (X k)) cs @ rest"
    by (rule build_model_Inr) simp
  from assms(3) have "k \<in> set cs" by (simp add: x x_dict_keys)
  then have "NewBoolVar (X k) \<in> set m" by (auto simp: m)
  from satisfies_mem [OF assms(2) this] show ?thesis by simp
qed

lemma assigned_keys_x_dict:
  "assigned_keys (x_dict cs) v = filter (\<lambda>k. v (X k) = 1) (map fst (x_dict cs))"
proof -
  have "filter (\<lambda>kv. v (snd kv) = 1) (x_dict cs) = filter (\<lambda>kv. v (X (fst kv)) = 1) (x_dict cs)"
    by (rule filter_cong) (auto dest: x_dict_entry)
  then show ?thesis by (simp add: assigned_keys_def filter_map comp_def)
qed

lemma count_assigned:
  assumes "build_model inp ent = Inr (x, m)" "satisfies v m"
  shows "eval v (sum_vars (x_vars P x)) = int (length (filter P (assigned_keys x v)))"
proof -
  from assms(1) obtain cs where x: "x = x_dict cs" by (rule build_model_Inr)
  have b: "\<forall>k\<in>set (filter P (map fst x)). v (X k) = 0 \<or> v (X k) = 1"
    using build_bool [OF assms] by auto
  have "eval v (sum_vars (x_vars P x)) = sum_list (map v (map X (filter P (map fst x))))"
    by (simp only: eval_sum_vars x x_vars_x_dict)
  also have "\<dots> = int (length (filter (\<lambda>k. v (X k) = 1) (filter P (map fst x))))"
    by (rule bool_sum_count [OF b])
  also have "filter (\<lambda>k. v (X k) = 1) (filter P (map fst x)) = filter P (assigned_keys x v)"
    unfolding x assigned_keys_x_dict by (simp add: conj_commute)
  finally show ?thesis .
qed

lemma x_vars_empty:
  assumes "build_model inp ent = Inr (x, m)" "x_vars P x = []"
  shows "filter P (assigned_keys x v) = []"
proof -
  from assms(1) obtain cs where x: "x = x_dict cs" by (rule build_model_Inr)
  from assms(2) have "filter P (map fst x) = []" by (simp add: x x_vars_x_dict)
  then show ?thesis
    unfolding x assigned_keys_x_dict by (auto simp: filter_empty_conv)
qed

lemma daily_cap_mem:
  assumes "daily_cap ent x ds = Inr c" "n \<in> set (nurse_ids ent)" "d \<in> set ds"
    and "x_vars (\<lambda>k. k_nurse k = n \<and> k_day k = d) x \<noteq> []"
  shows "\<exists>cap. dict_get (max_per_day ent) n = Inr cap \<and>
           Add (Le (sum_vars (x_vars (\<lambda>k. k_nurse k = n \<and> k_day k = d) x)) (EConst cap)) \<in> set c"
proof -
  from assms(2,3) have "(n, d) \<in> set [(n, d). n \<leftarrow> nurse_ids ent, d \<leftarrow> ds]" by auto
  from traverse_Inr_mem [OF assms(1) [unfolded daily_cap_def] this]
  show ?thesis using assms(4) by (auto simp: Let_def bind_err_eq_Inr)
qed

lemma weekly_cap_mem:
  assumes "weekly_cap ent x = Inr c" "n \<in> set (nurse_ids ent)"
    and "x_vars (\<lambda>k. k_nurse k = n) x \<noteq> []"
  shows "\<exists>cap. dict_get (max_per_week ent) n = Inr cap \<and>
           Add (Le (sum_vars (x_vars (\<lambda>k. k_nurse k = n) x)) (EConst cap)) \<in> set c"
  using traverse_Inr_mem [OF assms(1) [unfolded weekly_cap_def] assms(2)] assms(3)
  by (auto simp: Let_def bind_err_eq_Inr)

lemma build_sections:
  assumes "build_model inp ent = Inr (x, m)" "satisfies v m"
  obtains c_day c_week c_cov c_rest c_lock where
    "daily_cap ent x (days inp) = Inr c_day" "satisfies v c_day"
    "weekly_cap ent x = Inr c_week" "satisfies v c_week"
    "coverage ent x (allow_overstaff inp) (days inp) (shifts inp) = Inr c_cov" "satisfies v c_cov"
    "rest_rule ent x (enforce_rest_night_to_day inp) (shifts inp) (days inp) = Inr c_rest" "satisfies v c_rest"
    "lock_rule ent x = Inr c_lock" "satisfies v c_lock"
proof -
  from assms(1) obtain cs c_day c_week c_cov c_rest c_charge c_cnor c_lock where
    s: "daily_cap ent x (days inp) = Inr c_day"
    "weekly_cap ent x = Inr c_week"
    "coverage ent x (allow_overstaff inp) (days inp) (shifts inp) = Inr c_cov"
    "rest_rule ent x (enforce_rest_night_to_day inp) (shifts inp) (days inp) = Inr c_rest"
    "lock_rule ent x = Inr c_lock"
    and m: "m = map (\<lambda>k. NewBoolVar (X k)) cs @ c_day @ c_week @ c_cov @ c_rest
               @ c_charge @ c_cnor @ c_lock
               @ fairness ent x (target_shifts_per_nurse_week inp)
               @ [Maximize (objective inp ent x)]"
    by (rule build_model_Inr)
  from assms(2) have t: "satisfies v c_day" "satisfies v c_week" "satisfies v c_cov"
    "satisfies v c_rest" "satisfies v c_lock"
    unfolding m by (simp_all add: satisfies_append)
  show ?thesis by (rule that [OF s(1) t(1) s(2) t(2) s(3) t(3) s(4) t(4) s(5) t(5)])
qed

lemma normalize_cap_rows:
  assumes norm: "normalize inp = Inr ent"
    and dn: "distinct (map nurse_id (nurses_df inp))"
    and nr: "nr \<in> set (nurses_df inp)"
  shows "map_of (max_per_day ent) (nurse_id nr) = max_shifts_per_day nr"
    and "map_of (max_per_week ent) (nurse_id nr) = max_shifts_per_week nr"
proof -
  note n = normalize_Inr [OF norm]
  from nr obtain pre post where sp: "nurses_df inp = pre @ nr # post"
    by (auto simp: in_set_conv_decomp)
  with dn have later: "\<forall>r'\<in>set post. nurse_id r' \<noteq> nurse_id nr" by (fastforce simp: image_iff)
  show "map_of (max_per_day ent) (nurse_id nr) = max_shifts_per_day nr"
    by (rule dict_of_rows_last_wins [OF n(3) sp later])
  show "map_of (max_per_week ent) (nurse_id nr) = max_shifts_per_week nr"
    by (rule dict_of_rows_last_wins [OF n(4) sp later])
qed


lemma ex1_built:
  "\<exists>ent x m. normalize ex1 = Inr ent \<and> build_model ex1 ent = Inr (x, m) \<and> satisfies ex1_solution m"
proof -
  have "case normalize ex1 of Inl e \<Rightarrow> False
        | Inr ent \<Rightarrow> (case build_model ex1 ent of Inl e \<Rightarrow> False
                       | Inr xm \<Rightarrow> satisfies ex1_solution (snd xm))"
    by code_simp
  then show ?thesis
    by (cases "normalize ex1"; cases "build_model ex1 (projr (normalize ex1))") auto
qed

text \<open>
  C4.  In every solution of the model, for every nurse row (nurse identifiers being
  unique, caps being non-negative as the data model requires): the number of
  assignments of the nurse on each selected day is at most the nurse's
  \<open>max_shifts_per_day\<close>, and the number of the nurse's assignments over the whole
  horizon is at most the nurse's \<open>max_shifts_per_week\<close>.
\<close>

theorem shift_caps:
  assumes norm: "normalize inp = Inr ent"
    and build: "build_model inp ent = Inr (x, m)"
    and sat: "satisfies v m"
    and dn: "distinct (map nurse_id (nurses_df inp))"
  shows "\<forall>nr\<in>set (nurses_df inp).
           (\<forall>cap. max_shifts_per_day nr = Some cap \<and> 0 \<le> cap \<longrightarrow>
              (\<forall>d\<in>set (days inp).
                 int (length (filter (\<lambda>k. k_nurse k = nurse_id nr \<and> k_day k = d) (assigned_keys x v))) \<le> cap))
         \<and> (\<forall>cap. max_shifts_per_week nr = Some cap \<and> 0 \<le> cap \<longrightarrow>
              int (length (filter (\<lambda>k. k_nurse k = nurse_id nr) (assigned_keys x v))) \<le> cap)"
proof (intro ballI conjI allI impI)
  fix nr cap d
  assume nr: "nr \<in> set (nurses_df inp)" and cap: "max_shifts_per_day nr = Some cap \<and> 0 \<le> cap"
    and d: "d \<in> set (days inp)"
  let ?P = "\<lambda>k. k_nurse k = nurse_id nr \<and> k_day k = d"
  from build sat obtain c_day where c: "daily_cap ent x (days inp) = Inr c_day" "satisfies v c_day"
    by (rule build_sections)
  have n: "nurse_id nr \<in> set (nurse_ids ent)"
    using nr by (simp add: normalize_Inr(1) [OF norm])
  show "int (length (filter ?P (assigned_keys x v))) \<le> cap"
  proof (cases "x_vars ?P x = []")
    case True
    from x_vars_empty [OF build True] cap show ?thesis by simp
  next
    case False
    from daily_cap_mem [OF c(1) n d False] obtain cap' where
      g: "dict_get (max_per_day ent) (nurse_id nr) = Inr cap'"
      and mem: "Add (Le (sum_vars (x_vars ?P x)) (EConst cap')) \<in> set c_day" by blast
    from g normalize_cap_rows(1) [OF norm dn nr] cap have "cap' = cap"
      by (simp add: dict_get_Inr)
    with satisfies_mem [OF c(2) mem] count_assigned [OF build sat, of ?P]
    show ?thesis by simp
  qed
next
  fix nr cap
  assume nr: "nr \<in> set (nurses_df inp)" and cap: "max_shifts_per_week nr = Some cap \<and> 0 \<le> cap"
  let ?P = "\<lambda>k. k_nurse k = nurse_id nr"
  from build sat obtain c_week where c: "weekly_cap ent x = Inr c_week" "satisfies v c_week"
    by (rule build_sections)
  have n: "nurse_id nr \<in> set (nurse_ids ent)"
    using nr by (simp add: normalize_Inr(1) [OF norm])
  show "int (length (filter ?P (assigned_keys x v))) \<le> cap"
  proof (cases "x_vars ?P x = []")
    case True
    from x_vars_empty [OF build True] cap show ?thesis by simp
  next
    case False
    from weekly_cap_mem [OF c(1) n False] obtain cap' where
      g: "dict_get (max_per_week ent) (nurse_id nr) = Inr cap'"
      and mem: "Add (Le (sum_vars (x_vars ?P x)) (EConst cap')) \<in> set c_week" by blast
    from g normalize_cap_rows(2) [OF norm dn nr] cap have "cap' = cap"
      by (simp add: dict_get_Inr)
    with satisfies_mem [OF c(2) mem] count_assigned [OF build sat, of ?P]
    show ?thesis by simp
  qed
qed

theorem shift_caps_witness:
  "\<exists>ent x m. normalize ex1 = Inr ent \<and> build_model ex1 ent = Inr (x, m)
      \<and> satisfies ex1_solution m
      \<and> distinct (map nurse_id (nurses_df ex1))
      \<and> int (length (filter (\<lambda>k. k_nurse k = ''N1'' \<and> k_day k = ''Mon'') (assigned_keys x ex1_solution))) \<le> 1
      \<and> int (length (filter (\<lambda>k. k_nurse k = ''N1'') (assigned_keys x ex1_solution))) \<le> 5"
proof -
  from ex1_built obtain ent x m where
    h: "normalize ex1 = Inr ent" "build_model ex1 ent = Inr (x, m)" "satisfies ex1_solution m"
    by blast
  have dn: "distinct (map nurse_id (nurses_df ex1))" by (simp add: ex1_def)
  let ?n1 = "\<lparr> nurse_id = ''N1'', qualifications = Some ''ICU; Charge'', certification = None,
                max_shifts_per_day = Some 1, max_shifts_per_week = Some (5::int) \<rparr>"
  have n1: "?n1 \<in> set (nurses_df ex1)" and mon: "''Mon'' \<in> set (days ex1)"
    by (simp_all add: ex1_def)
  from shift_caps [OF h dn, rule_format, OF n1]
  have a: "\<And>cap d. max_shifts_per_day ?n1 = Some cap \<and> 0 \<le> cap \<Longrightarrow> d \<in> set (days ex1) \<Longrightarrow>
             int (length (filter (\<lambda>k. k_nurse k = nurse_id ?n1 \<and> k_day k = d) (assigned_keys x ex1_solution))) \<le> cap"
    and b: "\<And>cap. max_shifts_per_week ?n1 = Some cap \<and> 0 \<le> cap \<Longrightarrow>
             int (length (filter (\<lambda>k. k_nurse k = nurse_id ?n1) (assigned_keys x ex1_solution))) \<le> cap"
    by blast+
  from a [of 1 "''Mon''"] mon
  have "int (length (filter (\<lambda>k. k_nurse k = ''N1'' \<and> k_day k = ''Mon'') (assigned_keys x ex1_solution))) \<le> 1"
    by simp
  moreover from b [of 5]
  have "int (length (filter (\<lambda>k. k_nurse k = ''N1'') (assigned_keys x ex1_solution))) \<le> 5"
    by simp
  ultimately show ?thesis using h dn by blast
qed


lemma ex1_strict_built:
  "\<exists>ent x m. normalize ex1_strict = Inr ent \<and> build_model ex1_strict ent = Inr (x, m)
      \<and> satisfies ex1_solution m"
proof -
  have "case normalize ex1_strict of Inl e \<Rightarrow> False
        | Inr ent \<Rightarrow> (case build_model ex1_strict ent of Inl e \<Rightarrow> False
                       | Inr xm \<Rightarrow> satisfies ex1_solution (snd xm))"
    by code_simp
  then show ?thesis
    by (cases "normalize ex1_strict"; cases "build_model ex1_strict (projr (normalize ex1_strict))") auto
qed

lemma coverage_mem:
  assumes "coverage ent x allow ds shs = Inr c" "s \<in> set (horizon ds (room_ids ent) shs)"
  shows "\<exists>dem. dict_get (demand ent) s = Inr dem
           \<and> NewIntVar 0 100 (Understaff s) \<in> set c
           \<and> (if allow then
                 NewIntVar 0 100 (Overstaff s) \<in> set c
                 \<and> Add (Eq (ESub (EAdd (if assigned_vars ent x s \<noteq> [] then sum_vars (assigned_vars ent x s) else EConst 0)
                                      (EVar (Understaff s))) (EVar (Overstaff s))) (EConst dem)) \<in> set c
               else
                 Add (Eq (EAdd (if assigned_vars ent x s \<noteq> [] then sum_vars (assigned_vars ent x s) else EConst 0)
                               (EVar (Understaff s))) (EConst dem)) \<in> set c)"
proof -
  from traverse_Inr_mem [OF assms(1) [unfolded coverage_def] assms(2)]
  obtain zs where zs: "coverage_slot ent x allow s = Inr zs" "set zs \<subseteq> set c" by blast
  from zs(1) obtain dem where dem: "dict_get (demand ent) s = Inr dem"
    by (cases allow) (auto simp: coverage_slot_def Let_def bind_err_eq_Inr)
  show ?thesis
  proof (cases allow)
    case True
    with zs(1) dem have "zs = [NewIntVar 0 100 (Understaff s), NewIntVar 0 100 (Overstaff s),
        Add (Eq (ESub (EAdd (if assigned_vars ent x s \<noteq> [] then sum_vars (assigned_vars ent x s) else EConst 0)
                                      (EVar (Understaff s))) (EVar (Overstaff s))) (EConst dem))]"
      by (simp add: coverage_slot_def Let_def)
    with zs(2) dem True show ?thesis by auto
  next
    case False
    with zs(1) dem have "zs = [NewIntVar 0 100 (Understaff s),
        Add (Eq (EAdd (if assigned_vars ent x s \<noteq> [] then sum_vars (assigned_vars ent x s) else EConst 0)
                               (EVar (Understaff s))) (EConst dem))]"
      by (simp add: coverage_slot_def Let_def)
    with zs(2) dem False show ?thesis by auto
  qed
qed

lemma length_filter_map: "length (filter Q (map f ns)) = length (filter (\<lambda>n. Q (f n)) ns)"
  by (induction ns) simp_all

lemma eval_assigned_sum:
  assumes "build_model inp ent = Inr (x, m)" "satisfies v m"
  shows "eval v (if assigned_vars ent x s \<noteq> [] then sum_vars (assigned_vars ent x s) else EConst 0)
           = int (length (assigned_list ent x v s))"
proof -
  obtain d rid sh where s: "s = (d, rid, sh)" by (cases s) auto
  from assms(1) obtain cs where x: "x = x_dict cs" by (rule build_model_Inr)
  let ?f = "\<lambda>n. (n, rid, sh, d)"
  let ?ks = "filter (\<lambda>k. k \<in> set cs) (map ?f (nurse_ids ent))"
  have av: "assigned_vars ent x s = map X ?ks"
    by (simp add: assigned_vars_def s x x_present_x_dict)
  have b: "\<forall>k\<in>set ?ks. v (X k) = 0 \<or> v (X k) = 1"
    using build_bool [OF assms] by (auto simp: x x_dict_keys)
  have "eval v (if assigned_vars ent x s \<noteq> [] then sum_vars (assigned_vars ent x s) else EConst 0)
      = sum_list (map v (map X ?ks))"
    unfolding av by (cases "?ks = []") (simp_all add: eval_sum_vars)
  also have "\<dots> = int (length (filter (\<lambda>k. v (X k) = 1) ?ks))"
    by (rule bool_sum_count [OF b])
  also have "length (filter (\<lambda>k. v (X k) = 1) ?ks)
      = length (filter (\<lambda>n. ?f n \<in> set cs \<and> v (X (?f n)) = 1) (nurse_ids ent))"
    by (simp add: length_filter_map conj_commute comp_def)
  also have "filter (\<lambda>n. ?f n \<in> set cs \<and> v (X (?f n)) = 1) (nurse_ids ent) = assigned_list ent x v s"
    unfolding assigned_list_def s x by (auto simp: map_of_x_dict intro!: filter_cong)
  finally show ?thesis .
qed

text \<open>
  C2.  In every solution of the model, for every (day, room, shift) of the selected
  horizon: assigned count + understaff - overstaff = demand when overstaffing is
  permitted, and assigned count + understaff = demand, hence assigned count \<open>\<le>\<close> demand,
  when it is not.  The assigned count is the length of the list of nurses that the
  result reports for the slot.
\<close>

theorem coverage_balance:
  assumes norm: "normalize inp = Inr ent"
    and build: "build_model inp ent = Inr (x, m)"
    and sat: "satisfies v m"
  shows "\<forall>s\<in>set (horizon (days inp) (room_ids ent) (shifts inp)).
           \<exists>dem. dict_get (demand ent) s = Inr dem
             \<and> (if allow_overstaff inp then
                   int (length (assigned_list ent x v s)) + v (Understaff s) - v (Overstaff s) = dem
                 else
                   int (length (assigned_list ent x v s)) + v (Understaff s) = dem
                   \<and> int (length (assigned_list ent x v s)) \<le> dem)"
proof
  fix s assume s: "s \<in> set (horizon (days inp) (room_ids ent) (shifts inp))"
  from build sat obtain c_cov where
    c: "coverage ent x (allow_overstaff inp) (days inp) (shifts inp) = Inr c_cov" "satisfies v c_cov"
    by (rule build_sections)
  let ?asum = "if assigned_vars ent x s \<noteq> [] then sum_vars (assigned_vars ent x s) else EConst 0"
  note ev = eval_assigned_sum [OF build sat, of s]
  from coverage_mem [OF c(1) s] obtain dem where dem: "dict_get (demand ent) s = Inr dem"
    and u: "NewIntVar 0 100 (Understaff s) \<in> set c_cov"
    and eq: "if allow_overstaff inp then
                 NewIntVar 0 100 (Overstaff s) \<in> set c_cov
                 \<and> Add (Eq (ESub (EAdd ?asum (EVar (Understaff s))) (EVar (Overstaff s))) (EConst dem)) \<in> set c_cov
               else
                 Add (Eq (EAdd ?asum (EVar (Understaff s))) (EConst dem)) \<in> set c_cov"
    by blast
  from satisfies_mem [OF c(2) u] have u0: "0 \<le> v (Understaff s)" by simp
  show "\<exists>dem. dict_get (demand ent) s = Inr dem
             \<and> (if allow_overstaff inp then
                   int (length (assigned_list ent x v s)) + v (Understaff s) - v (Overstaff s) = dem
                 else
                   int (length (assigned_list ent x v s)) + v (Understaff s) = dem
                   \<and> int (length (assigned_list ent x v s)) \<le> dem)"
  proof (cases "allow_overstaff inp")
    case True
    with eq have "Add (Eq (ESub (EAdd ?asum (EVar (Understaff s))) (EVar (Overstaff s))) (EConst dem)) \<in> set c_cov"
      by simp
    from satisfies_mem [OF c(2) this] have "eval v ?asum + v (Understaff s) - v (Overstaff s) = dem"
      by simp
    with ev dem True show ?thesis by simp
  next
    case False
    with eq have "Add (Eq (EAdd ?asum (EVar (Understaff s))) (EConst dem)) \<in> set c_cov"
      by simp
    from satisfies_mem [OF c(2) this] have "eval v ?asum + v (Understaff s) = dem"
      by simp
    with ev dem False u0 show ?thesis by simp
  qed
qed

theorem coverage_balance_witness:
  "(\<exists>ent x m. normalize ex1 = Inr ent \<and> build_model ex1 ent = Inr (x, m)
      \<and> satisfies ex1_solution m
      \<and> (''Mon'', ''R1'', ''Day'') \<in> set (horizon (days ex1) (room_ids ent) (shifts ex1))
      \<and> dict_get (demand ent) (''Mon'', ''R1'', ''Day'') = Inr 1
      \<and> int (length (assigned_list ent x ex1_solution (''Mon'', ''R1'', ''Day'')))
          + ex1_solution (Understaff (''Mon'', ''R1'', ''Day''))
          - ex1_solution (Overstaff (''Mon'', ''R1'', ''Day'')) = 1)
   \<and> (\<exists>ent x m. normalize ex1_strict = Inr ent \<and> build_model ex1_strict ent = Inr (x, m)
      \<and> satisfies ex1_solution m
      \<and> (''Mon'', ''R1'', ''Day'') \<in> set (horizon (days ex1_strict) (room_ids ent) (shifts ex1_strict))
      \<and> int (length (assigned_list ent x ex1_solution (''Mon'', ''R1'', ''Day'')))
          + ex1_solution (Understaff (''Mon'', ''R1'', ''Day'')) = 1
      \<and> int (length (assigned_list ent x ex1_solution (''Mon'', ''R1'', ''Day''))) \<le> 1)"
proof
  from ex1_built obtain ent x m where
    h: "normalize ex1 = Inr ent" "build_model ex1 ent = Inr (x, m)" "satisfies ex1_solution m"
    by blast
  have s: "(''Mon'', ''R1'', ''Day'') \<in> set (horizon (days ex1) (room_ids ent) (shifts ex1))"
    by (simp add: set_horizon normalize_Inr(2) [OF h(1)]) (simp add: ex1_def)
  have "case normalize ex1 of Inl e \<Rightarrow> False
        | Inr ent \<Rightarrow> dict_get (demand ent) (''Mon'', ''R1'', ''Day'') = Inr 1"
    by code_simp
  with h(1) have dem: "dict_get (demand ent) (''Mon'', ''R1'', ''Day'') = Inr 1" by simp
  have al: "allow_overstaff ex1" by (simp add: ex1_def)
  from coverage_balance [OF h, rule_format, OF s] dem al
  have "int (length (assigned_list ent x ex1_solution (''Mon'', ''R1'', ''Day'')))
          + ex1_solution (Understaff (''Mon'', ''R1'', ''Day''))
          - ex1_solution (Overstaff (''Mon'', ''R1'', ''Day'')) = 1"
    by auto
  with h s dem show "\<exists>ent x m. normalize ex1 = Inr ent \<and> build_model ex1 ent = Inr (x, m)
      \<and> satisfies ex1_solution m
      \<and> (''Mon'', ''R1'', ''Day'') \<in> set (horizon (days ex1) (room_ids ent) (shifts ex1))
      \<and> dict_get (demand ent) (''Mon'', ''R1'', ''Day'') = Inr 1
      \<and> int (length (assigned_list ent x ex1_solution (''Mon'', ''R1'', ''Day'')))
          + ex1_solution (Understaff (''Mon'', ''R1'', ''Day''))
          - ex1_solution (Overstaff (''Mon'', ''R1'', ''Day'')) = 1"
    by blast
next
  from ex1_strict_built obtain ent x m where
    h: "normalize ex1_strict = Inr ent" "build_model ex1_strict ent = Inr (x, m)" "satisfies ex1_solution m"
    by blast
  have s: "(''Mon'', ''R1'', ''Day'') \<in> set (horizon (days ex1_strict) (room_ids ent) (shifts ex1_strict))"
    by (simp add: set_horizon normalize_Inr(2) [OF h(1)]) (simp add: ex1_strict_def ex1_def)
  have "case normalize ex1_strict of Inl e \<Rightarrow> False
        | Inr ent \<Rightarrow> dict_get (demand ent) (''Mon'', ''R1'', ''Day'') = Inr 1"
    by code_simp
  with h(1) have dem: "dict_get (demand ent) (''Mon'', ''R1'', ''Day'') = Inr 1" by simp
  have al: "\<not> allow_overstaff ex1_strict" by (simp add: ex1_strict_def)
  from coverage_balance [OF h, rule_format, OF s] dem al
  have "int (length (assigned_list ent x ex1_solution (''Mon'', ''R1'', ''Day'')))
          + ex1_solution (Understaff (''Mon'', ''R1'', ''Day'')) = 1
      \<and> int (length (assigned_list ent x ex1_solution (''Mon'', ''R1'', ''Day''))) \<le> 1"
    by auto
  with h s show "\<exists>ent x m. normalize ex1_strict = Inr ent \<and> build_model ex1_strict ent = Inr (x, m)
      \<and> satisfies ex1_solution m
      \<and> (''Mon'', ''R1'', ''Day'') \<in> set (horizon (days ex1_strict) (room_ids ent) (shifts ex1_strict))
      \<and> int (length (assigned_list ent x ex1_solution (''Mon'', ''R1'', ''Day'')))
          + ex1_solution (Understaff (''Mon'', ''R1'', ''Day'')) = 1
      \<and> int (length (assigned_list ent x ex1_solution (''Mon'', ''R1'', ''Day''))) \<le> 1"
    by blast
qed


subsection \<open>Rest rule\<close>

lemma inv_day_distinct:
  assumes "distinct ds"
  shows "inv_day ds = enumerate 0 ds"
proof -
  have di: "day_index ds = map (\<lambda>r. (snd r, fst r)) (enumerate 0 ds)"
    unfolding day_index_def by (rule dict_from_distinct) (simp add: assms)
  have "distinct (map snd (day_index ds))"
    unfolding di by (simp add: comp_def)
  then have "inv_day ds = map (\<lambda>r. (snd r, fst r)) (day_index ds)"
    unfolding inv_day_def by (rule dict_from_distinct)
  then show ?thesis unfolding di by (simp add: comp_def)
qed

lemma inv_day_nth:
  assumes "distinct ds" "i < length ds"
  shows "dict_get (inv_day ds) i = Inr (ds ! i)"
proof -
  have "map_of (zip [0..<length ds] ds) ([0..<length ds] ! i) = Some (ds ! i)"
    by (rule map_of_zip_nth) (simp_all add: assms(2))
  with assms(2) show ?thesis
    by (simp add: inv_day_distinct [OF assms(1)] enumerate_eq_zip dict_get_Inr)
qed

lemma x_vars_nonempty:
  assumes "k \<in> fst ` set x" "P k"
  shows "x_vars P x \<noteq> []"
proof -
  from assms obtain kv where "kv \<in> set x" "P (fst kv)" by auto
  then have "kv \<in> set (filter (\<lambda>kv. P (fst kv)) x)" by simp
  then show ?thesis unfolding x_vars_def by (auto simp: filter_empty_conv)
qed

lemma in_pairs: "a \<in> set as \<Longrightarrow> b \<in> set bs \<Longrightarrow> (a, b) \<in> set [(a, b). a \<leftarrow> as, b \<leftarrow> bs]"
  by auto

lemma rest_rule_mem:
  assumes c: "rest_rule ent x True shs ds = Inr c"
    and sh: "''Night'' \<in> set shs" "''Day'' \<in> set shs"
    and dd: "distinct ds"
    and n: "n \<in> set (nurse_ids ent)" and i: "Suc i < length ds"
    and ne: "x_vars (\<lambda>k. k_nurse k = n \<and> k_shift k = ''Night'' \<and> k_day k = ds ! i) x \<noteq> []"
      "x_vars (\<lambda>k. k_nurse k = n \<and> k_shift k = ''Day'' \<and> k_day k = ds ! Suc i) x \<noteq> []"
  shows "Add (Le (EAdd (sum_vars (x_vars (\<lambda>k. k_nurse k = n \<and> k_shift k = ''Night'' \<and> k_day k = ds ! i) x))
                       (sum_vars (x_vars (\<lambda>k. k_nurse k = n \<and> k_shift k = ''Day'' \<and> k_day k = ds ! Suc i) x)))
                 (EConst 1)) \<in> set c"
proof -
  from c sh have tr: "traverse (rest_pair x (inv_day ds))
          [(n, i). n \<leftarrow> nurse_ids ent, i \<leftarrow> [0 ..< length ds - 1]] = Inr c"
    by (simp add: rest_rule_def)
  from i have "i \<in> set [0 ..< length ds - 1]" by simp
  with n have "(n, i) \<in> set [(n, i). n \<leftarrow> nurse_ids ent, i \<leftarrow> [0 ..< length ds - 1]]"
    by (rule in_pairs)
  from traverse_Inr_mem [OF tr this] obtain zs where
    zs: "rest_pair x (inv_day ds) (n, i) = Inr zs" "set zs \<subseteq> set c" by blast
  from i have g: "dict_get (inv_day ds) i = Inr (ds ! i)" "dict_get (inv_day ds) (Suc i) = Inr (ds ! Suc i)"
    using inv_day_nth [OF dd, of i] inv_day_nth [OF dd, of "Suc i"] by simp_all
  from zs(1) ne have "zs = [Add (Le (EAdd (sum_vars (x_vars (\<lambda>k. k_nurse k = n \<and> k_shift k = ''Night'' \<and> k_day k = ds ! i) x))
                       (sum_vars (x_vars (\<lambda>k. k_nurse k = n \<and> k_shift k = ''Day'' \<and> k_day k = ds ! Suc i) x)))
                 (EConst 1))]"
    by (simp add: rest_pair_def g Let_def)
  with zs(2) show ?thesis by simp
qed

lemma assigned_keys_in_x:
  "k \<in> set (assigned_keys x v) \<Longrightarrow> k \<in> fst ` set x"
  by (auto simp: assigned_keys_def)

lemma build_key_nurse:
  assumes "build_model inp ent = Inr (x, m)" "(n, rid, sh, d) \<in> fst ` set x"
  shows "n \<in> set (nurse_ids ent)" "rid \<in> set (room_ids ent)" "sh \<in> set (shifts inp)" "d \<in> set (days inp)"
    "feasible ent n rid = Inr True"
proof -
  from assms(1) obtain cs where cs: "x_created ent (shifts inp) (days inp) = Inr cs" and x: "x = x_dict cs"
    by (rule build_model_Inr)
  from assms(2) have "(n, rid, sh, d) \<in> set cs" by (simp add: x x_dict_keys)
  then show "n \<in> set (nurse_ids ent)" "rid \<in> set (room_ids ent)" "sh \<in> set (shifts inp)" "d \<in> set (days inp)"
    "feasible ent n rid = Inr True"
    unfolding x_created_set [OF cs] by simp_all
qed

text \<open>
  C5.  When the rest rule is enabled and both \<open>Night\<close> and \<open>Day\<close> are selected shifts,
  then in every solution of the model, for every nurse and every pair of consecutive
  positions \<open>i\<close>, \<open>i + 1\<close> of the sequence of selected days (an ordered selection of
  distinct days), the nurse does not have both a Night assignment on the day at
  position \<open>i\<close> and a Day assignment on the day at position \<open>i + 1\<close>.
\<close>

theorem rest_rule_holds:
  assumes norm: "normalize inp = Inr ent"
    and build: "build_model inp ent = Inr (x, m)"
    and sat: "satisfies v m"
    and enforce: "enforce_rest_night_to_day inp"
    and sh: "''Night'' \<in> set (shifts inp)" "''Day'' \<in> set (shifts inp)"
    and dd: "distinct (days inp)"
  shows "\<forall>n i. Suc i < length (days inp) \<longrightarrow>
           \<not> ((\<exists>rid. (n, rid, ''Night'', days inp ! i) \<in> set (assigned_keys x v))
              \<and> (\<exists>rid. (n, rid, ''Day'', days inp ! Suc i) \<in> set (assigned_keys x v)))"
proof (intro allI impI notI)
  fix n i
  assume i: "Suc i < length (days inp)"
    and both: "(\<exists>rid. (n, rid, ''Night'', days inp ! i) \<in> set (assigned_keys x v))
              \<and> (\<exists>rid. (n, rid, ''Day'', days inp ! Suc i) \<in> set (assigned_keys x v))"
  then obtain r1 r2 where
    k1: "(n, r1, ''Night'', days inp ! i) \<in> set (assigned_keys x v)"
    and k2: "(n, r2, ''Day'', days inp ! Suc i) \<in> set (assigned_keys x v)" by blast
  let ?P1 = "\<lambda>k. k_nurse k = n \<and> k_shift k = ''Night'' \<and> k_day k = days inp ! i"
  let ?P2 = "\<lambda>k. k_nurse k = n \<and> k_shift k = ''Day'' \<and> k_day k = days inp ! Suc i"
  from build sat obtain c_rest where
    c: "rest_rule ent x (enforce_rest_night_to_day inp) (shifts inp) (days inp) = Inr c_rest"
      "satisfies v c_rest"
    by (rule build_sections)
  have n: "n \<in> set (nurse_ids ent)"
    by (rule build_key_nurse(1) [OF build assigned_keys_in_x [OF k1]])
  have ne1: "x_vars ?P1 x \<noteq> []"
    by (rule x_vars_nonempty [OF assigned_keys_in_x [OF k1]]) simp
  have ne2: "x_vars ?P2 x \<noteq> []"
    by (rule x_vars_nonempty [OF assigned_keys_in_x [OF k2]]) simp
  from c(1) enforce have c': "rest_rule ent x True (shifts inp) (days inp) = Inr c_rest" by simp
  from satisfies_mem [OF c(2) rest_rule_mem [OF c' sh dd n i ne1 ne2]]
  have "eval v (sum_vars (x_vars ?P1 x)) + eval v (sum_vars (x_vars ?P2 x)) \<le> 1" by simp
  then have le: "int (length (filter ?P1 (assigned_keys x v))) + int (length (filter ?P2 (assigned_keys x v))) \<le> 1"
    by (simp only: count_assigned [OF build sat])
  from k1 have "filter ?P1 (assigned_keys x v) \<noteq> []"
    unfolding filter_empty_conv by (intro notI) (drule bspec, assumption, simp)
  then have "1 \<le> length (filter ?P1 (assigned_keys x v))" by (cases "filter ?P1 (assigned_keys x v)") simp_all
  moreover from k2 have "filter ?P2 (assigned_keys x v) \<noteq> []"
    unfolding filter_empty_conv by (intro notI) (drule bspec, assumption, simp)
  then have "1 \<le> length (filter ?P2 (assigned_keys x v))" by (cases "filter ?P2 (assigned_keys x v)") simp_all
  ultimately show False using le by linarith
qed

theorem rest_rule_holds_witness:
  "\<exists>ent x m. normalize ex1 = Inr ent \<and> build_model ex1 ent = Inr (x, m)
      \<and> satisfies ex1_night_solution m
      \<and> enforce_rest_night_to_day ex1
      \<and> ''Night'' \<in> set (shifts ex1) \<and> ''Day'' \<in> set (shifts ex1) \<and> distinct (days ex1)
      \<and> (''N2'', ''R2'', ''Night'', ''Mon'') \<in> set (assigned_keys x ex1_night_solution)
      \<and> (''N2'', ''R2'', ''Day'', ''Tue'') \<notin> set (assigned_keys x ex1_night_solution)"
proof -
  have "case normalize ex1 of Inl e \<Rightarrow> False
        | Inr ent \<Rightarrow> (case build_model ex1 ent of Inl e \<Rightarrow> False
                       | Inr xm \<Rightarrow> satisfies ex1_night_solution (snd xm)
                           \<and> (''N2'', ''R2'', ''Night'', ''Mon'') \<in> set (assigned_keys (fst xm) ex1_night_solution))"
    by code_simp
  then obtain ent x m where
    h: "normalize ex1 = Inr ent" "build_model ex1 ent = Inr (x, m)" "satisfies ex1_night_solution m"
    and k: "(''N2'', ''R2'', ''Night'', ''Mon'') \<in> set (assigned_keys x ex1_night_solution)"
    by (cases "normalize ex1"; cases "build_model ex1 (projr (normalize ex1))") auto
  have c: "enforce_rest_night_to_day ex1" "''Night'' \<in> set (shifts ex1)" "''Day'' \<in> set (shifts ex1)"
    "distinct (days ex1)"
    by (simp_all add: ex1_def)
  have d: "Suc 0 < length (days ex1)" "days ex1 ! 0 = ''Mon''" "days ex1 ! Suc 0 = ''Tue''"
    by (simp_all add: ex1_def)
  from rest_rule_holds [OF h c, rule_format, of 0 "''N2''"] d k
  have "(''N2'', ''R2'', ''Day'', ''Tue'') \<notin> set (assigned_keys x ex1_night_solution)"
    by auto
  with h c k show ?thesis by blast
qed


subsection \<open>Slack variables\<close>

lemma coverage_elems:
  assumes "coverage ent x allow ds shs = Inr c" "st \<in> set c"
  shows "(\<exists>s. st = NewIntVar 0 100 (Understaff s)) \<or> (\<exists>s. st = NewIntVar 0 100 (Overstaff s))
         \<or> (\<exists>k. st = Add k)"
proof -
  from traverse_Inr_elem [OF assms(1) [unfolded coverage_def] assms(2)]
  obtain s zs where "coverage_slot ent x allow s = Inr zs" "st \<in> set zs" by blast
  then have "st = NewIntVar 0 100 (Understaff s) \<or> st = NewIntVar 0 100 (Overstaff s) \<or> (\<exists>k. st = Add k)"
    by (cases allow) (auto simp: coverage_slot_def Let_def bind_err_eq_Inr)
  then show ?thesis by blast
qed

lemma daily_cap_elems:
  assumes "daily_cap ent x ds = Inr c" "st \<in> set c"
  shows "\<exists>k. st = Add k"
proof -
  from traverse_Inr_elem [OF assms(1) [unfolded daily_cap_def] assms(2)]
  show ?thesis by (auto simp: Let_def bind_err_eq_Inr split: if_splits)
qed

lemma weekly_cap_elems:
  assumes "weekly_cap ent x = Inr c" "st \<in> set c"
  shows "\<exists>k. st = Add k"
proof -
  from traverse_Inr_elem [OF assms(1) [unfolded weekly_cap_def] assms(2)]
  show ?thesis by (auto simp: Let_def bind_err_eq_Inr split: if_splits)
qed

lemma rest_rule_elems:
  assumes "rest_rule ent x enforce shs ds = Inr c" "st \<in> set c"
  shows "\<exists>k. st = Add k"
proof (cases "enforce \<and> ''Night'' \<in> set shs \<and> ''Day'' \<in> set shs")
  case True
  with assms(1) have "traverse (rest_pair x (inv_day ds))
          [(n, i). n \<leftarrow> nurse_ids ent, i \<leftarrow> [0 ..< length ds - 1]] = Inr c"
    by (simp add: rest_rule_def)
  from traverse_Inr_elem [OF this assms(2)]
  obtain p zs where "rest_pair x (inv_day ds) p = Inr zs" "st \<in> set zs" by blast
  then show ?thesis
    by (cases p) (auto simp: rest_pair_def Let_def bind_err_eq_Inr split: if_splits)
next
  case False
  with assms show ?thesis by (auto simp: rest_rule_def)
qed

lemma charge_rule_elems:
  assumes "charge_rule ent x tgs ds shs = Inr c" "st \<in> set c"
  shows "\<exists>k. st = Add k"
proof -
  from assms(1) obtain cn where
    c: "(let charge_room_ids =
             filter (\<lambda>rid. dict_get_default (tag_by_room ent) rid [] \<in> tgs) (room_ids ent)
       in if charge_room_ids \<noteq> [] \<and> cn \<noteq> [] then
            traverse (charge_slot ent x charge_room_ids cn)
              [(d, sh). d \<leftarrow> ds, sh \<leftarrow> shs]
          else Inr []) = Inr c"
    unfolding charge_rule_def bind_err_eq_Inr by blast
  let ?rs = "filter (\<lambda>rid. dict_get_default (tag_by_room ent) rid [] \<in> tgs) (room_ids ent)"
  show ?thesis
  proof (cases "?rs \<noteq> [] \<and> cn \<noteq> []")
    case True
    with c have "traverse (charge_slot ent x ?rs cn) [(d, sh). d \<leftarrow> ds, sh \<leftarrow> shs] = Inr c"
      by (simp add: Let_def)
    from traverse_Inr_elem [OF this assms(2)]
    obtain p zs where "charge_slot ent x ?rs cn p = Inr zs" "st \<in> set zs" by blast
    then show ?thesis
      by (cases p) (auto simp: charge_slot_def Let_def bind_err_eq_Inr split: if_splits)
  next
    case False
    with c assms(2) show ?thesis by (auto simp: Let_def)
  qed
qed

lemma cnor_rule_elems:
  assumes "cnor_rule ent x req ds shs = Inr c" "st \<in> set c"
  shows "\<exists>k. st = Add k"
proof (cases req)
  case True
  with assms(1) have "traverse (cnor_slot ent x)
     (horizon ds (filter (\<lambda>rid. dict_get_default (tag_by_room ent) rid [] = ''OR'') (room_ids ent)) shs) = Inr c"
    by (simp add: cnor_rule_def Let_def)
  from traverse_Inr_elem [OF this assms(2)]
  obtain s zs where "cnor_slot ent x s = Inr zs" "st \<in> set zs" by blast
  then show ?thesis
    by (cases s) (auto simp: cnor_slot_def Let_def bind_err_eq_Inr split: if_splits)
next
  case False
  with assms show ?thesis by (auto simp: cnor_rule_def)
qed

lemma lock_rule_elems:
  assumes "lock_rule ent x = Inr c" "st \<in> set c"
  shows "\<exists>k. st = Add k"
proof -
  from traverse_Inr_elem [OF assms(1) [unfolded lock_rule_def] assms(2)]
  obtain it zs where "lock_item x it = Inr zs" "st \<in> set zs" by blast
  then show ?thesis
    by (auto simp: lock_item_def split: prod.splits if_splits option.splits)
qed

lemma fairness_elems:
  assumes "st \<in> set (fairness ent x target)"
  shows "(\<exists>n. st = NewIntVar 0 1000 (Total n)) \<or> (\<exists>n. st = NewIntVar 0 1000 (Dev n)) \<or> (\<exists>k. st = Add k)"
  using assms by (cases target) (auto simp: fairness_def Let_def)

lemma build_int_vars:
  assumes "build_model inp ent = Inr (x, m)" "NewIntVar lo hi var \<in> set m"
  shows "(\<exists>s. var = Understaff s \<and> lo = 0 \<and> hi = 100)
       \<or> (\<exists>s. var = Overstaff s \<and> lo = 0 \<and> hi = 100)
       \<or> (\<exists>n. var = Total n \<and> lo = 0 \<and> hi = 1000)
       \<or> (\<exists>n. var = Dev n \<and> lo = 0 \<and> hi = 1000)"
proof -
  from assms(1) obtain cs c_day c_week c_cov c_rest c_charge c_cnor c_lock where
    s: "daily_cap ent x (days inp) = Inr c_day"
    "weekly_cap ent x = Inr c_week"
    "coverage ent x (allow_overstaff inp) (days inp) (shifts inp) = Inr c_cov"
    "rest_rule ent x (enforce_rest_night_to_day inp) (shifts inp) (days inp) = Inr c_rest"
    "charge_rule ent x (charge_rooms_tags inp) (days inp) (shifts inp) = Inr c_charge"
    "cnor_rule ent x (require_cnor_in_or inp) (days inp) (shifts inp) = Inr c_cnor"
    "lock_rule ent x = Inr c_lock"
    and m: "m = map (\<lambda>k. NewBoolVar (X k)) cs @ c_day @ c_week @ c_cov @ c_rest
               @ c_charge @ c_cnor @ c_lock
               @ fairness ent x (target_shifts_per_nurse_week inp)
               @ [Maximize (objective inp ent x)]"
    by (rule build_model_Inr)
  let ?st = "NewIntVar lo hi var"
  from assms(2) have "?st \<in> set c_day \<or> ?st \<in> set c_week \<or> ?st \<in> set c_cov \<or> ?st \<in> set c_rest
      \<or> ?st \<in> set c_charge \<or> ?st \<in> set c_cnor \<or> ?st \<in> set c_lock
      \<or> ?st \<in> set (fairness ent x (target_shifts_per_nurse_week inp))"
    unfolding m by auto
  then show ?thesis
  proof (elim disjE)
    assume "?st \<in> set c_day"
    from daily_cap_elems [OF s(1) this] show ?thesis by simp
  next
    assume "?st \<in> set c_week"
    from weekly_cap_elems [OF s(2) this] show ?thesis by simp
  next
    assume "?st \<in> set c_cov"
    from coverage_elems [OF s(3) this] show ?thesis by blast
  next
    assume "?st \<in> set c_rest"
    from rest_rule_elems [OF s(4) this] show ?thesis by simp
  next
    assume "?st \<in> set c_charge"
    from charge_rule_elems [OF s(5) this] show ?thesis by simp
  next
    assume "?st \<in> set c_cnor"
    from cnor_rule_elems [OF s(6) this] show ?thesis by simp
  next
    assume "?st \<in> set c_lock"
    from lock_rule_elems [OF s(7) this] show ?thesis by simp
  next
    assume "?st \<in> set (fairness ent x (target_shifts_per_nurse_week inp))"
    from fairness_elems [OF this] show ?thesis by blast
  qed
qed

lemma length_filter_conj_le:
  "length (filter (\<lambda>n. P n \<and> Q n) ns) \<le> length (filter P ns)"
  by (induction ns) simp_all

lemma length_assigned_list_le:
  assumes "build_model inp ent = Inr (x, m)"
  shows "length (assigned_list ent x v s) \<le> length (assigned_vars ent x s)"
proof -
  obtain d rid sh where s: "s = (d, rid, sh)" by (cases s) auto
  from assms obtain cs where x: "x = x_dict cs" by (rule build_model_Inr)
  have "length (assigned_vars ent x s) = length (filter (\<lambda>n. (n, rid, sh, d) \<in> set cs) (nurse_ids ent))"
    by (simp add: assigned_vars_def s x x_present_x_dict length_filter_map comp_def)
  moreover have "assigned_list ent x v s
      = filter (\<lambda>n. (n, rid, sh, d) \<in> set cs \<and> v (X (n, rid, sh, d)) = 1) (nurse_ids ent)"
    unfolding assigned_list_def s x by (auto simp: map_of_x_dict intro!: filter_cong)
  ultimately show ?thesis by (simp only: length_filter_conj_le)
qed


text \<open>
  C9.  Every understaff and overstaff variable of the model is declared with the
  bounds 0 and 100; each slot of the horizon has its understaff variable (and its
  overstaff variable when overstaffing is permitted), whose value in every solution
  lies between 0 and 100; and a slot whose demand exceeds the number of its
  assignment variables by more than 100 leaves the model without any solution.
\<close>

theorem slack_bounds:
  assumes norm: "normalize inp = Inr ent"
    and build: "build_model inp ent = Inr (x, m)"
  shows "(\<forall>lo hi s. NewIntVar lo hi (Understaff s) \<in> set m \<or> NewIntVar lo hi (Overstaff s) \<in> set m
            \<longrightarrow> lo = 0 \<and> hi = 100)
       \<and> (\<forall>s\<in>set (horizon (days inp) (room_ids ent) (shifts inp)).
             NewIntVar 0 100 (Understaff s) \<in> set m
           \<and> (allow_overstaff inp \<longrightarrow> NewIntVar 0 100 (Overstaff s) \<in> set m)
           \<and> (\<forall>v. satisfies v m \<longrightarrow>
                  0 \<le> v (Understaff s) \<and> v (Understaff s) \<le> 100
                \<and> (allow_overstaff inp \<longrightarrow> 0 \<le> v (Overstaff s) \<and> v (Overstaff s) \<le> 100))
           \<and> (\<forall>dem. dict_get (demand ent) s = Inr dem
                      \<and> int (length (assigned_vars ent x s)) + 100 < dem
                  \<longrightarrow> (\<forall>v. \<not> satisfies v m)))"
proof (intro conjI allI impI ballI)
  fix lo hi s
  assume a: "NewIntVar lo hi (Understaff s) \<in> set m \<or> NewIntVar lo hi (Overstaff s) \<in> set m"
  then show "lo = 0" "hi = 100"
    using build_int_vars [OF build, of lo hi "Understaff s"]
      build_int_vars [OF build, of lo hi "Overstaff s"] by auto
next
  fix s assume s: "s \<in> set (horizon (days inp) (room_ids ent) (shifts inp))"
  from build obtain cs c_day c_week c_cov c_rest c_charge c_cnor c_lock where
    cov: "coverage ent x (allow_overstaff inp) (days inp) (shifts inp) = Inr c_cov"
    and m: "m = map (\<lambda>k. NewBoolVar (X k)) cs @ c_day @ c_week @ c_cov @ c_rest
               @ c_charge @ c_cnor @ c_lock
               @ fairness ent x (target_shifts_per_nurse_week inp)
               @ [Maximize (objective inp ent x)]"
    by (rule build_model_Inr)
  have sub: "set c_cov \<subseteq> set m" unfolding m by auto
  let ?asum = "if assigned_vars ent x s \<noteq> [] then sum_vars (assigned_vars ent x s) else EConst 0"
  from coverage_mem [OF cov s] obtain dem0 where dem0: "dict_get (demand ent) s = Inr dem0"
    and u: "NewIntVar 0 100 (Understaff s) \<in> set c_cov"
    and eq: "if allow_overstaff inp then
                 NewIntVar 0 100 (Overstaff s) \<in> set c_cov
                 \<and> Add (Eq (ESub (EAdd ?asum (EVar (Understaff s))) (EVar (Overstaff s))) (EConst dem0)) \<in> set c_cov
               else
                 Add (Eq (EAdd ?asum (EVar (Understaff s))) (EConst dem0)) \<in> set c_cov"
    by blast
  from u sub show um: "NewIntVar 0 100 (Understaff s) \<in> set m" by blast
  have om: "NewIntVar 0 100 (Overstaff s) \<in> set m" if "allow_overstaff inp"
    using eq that sub by auto
  { assume "allow_overstaff inp" then show "NewIntVar 0 100 (Overstaff s) \<in> set m" by (rule om) }
  have ub: "0 \<le> v (Understaff s) \<and> v (Understaff s) \<le> 100" if "satisfies v m" for v
    using satisfies_mem [OF that um] by simp
  have ob: "0 \<le> v (Overstaff s) \<and> v (Overstaff s) \<le> 100" if "satisfies v m" "allow_overstaff inp" for v
    using satisfies_mem [OF that(1) om [OF that(2)]] by simp
  { fix v assume sat: "satisfies v m"
    from ub [OF sat] show "0 \<le> v (Understaff s)" "v (Understaff s) \<le> 100" by simp_all
    { assume al: "allow_overstaff inp"
      from ob [OF sat al] show "0 \<le> v (Overstaff s)" "v (Overstaff s) \<le> 100" by simp_all } }
  { fix dem v
    assume big: "dict_get (demand ent) s = Inr dem \<and> int (length (assigned_vars ent x s)) + 100 < dem"
    show "\<not> satisfies v m"
    proof
      assume sat: "satisfies v m"
      from big dem0 have d: "dem0 = dem" by simp
      note ev = eval_assigned_sum [OF build sat, of s]
      note le = length_assigned_list_le [OF build, of v s]
      have "eval v ?asum + v (Understaff s) \<le> dem0 \<and> dem0 \<le> eval v ?asum + v (Understaff s)"
        if "\<not> allow_overstaff inp"
        using eq that satisfies_mem [OF sat, of "Add (Eq (EAdd ?asum (EVar (Understaff s))) (EConst dem0))"] sub
        by auto
      moreover have "eval v ?asum + v (Understaff s) - v (Overstaff s) = dem0"
        if "allow_overstaff inp"
        using eq that
          satisfies_mem [OF sat, of "Add (Eq (ESub (EAdd ?asum (EVar (Understaff s))) (EVar (Overstaff s))) (EConst dem0))"]
          sub
        by auto
      ultimately have "dem0 \<le> int (length (assigned_list ent x v s)) + 100"
        using ub [OF sat] ob [OF sat] ev by (cases "allow_overstaff inp") auto
      with le big d show False by linarith
    qed }
qed

theorem slack_bounds_witness:
  "(\<exists>ent x m. normalize ex1 = Inr ent \<and> build_model ex1 ent = Inr (x, m)
      \<and> (''Mon'', ''R1'', ''Day'') \<in> set (horizon (days ex1) (room_ids ent) (shifts ex1))
      \<and> satisfies ex1_night_solution m \<and> allow_overstaff ex1
      \<and> NewIntVar 0 100 (Understaff (''Mon'', ''R1'', ''Day'')) \<in> set m
      \<and> NewIntVar 0 100 (Overstaff (''Mon'', ''R1'', ''Day'')) \<in> set m
      \<and> 0 \<le> ex1_night_solution (Understaff (''Mon'', ''R1'', ''Day''))
      \<and> ex1_night_solution (Understaff (''Mon'', ''R1'', ''Day'')) \<le> 100)
   \<and> (\<exists>ent x m. normalize ex_unmatched_101 = Inr ent \<and> build_model ex_unmatched_101 ent = Inr (x, m)
      \<and> (''Mon'', ''R1'', ''Day'') \<in> set (horizon (days ex_unmatched_101) (room_ids ent) (shifts ex_unmatched_101))
      \<and> dict_get (demand ent) (''Mon'', ''R1'', ''Day'') = Inr 101
      \<and> int (length (assigned_vars ent x (''Mon'', ''R1'', ''Day''))) + 100 < 101
      \<and> (\<nexists>v. satisfies v m))"
proof
  have "case normalize ex1 of Inl e \<Rightarrow> False
        | Inr ent \<Rightarrow> (case build_model ex1 ent of Inl e \<Rightarrow> False
                       | Inr xm \<Rightarrow> satisfies ex1_night_solution (snd xm))"
    by code_simp
  then obtain ent x m where
    h: "normalize ex1 = Inr ent" "build_model ex1 ent = Inr (x, m)" and sat: "satisfies ex1_night_solution m"
    by (cases "normalize ex1"; cases "build_model ex1 (projr (normalize ex1))") auto
  have s: "(''Mon'', ''R1'', ''Day'') \<in> set (horizon (days ex1) (room_ids ent) (shifts ex1))"
    by (simp add: set_horizon normalize_Inr(2) [OF h(1)]) (simp add: ex1_def)
  have al: "allow_overstaff ex1" by (simp add: ex1_def)
  from slack_bounds [OF h] s sat al
  have "NewIntVar 0 100 (Understaff (''Mon'', ''R1'', ''Day'')) \<in> set m
      \<and> NewIntVar 0 100 (Overstaff (''Mon'', ''R1'', ''Day'')) \<in> set m
      \<and> 0 \<le> ex1_night_solution (Understaff (''Mon'', ''R1'', ''Day''))
      \<and> ex1_night_solution (Understaff (''Mon'', ''R1'', ''Day'')) \<le> 100"
    by blast
  with h s sat al show "\<exists>ent x m. normalize ex1 = Inr ent \<and> build_model ex1 ent = Inr (x, m)
      \<and> (''Mon'', ''R1'', ''Day'') \<in> set (horizon (days ex1) (room_ids ent) (shifts ex1))
      \<and> satisfies ex1_night_solution m \<and> allow_overstaff ex1
      \<and> NewIntVar 0 100 (Understaff (''Mon'', ''R1'', ''Day'')) \<in> set m
      \<and> NewIntVar 0 100 (Overstaff (''Mon'', ''R1'', ''Day'')) \<in> set m
      \<and> 0 \<le> ex1_night_solution (Understaff (''Mon'', ''R1'', ''Day''))
      \<and> ex1_night_solution (Understaff (''Mon'', ''R1'', ''Day'')) \<le> 100"
    by blast
next
  have "case normalize ex_unmatched_101 of Inl e \<Rightarrow> False
        | Inr ent \<Rightarrow> (case build_model ex_unmatched_101 ent of Inl e \<Rightarrow> False
                       | Inr xm \<Rightarrow> dict_get (demand ent) (''Mon'', ''R1'', ''Day'') = Inr 101
                           \<and> assigned_vars ent (fst xm) (''Mon'', ''R1'', ''Day'') = [])"
    by code_simp
  then obtain ent x m where
    h: "normalize ex_unmatched_101 = Inr ent" "build_model ex_unmatched_101 ent = Inr (x, m)"
    and dem: "dict_get (demand ent) (''Mon'', ''R1'', ''Day'') = Inr 101"
    and av: "assigned_vars ent x (''Mon'', ''R1'', ''Day'') = []"
    by (cases "normalize ex_unmatched_101";
        cases "build_model ex_unmatched_101 (projr (normalize ex_unmatched_101))") auto
  have s: "(''Mon'', ''R1'', ''Day'')
      \<in> set (horizon (days ex_unmatched_101) (room_ids ent) (shifts ex_unmatched_101))"
    by (simp add: set_horizon normalize_Inr(2) [OF h(1)])
       (simp add: ex_unmatched_101_def ex_unmatched_def)
  have big: "int (length (assigned_vars ent x (''Mon'', ''R1'', ''Day''))) + 100 < 101"
    by (simp add: av)
  from slack_bounds [OF h] s dem big have "\<forall>v. \<not> satisfies v m" by blast
  with h s dem big show "\<exists>ent x m. normalize ex_unmatched_101 = Inr ent \<and> build_model ex_unmatched_101 ent = Inr (x, m)
      \<and> (''Mon'', ''R1'', ''Day'') \<in> set (horizon (days ex_unmatched_101) (room_ids ent) (shifts ex_unmatched_101))
      \<and> dict_get (demand ent) (''Mon'', ''R1'', ''Day'') = Inr 101
      \<and> int (length (assigned_vars ent x (''Mon'', ''R1'', ''Day''))) + 100 < 101
      \<and> (\<nexists>v. satisfies v m)"
    by blast
qed


subsection \<open>Result records\<close>

lemma map_of_dict_from_id:
  "map_of (dict_from (\<lambda>k. k) f ks) k = (if k \<in> set ks then Some (f k) else None)"
proof -
  have "map_of (rev (map (\<lambda>r. (r, f r)) ks)) k = (if k \<in> set ks then Some (f k) else None)"
    by (induction ks) (auto simp: map_add_def split: option.splits)
  then show ?thesis by (simp add: map_of_dict_from)
qed

lemma room_name_of_total:
  assumes "rid \<in> room_id ` set rooms"
  shows "\<exists>nm. room_name_of rooms rid = Inr nm"
proof -
  from assms have "filter (\<lambda>r. room_id r = rid) rooms \<noteq> []"
    by (auto simp: filter_empty_conv)
  then show ?thesis
    by (cases "filter (\<lambda>r. room_id r = rid) rooms") (simp_all add: room_name_of_def)
qed

lemma out_record_total:
  assumes norm: "normalize inp = Inr ent"
    and s: "s \<in> set (horizon (days inp) (room_ids ent) (shifts inp))"
  shows "\<exists>nm dem. room_name_of (rooms_df inp) (fst (snd s)) = Inr nm
           \<and> dict_get (demand ent) s = Inr dem
           \<and> out_record inp ent x resp s =
               Inr [\<lparr> out_day = fst s, out_room_id = fst (snd s), out_room_name = nm,
                      out_shift = snd (snd s), out_required_nurses = dem,
                      assigned_nurses = py_join '';'' (assigned_list ent x (Value resp) s),
                      understaff = (if found (status resp) then Some (Value resp (Understaff s)) else None),
                      overstaff = (if allow_overstaff inp \<and> found (status resp)
                                   then Some (Value resp (Overstaff s)) else None) \<rparr>]"
proof -
  obtain d rid sh where sd: "s = (d, rid, sh)" by (cases s) auto
  from s have rid: "rid \<in> room_id ` set (rooms_df inp)"
    by (simp add: sd set_horizon normalize_Inr(2) [OF norm])
  from room_name_of_total [OF rid] obtain nm where nm: "room_name_of (rooms_df inp) rid = Inr nm" ..
  from normalize_demand_present [OF norm s] obtain dem where dem: "dict_get (demand ent) s = Inr dem" ..
  have u: "dict_get (understaff_dict ent (days inp) (shifts inp)) s = Inr (Understaff s)"
    using s by (simp add: understaff_dict_def dict_get_Inr map_of_dict_from_id)
  have ov: "dict_get (overstaff_dict ent True (days inp) (shifts inp)) s = Inr (Overstaff s)"
    using s by (simp add: overstaff_dict_def dict_get_Inr map_of_dict_from_id)
  have "out_record inp ent x resp s =
               Inr [\<lparr> out_day = fst s, out_room_id = fst (snd s), out_room_name = nm,
                      out_shift = snd (snd s), out_required_nurses = dem,
                      assigned_nurses = py_join '';'' (assigned_list ent x (Value resp) s),
                      understaff = (if found (status resp) then Some (Value resp (Understaff s)) else None),
                      overstaff = (if allow_overstaff inp \<and> found (status resp)
                                   then Some (Value resp (Overstaff s)) else None) \<rparr>]"
    unfolding out_record_def
    using nm dem u ov by (simp add: sd Let_def)
  with nm dem show ?thesis by (auto simp: sd)
qed

lemma concat_singletons_key:
  assumes "\<forall>a\<in>set xs. \<exists>r. g a = [r] \<and> key r = a"
  shows "map key (concat (map g xs)) = xs"
  using assms by (induction xs) auto

lemma demand_default_zero:
  assumes norm: "normalize inp = Inr ent"
    and s: "s \<in> set (horizon (days inp) (room_ids ent) (shifts inp))"
    and none: "\<forall>r\<in>set (demand_df inp). (d_day r, d_room_id r, d_shift r) \<noteq> s"
  shows "dict_get (demand ent) s = Inr 0"
proof -
  note n = normalize_Inr [OF norm]
  from n(9) obtain m0 where
    m0: "dict_of_rows (\<lambda>r. (d_day r, d_room_id r, d_shift r)) (\<lambda>r. py_int (required_nurses r)) (demand_df inp) [] = Inr m0"
    and dem: "demand ent = fold (\<lambda>k. setdefault k 0) (horizon (days inp) (map room_id (rooms_df inp)) (shifts inp)) m0"
    by (rule demand_lookup_parts)
  have "s \<notin> fst ` set m0"
    unfolding dict_of_rows_dict_from [OF m0] keys_dict_from using none by auto
  then have "map_of m0 s = None" by (simp add: map_of_eq_None_iff)
  with s show ?thesis
    unfolding dem dict_get_Inr map_of_fold_setdefault n(2) by simp
qed



text \<open>
  C8, as stated, fails for the overstaff value: with overstaffing not permitted the
  record carries no overstaff value although the status is \<open>OPTIMAL\<close>.
\<close>

theorem overstaff_absent_when_not_permitted:
  "solve_schedule_ortools ex_matched_backend ex_matched =
     Inr ([\<lparr> out_day = ''Mon'', out_room_id = ''R1'', out_room_name = ''Theatre'',
              out_shift = ''Day'', out_required_nurses = 1, assigned_nurses = ''N1'',
              understaff = Some 0, overstaff = None \<rparr>],
          \<lparr> meta_status = ''OPTIMAL'', meta_objective = Some 0 \<rparr>)"
  by code_simp

text \<open>
  C8, amended.  Once the model is built, the call returns, for every backend, one
  record for every entry of selected days \<open>\<times>\<close> all rooms \<open>\<times>\<close> selected shifts, in that
  order, zero-demand slots included.  Each record carries the day, the room id and
  the name of the room, the shift, the required count taken from the demand table
  (0 when no demand row has the slot), and the assigned nurse ids joined with
  \<open>;\<close>.  The understaff value and the objective of the summary are present exactly
  when the status is \<open>OPTIMAL\<close> or \<open>FEASIBLE\<close>; the overstaff value is present exactly
  when, in addition, overstaffing is permitted.
\<close>

theorem result_records:
  assumes norm: "normalize inp = Inr ent"
    and build: "build_model inp ent = Inr (x, m)"
  shows "\<exists>out mt. solve_schedule_ortools solver inp = Inr (out, mt)
      \<and> map (\<lambda>r. (out_day r, out_room_id r, out_shift r)) out
          = horizon (days inp) (room_ids ent) (shifts inp)
      \<and> (\<forall>r\<in>set out.
            room_name_of (rooms_df inp) (out_room_id r) = Inr (out_room_name r)
          \<and> dict_get (demand ent) (out_day r, out_room_id r, out_shift r) = Inr (out_required_nurses r)
          \<and> ((\<forall>row\<in>set (demand_df inp). (d_day row, d_room_id row, d_shift row)
                                             \<noteq> (out_day r, out_room_id r, out_shift r))
               \<longrightarrow> out_required_nurses r = 0)
          \<and> assigned_nurses r
              = py_join '';'' (assigned_list ent x (Value (solver (time_limit_seconds inp) 8 m))
                                 (out_day r, out_room_id r, out_shift r))
          \<and> understaff r
              = (if found (status (solver (time_limit_seconds inp) 8 m))
                 then Some (Value (solver (time_limit_seconds inp) 8 m)
                              (Understaff (out_day r, out_room_id r, out_shift r)))
                 else None)
          \<and> overstaff r
              = (if allow_overstaff inp \<and> found (status (solver (time_limit_seconds inp) 8 m))
                 then Some (Value (solver (time_limit_seconds inp) 8 m)
                              (Overstaff (out_day r, out_room_id r, out_shift r)))
                 else None))
      \<and> meta_status mt = StatusName (status (solver (time_limit_seconds inp) 8 m))
      \<and> meta_objective mt
          = (if found (status (solver (time_limit_seconds inp) 8 m))
             then Some (ObjectiveValue (solver (time_limit_seconds inp) 8 m)) else None)"
proof -
  let ?resp = "solver (time_limit_seconds inp) 8 m"
  let ?hz = "horizon (days inp) (room_ids ent) (shifts inp)"
  let ?f = "out_record inp ent x ?resp"
  let ?g = "\<lambda>s. projr (?f s)"
  let ?row = "\<lambda>s nm dem. \<lparr> out_day = fst s, out_room_id = fst (snd s), out_room_name = nm,
                      out_shift = snd (snd s), out_required_nurses = dem,
                      assigned_nurses = py_join '';'' (assigned_list ent x (Value ?resp) s),
                      understaff = (if found (status ?resp) then Some (Value ?resp (Understaff s)) else None),
                      overstaff = (if allow_overstaff inp \<and> found (status ?resp)
                                   then Some (Value ?resp (Overstaff s)) else None) \<rparr>"
  let ?mt = "\<lparr> meta_status = StatusName (status ?resp),
               meta_objective = (if found (status ?resp) then Some (ObjectiveValue ?resp) else None) \<rparr>"
  have each: "\<exists>nm dem. room_name_of (rooms_df inp) (fst (snd s)) = Inr nm
           \<and> dict_get (demand ent) s = Inr dem \<and> ?f s = Inr [?row s nm dem]"
    if "s \<in> set ?hz" for s
    using out_record_total [OF norm that, of x ?resp] .
  have tot: "\<forall>s\<in>set ?hz. \<exists>zs. ?f s = Inr zs"
    using each by blast
  then have tr: "traverse ?f ?hz = Inr (concat (map ?g ?hz))"
    by (simp add: traverse_Inr_iff)
  have solve: "solve_schedule_ortools solver inp = Inr (concat (map ?g ?hz), ?mt)"
    unfolding solve_schedule_ortools_def by (simp add: norm build Let_def tr)
  have keys: "map (\<lambda>r. (out_day r, out_room_id r, out_shift r)) (concat (map ?g ?hz)) = ?hz"
  proof (rule concat_singletons_key, rule ballI)
    fix s assume "s \<in> set ?hz"
    from each [OF this] obtain nm dem where "?f s = Inr [?row s nm dem]" by blast
    then show "\<exists>r. ?g s = [r] \<and> (out_day r, out_room_id r, out_shift r) = s" by simp
  qed
  have rows: "room_name_of (rooms_df inp) (out_room_id r) = Inr (out_room_name r)
          \<and> dict_get (demand ent) (out_day r, out_room_id r, out_shift r) = Inr (out_required_nurses r)
          \<and> ((\<forall>row\<in>set (demand_df inp). (d_day row, d_room_id row, d_shift row)
                                             \<noteq> (out_day r, out_room_id r, out_shift r))
               \<longrightarrow> out_required_nurses r = 0)
          \<and> assigned_nurses r
              = py_join '';'' (assigned_list ent x (Value ?resp) (out_day r, out_room_id r, out_shift r))
          \<and> understaff r
              = (if found (status ?resp)
                 then Some (Value ?resp (Understaff (out_day r, out_room_id r, out_shift r)))
                 else None)
          \<and> overstaff r
              = (if allow_overstaff inp \<and> found (status ?resp)
                 then Some (Value ?resp (Overstaff (out_day r, out_room_id r, out_shift r)))
                 else None)"
    if r: "r \<in> set (concat (map ?g ?hz))" for r
  proof -
    from r obtain s where s: "s \<in> set ?hz" and rs: "r \<in> set (?g s)" by auto
    from each [OF s] obtain nm dem where nm: "room_name_of (rooms_df inp) (fst (snd s)) = Inr nm"
      and dem: "dict_get (demand ent) s = Inr dem" and f: "?f s = Inr [?row s nm dem]" by blast
    from rs f have req: "r = ?row s nm dem" by simp
    have key: "(out_day r, out_room_id r, out_shift r) = s" by (simp add: req)
    have zero: "out_required_nurses r = 0"
      if "\<forall>row\<in>set (demand_df inp). (d_day row, d_room_id row, d_shift row)
                                             \<noteq> (out_day r, out_room_id r, out_shift r)"
      using demand_default_zero [OF norm s] that dem unfolding key by (simp add: req)
    show ?thesis
      unfolding key using nm dem zero by (simp add: req)
  qed
  from solve keys rows show ?thesis by (intro exI [of _ "concat (map ?g ?hz)"] exI [of _ ?mt]) simp
qed

theorem result_records_witness:
  "\<exists>ent x m out mt. normalize ex_unmatched = Inr ent \<and> build_model ex_unmatched ent = Inr (x, m)
      \<and> solve_schedule_ortools no_solution ex_unmatched = Inr (out, mt)
      \<and> map (\<lambda>r. (out_day r, out_room_id r, out_shift r)) out = [(''Mon'', ''R1'', ''Day'')]
      \<and> map understaff out = [None] \<and> map overstaff out = [None]
      \<and> meta_status mt = ''UNKNOWN'' \<and> meta_objective mt = None"
proof -
  have "case normalize ex_unmatched of Inl e \<Rightarrow> False
        | Inr ent \<Rightarrow> (case build_model ex_unmatched ent of Inl e \<Rightarrow> False
                       | Inr xm \<Rightarrow> horizon (days ex_unmatched) (room_ids ent) (shifts ex_unmatched)
                                     = [(''Mon'', ''R1'', ''Day'')])"
    by code_simp
  then obtain ent x m where
    h: "normalize ex_unmatched = Inr ent" "build_model ex_unmatched ent = Inr (x, m)"
    and hz: "horizon (days ex_unmatched) (room_ids ent) (shifts ex_unmatched) = [(''Mon'', ''R1'', ''Day'')]"
    by (cases "normalize ex_unmatched";
        cases "build_model ex_unmatched (projr (normalize ex_unmatched))") auto
  have st: "status (no_solution (time_limit_seconds ex_unmatched) 8 m) = UNKNOWN"
    by (simp add: no_solution_def)
  from result_records [OF h, of no_solution] obtain out mt where
    s: "solve_schedule_ortools no_solution ex_unmatched = Inr (out, mt)"
    and k: "map (\<lambda>r. (out_day r, out_room_id r, out_shift r)) out = [(''Mon'', ''R1'', ''Day'')]"
    and r: "\<forall>r\<in>set out. understaff r = None \<and> overstaff r = None"
    and mt: "meta_status mt = ''UNKNOWN''" "meta_objective mt = None"
    unfolding hz st by (auto simp: found_def)
  from k obtain r0 where out: "out = [r0]" by (cases out) auto
  with r have n: "map understaff out = [None]" "map overstaff out = [None]" by simp_all
  show ?thesis
    by (intro exI conjI) (rule h(1), rule h(2), rule s, rule k, rule n(1), rule n(2), rule mt(1), rule mt(2))
qed


subsection \<open>The stages of model construction that cannot fail\<close>

lemma traverse_total:
  "(\<And>a. a \<in> set xs \<Longrightarrow> \<exists>zs. f a = Inr zs) \<Longrightarrow> \<exists>ys. traverse f xs = Inr ys"
  by (simp add: traverse_Inr_iff)

lemma traverse_first_error:
  "\<forall>a\<in>set pre. \<exists>zs. f a = Inr zs \<Longrightarrow> f a = Inl e \<Longrightarrow> traverse f (pre @ a # post) = Inl e"
  by (induction pre) auto

lemma traverse_not_Inr:
  assumes "a \<in> set xs" "f a = Inl e"
  shows "\<exists>e' b. traverse f xs = Inl e' \<and> b \<in> set xs \<and> f b = Inl e'"
proof (cases "traverse f xs")
  case (Inl e')
  with traverse_Inl [OF this] show ?thesis by blast
next
  case (Inr ys)
  with assms show ?thesis by (auto simp: traverse_Inr_iff)
qed

lemma daily_cap_total:
  assumes "normalize inp = Inr ent"
  shows "\<exists>c. daily_cap ent x ds = Inr c"
  unfolding daily_cap_def
proof (rule traverse_total)
  fix p assume "p \<in> set [(n, d). n \<leftarrow> nurse_ids ent, d \<leftarrow> ds]"
  then obtain n d where p: "p = (n, d)" and n: "n \<in> set (nurse_ids ent)" by auto
  from dict_get_present [of n "max_per_day ent"] n normalize_nurse_keys(1) [OF assms]
  obtain cap where "dict_get (max_per_day ent) n = Inr cap" by auto
  then show "\<exists>zs. (case p of (n, d) \<Rightarrow>
         let vars_nd = x_vars (\<lambda>k. k_nurse k = n \<and> k_day k = d) x in
         if vars_nd \<noteq> [] then
           bind_err (dict_get (max_per_day ent) n) (\<lambda>cap.
             Inr [Add (Le (sum_vars vars_nd) (EConst cap))])
         else Inr []) = Inr zs"
    by (simp add: p Let_def)
qed

lemma weekly_cap_total:
  assumes "normalize inp = Inr ent"
  shows "\<exists>c. weekly_cap ent x = Inr c"
  unfolding weekly_cap_def
proof (rule traverse_total)
  fix n assume n: "n \<in> set (nurse_ids ent)"
  from dict_get_present [of n "max_per_week ent"] n normalize_nurse_keys(2) [OF assms]
  obtain cap where "dict_get (max_per_week ent) n = Inr cap" by auto
  then show "\<exists>zs. (let vars_n = x_vars (\<lambda>k. k_nurse k = n) x in
         if vars_n \<noteq> [] then
           bind_err (dict_get (max_per_week ent) n) (\<lambda>cap.
             Inr [Add (Le (sum_vars vars_n) (EConst cap))])
         else Inr []) = Inr zs"
    by (simp add: Let_def)
qed

lemma coverage_total:
  assumes "normalize inp = Inr ent"
  shows "\<exists>c. coverage ent x allow (days inp) (shifts inp) = Inr c"
  unfolding coverage_def
proof (rule traverse_total)
  fix s assume "s \<in> set (horizon (days inp) (room_ids ent) (shifts inp))"
  from normalize_demand_present [OF assms this] obtain dem where "dict_get (demand ent) s = Inr dem" ..
  then show "\<exists>zs. coverage_slot ent x allow s = Inr zs"
    by (simp add: coverage_slot_def Let_def)
qed

lemma rest_rule_total:
  assumes "distinct ds"
  shows "\<exists>c. rest_rule ent x enforce shs ds = Inr c"
proof (cases "enforce \<and> ''Night'' \<in> set shs \<and> ''Day'' \<in> set shs")
  case True
  have "\<exists>c. traverse (rest_pair x (inv_day ds))
          [(n, i). n \<leftarrow> nurse_ids ent, i \<leftarrow> [0 ..< length ds - 1]] = Inr c"
  proof (rule traverse_total)
    fix p assume "p \<in> set [(n, i). n \<leftarrow> nurse_ids ent, i \<leftarrow> [0 ..< length ds - 1]]"
    then obtain n i where p: "p = (n, i)" and i: "Suc i < length ds" by auto
    from i have "dict_get (inv_day ds) i = Inr (ds ! i)" "dict_get (inv_day ds) (Suc i) = Inr (ds ! Suc i)"
      using inv_day_nth [OF assms, of i] inv_day_nth [OF assms, of "Suc i"] by simp_all
    then show "\<exists>zs. rest_pair x (inv_day ds) p = Inr zs"
      by (simp add: rest_pair_def p Let_def)
  qed
  with True show ?thesis by (simp add: rest_rule_def)
next
  case False
  then show ?thesis by (auto simp: rest_rule_def)
qed

lemma charge_rule_total:
  assumes norm: "normalize inp = Inr ent"
  shows "\<exists>c. charge_rule ent x tgs (days inp) (shifts inp) = Inr c"
proof -
  have "\<exists>cn. traverse (\<lambda>n. bind_err (dict_get (qual_by_nurse ent) n) (\<lambda>q.
                  Inr (if ''Charge'' \<in> q then [n] else []))) (nurse_ids ent) = Inr cn"
  proof (rule traverse_total)
    fix n assume n: "n \<in> set (nurse_ids ent)"
    from dict_get_present [of n "qual_by_nurse ent"] n normalize_nurse_keys(4) [OF norm]
    obtain q where "dict_get (qual_by_nurse ent) n = Inr q" by auto
    then show "\<exists>zs. bind_err (dict_get (qual_by_nurse ent) n) (\<lambda>q.
                  Inr (if ''Charge'' \<in> q then [n] else [])) = Inr zs" by simp
  qed
  then obtain cn where cn: "traverse (\<lambda>n. bind_err (dict_get (qual_by_nurse ent) n) (\<lambda>q.
                  Inr (if ''Charge'' \<in> q then [n] else []))) (nurse_ids ent) = Inr cn" ..
  let ?rs = "filter (\<lambda>rid. dict_get_default (tag_by_room ent) rid [] \<in> tgs) (room_ids ent)"
  have "\<exists>c. traverse (charge_slot ent x ?rs cn) [(d, sh). d \<leftarrow> days inp, sh \<leftarrow> shifts inp] = Inr c"
  proof (rule traverse_total)
    fix p assume "p \<in> set [(d, sh). d \<leftarrow> days inp, sh \<leftarrow> shifts inp]"
    then obtain d sh where p: "p = (d, sh)" and d: "d \<in> set (days inp)" and sh: "sh \<in> set (shifts inp)"
      by auto
    have "\<exists>dems. traverse (\<lambda>rid. bind_err (dict_get (demand ent) (d, rid, sh)) (\<lambda>v. Inr [v])) ?rs = Inr dems"
    proof (rule traverse_total)
      fix rid assume "rid \<in> set ?rs"
      with d sh have "(d, rid, sh) \<in> set (horizon (days inp) (room_ids ent) (shifts inp))"
        by (simp add: set_horizon)
      from normalize_demand_present [OF norm this] obtain dem where
        "dict_get (demand ent) (d, rid, sh) = Inr dem" ..
      then show "\<exists>zs. bind_err (dict_get (demand ent) (d, rid, sh)) (\<lambda>v. Inr [v]) = Inr zs" by simp
    qed
    then obtain dems where
      "traverse (\<lambda>rid. bind_err (dict_get (demand ent) (d, rid, sh)) (\<lambda>v. Inr [v])) ?rs = Inr dems" ..
    then show "\<exists>zs. charge_slot ent x ?rs cn p = Inr zs"
      by (simp add: charge_slot_def p Let_def)
  qed
  then show ?thesis
    by (auto simp: charge_rule_def cn Let_def)
qed

lemma cnor_rule_total:
  assumes norm: "normalize inp = Inr ent"
  shows "\<exists>c. cnor_rule ent x req (days inp) (shifts inp) = Inr c"
proof (cases req)
  case True
  let ?rs = "filter (\<lambda>rid. dict_get_default (tag_by_room ent) rid [] = ''OR'') (room_ids ent)"
  have "\<exists>c. traverse (cnor_slot ent x) (horizon (days inp) ?rs (shifts inp)) = Inr c"
  proof (rule traverse_total)
    fix s assume s: "s \<in> set (horizon (days inp) ?rs (shifts inp))"
    obtain d rid sh where sd: "s = (d, rid, sh)" by (cases s) auto
    from s have "s \<in> set (horizon (days inp) (room_ids ent) (shifts inp))"
      by (auto simp: set_horizon)
    from normalize_demand_present [OF norm this] obtain dem where
      dem: "dict_get (demand ent) (d, rid, sh) = Inr dem" unfolding sd ..
    have "\<exists>vs. traverse (\<lambda>n. bind_err (dict_get (cert_by_nurse ent) n) (\<lambda>c.
                         Inr (if c = ''CNOR'' then x_present x [(n, rid, sh, d)] else [])))
                        (nurse_ids ent) = Inr vs"
    proof (rule traverse_total)
      fix n assume n: "n \<in> set (nurse_ids ent)"
      from dict_get_present [of n "cert_by_nurse ent"] n normalize_nurse_keys(3) [OF norm]
      obtain c where "dict_get (cert_by_nurse ent) n = Inr c" by auto
      then show "\<exists>zs. bind_err (dict_get (cert_by_nurse ent) n) (\<lambda>c.
                         Inr (if c = ''CNOR'' then x_present x [(n, rid, sh, d)] else [])) = Inr zs"
        by simp
    qed
    then obtain vs where "traverse (\<lambda>n. bind_err (dict_get (cert_by_nurse ent) n) (\<lambda>c.
                         Inr (if c = ''CNOR'' then x_present x [(n, rid, sh, d)] else [])))
                        (nurse_ids ent) = Inr vs" ..
    with dem show "\<exists>zs. cnor_slot ent x s = Inr zs"
      by (simp add: cnor_slot_def sd)
  qed
  with True show ?thesis by (simp add: cnor_rule_def Let_def)
next
  case False
  then show ?thesis by (simp add: cnor_rule_def)
qed

text \<open>
  With the numeric cells present and the selected days distinct, model construction
  fails exactly when the lock stage fails, and then with the error of that stage.
\<close>

lemma build_model_by_locks:
  assumes norm: "normalize inp = Inr ent" and dd: "distinct (days inp)"
  shows "\<exists>cs. x_created ent (shifts inp) (days inp) = Inr cs
    \<and> (\<forall>e. lock_rule ent (x_dict cs) = Inl e \<longrightarrow> build_model inp ent = Inl e)
    \<and> (\<forall>c. lock_rule ent (x_dict cs) = Inr c \<longrightarrow> (\<exists>m. build_model inp ent = Inr (x_dict cs, m)))"
proof -
  from x_created_total [OF norm] obtain cs where cs: "x_created ent (shifts inp) (days inp) = Inr cs" ..
  let ?x = "x_dict cs"
  from daily_cap_total [OF norm] obtain c1 where c1: "daily_cap ent ?x (days inp) = Inr c1" ..
  from weekly_cap_total [OF norm] obtain c2 where c2: "weekly_cap ent ?x = Inr c2" ..
  from coverage_total [OF norm] obtain c3 where
    c3: "coverage ent ?x (allow_overstaff inp) (days inp) (shifts inp) = Inr c3" ..
  from rest_rule_total [OF dd] obtain c4 where
    c4: "rest_rule ent ?x (enforce_rest_night_to_day inp) (shifts inp) (days inp) = Inr c4" ..
  from charge_rule_total [OF norm] obtain c5 where
    c5: "charge_rule ent ?x (charge_rooms_tags inp) (days inp) (shifts inp) = Inr c5" ..
  from cnor_rule_total [OF norm] obtain c6 where
    c6: "cnor_rule ent ?x (require_cnor_in_or inp) (days inp) (shifts inp) = Inr c6" ..
  have a: "build_model inp ent = Inl e" if "lock_rule ent ?x = Inl e" for e
    unfolding build_model_def by (simp add: cs c1 c2 c3 c4 c5 c6 that Let_def)
  have b: "\<exists>m. build_model inp ent = Inr (?x, m)" if "lock_rule ent ?x = Inr c" for c
    unfolding build_model_def by (simp add: cs c1 c2 c3 c4 c5 c6 that Let_def)
  from cs a b show ?thesis by blast
qed


subsection \<open>Locks\<close>

lemma map_of_rev_last_rows:
  "map_of (rev (map (\<lambda>r. (lock_key r, val r)) rows)) k = Some v
     \<longleftrightarrow> (\<exists>r\<in>set (last_rows rows). lock_key r = k \<and> val r = v)"
proof (induction rows)
  case Nil
  show ?case by simp
next
  case (Cons r rows)
  have keys: "lock_key ` set (last_rows rows) = lock_key ` set rows" for rows
    by (induction rows) auto
  have none: "map_of (rev (map (\<lambda>r. (lock_key r, val r)) rows)) k = None \<longleftrightarrow> k \<notin> lock_key ` set rows"
    by (simp add: map_of_eq_None_iff image_image)
  show ?case
  proof (cases "map_of (rev (map (\<lambda>r. (lock_key r, val r)) rows)) k")
    case None
    with none have nk: "k \<notin> lock_key ` set rows" by simp
    then have nl: "\<forall>r'\<in>set (last_rows rows). lock_key r' \<noteq> k" using keys [of rows] by auto
    from nk have nr: "\<forall>r'\<in>set rows. lock_key r' \<noteq> k" by auto
    show ?thesis
    proof (cases "lock_key r = k")
      case True
      with nr have "lock_key r \<notin> lock_key ` set rows" by auto
      with None nl True show ?thesis by (auto simp: map_add_def)
    next
      case False
      with None nl show ?thesis by (auto simp: map_add_def)
    qed
  next
    case (Some w)
    with none have ik: "k \<in> lock_key ` set rows" by auto
    from Some Cons.IH ik show ?thesis
      by (auto simp: map_add_def)
  qed
qed

lemma locks_entries:
  assumes norm: "normalize inp = Inr ent"
  shows "(k, f) \<in> set (locks ent) \<longleftrightarrow> (\<exists>r\<in>set (last_rows (locks_df inp)). lock_key r = k \<and> locked r = Some f)"
proof -
  have key: "(\<lambda>r. (l_day r, l_shift r, l_room_id r, l_nurse_id r)) = lock_key"
    by (simp add: lock_key_def fun_eq_iff)
  from normalize_Inr(11) [OF norm]
  have l: "dict_of_rows lock_key (\<lambda>r. py_int (locked r)) (locks_df inp) [] = Inr (locks ent)"
    by (simp add: locks_lookup_def key)
  then have all: "\<forall>r\<in>set (locks_df inp). \<exists>v. locked r = Some v"
    by (auto simp: dict_of_rows_Inr py_int_Inr)
  have sub: "set (last_rows rows) \<subseteq> set rows" for rows
    by (induction rows) auto
  have d: "locks ent = dict_from lock_key (\<lambda>r. projr (py_int (locked r))) (locks_df inp)"
    by (rule dict_of_rows_dict_from [OF l])
  have "(k, f) \<in> set (locks ent) \<longleftrightarrow> map_of (locks ent) k = Some f"
    unfolding d using distinct_dict_from [of lock_key "\<lambda>r. projr (py_int (locked r))" "locks_df inp"]
    by (auto dest: map_of_SomeD intro: map_of_is_SomeI)
  also have "\<dots> \<longleftrightarrow> (\<exists>r\<in>set (last_rows (locks_df inp)). lock_key r = k \<and> projr (py_int (locked r)) = f)"
    unfolding d map_of_dict_from by (rule map_of_rev_last_rows)
  also have "\<dots> \<longleftrightarrow> (\<exists>r\<in>set (last_rows (locks_df inp)). lock_key r = k \<and> locked r = Some f)"
  proof (rule bex_cong [OF refl])
    fix r assume "r \<in> set (last_rows (locks_df inp))"
    with sub [of "locks_df inp"] all obtain v where "locked r = Some v" by blast
    then show "(lock_key r = k \<and> projr (py_int (locked r)) = f) \<longleftrightarrow> (lock_key r = k \<and> locked r = Some f)"
      by (simp add: py_int_def)
  qed
  finally show ?thesis .
qed

lemma lock_item_Inr:
  assumes "lock_item x ((d, sh, rid, n), 1) = Inr zs"
  shows "\<exists>var. map_of x (n, rid, sh, d) = Some var \<and> zs = [Add (Eq (EVar var) (EConst 1))]"
  using assms by (auto simp: lock_item_def split: option.splits)

lemma lock_item_Inl:
  assumes "lock_item x (k, f) = Inl e"
  shows "f = 1 \<and> (\<exists>d sh rid n. k = (d, sh, rid, n) \<and> map_of x (n, rid, sh, d) = None
                      \<and> e = RuntimeError (lock_message d sh rid n))"
  using assms by (cases k) (auto simp: lock_item_def split: option.splits if_splits)

lemma variable_exists_iff:
  assumes "x_created ent (shifts inp) (days inp) = Inr cs"
  shows "variable_exists inp ent k \<longleftrightarrow> map_of (x_dict cs) k = Some (X k)"
  unfolding map_of_x_dict x_created_set [OF assms] variable_exists_def
  by (cases k) auto

lemma build_model_succeeds:
  assumes norm: "normalize inp = Inr ent"
    and dd: "distinct (days inp)"
    and all: "\<forall>r\<in>set (last_rows (locks_df inp)). locked r = Some 1 \<longrightarrow> variable_exists inp ent (lock_var r)"
  shows "\<exists>x m. build_model inp ent = Inr (x, m)"
proof -
  from build_model_by_locks [OF norm dd] obtain cs where cs: "x_created ent (shifts inp) (days inp) = Inr cs"
    and fail: "\<And>e. lock_rule ent (x_dict cs) = Inl e \<Longrightarrow> build_model inp ent = Inl e"
    and ok: "\<And>c. lock_rule ent (x_dict cs) = Inr c \<Longrightarrow> \<exists>m. build_model inp ent = Inr (x_dict cs, m)"
    by blast
  have "\<exists>c. lock_rule ent (x_dict cs) = Inr c"
    unfolding lock_rule_def
  proof (rule traverse_total)
    fix it assume it: "it \<in> set (locks ent)"
    obtain k f where itk: "it = (k, f)" by (cases it)
    obtain d sh rid n where k: "k = (d, sh, rid, n)" by (cases k) auto
    show "\<exists>zs. lock_item (x_dict cs) it = Inr zs"
    proof (cases "f = 1")
      case True
      from it obtain r where r: "r \<in> set (last_rows (locks_df inp))" "lock_key r = k" "locked r = Some 1"
        unfolding itk True locks_entries [OF norm] by blast
      with all have "variable_exists inp ent (lock_var r)" by blast
      then have "map_of (x_dict cs) (lock_var r) = Some (X (lock_var r))"
        by (simp add: variable_exists_iff [OF cs])
      moreover from r(2) k have "lock_var r = (n, rid, sh, d)"
        by (simp add: lock_key_def lock_var_def)
      ultimately show ?thesis
        by (simp add: lock_item_def itk k True)
    next
      case False
      then show ?thesis by (simp add: lock_item_def itk k)
    qed
  qed
  with ok show ?thesis by blast
qed

text \<open>
  C3, as stated, fails when a later row of the lock table repeats the key of a row
  with \<open>locked = 1\<close>: the flag of the later row replaces it.  Here the first lock row
  pins nurse N2, who is not qualified for room R1; the second row for the same key
  has \<open>locked = 0\<close>, and the call returns a result instead of failing.
\<close>

theorem overridden_lock_not_rejected:
  "\<lparr> l_day = ''Mon'', l_shift = ''Day'', l_room_id = ''R1'', l_nurse_id = ''N2'', locked = Some 1 \<rparr>
      \<in> set (locks_df ex_duplicates)
   \<and> feasible (projr (normalize ex_duplicates)) ''N2'' ''R1'' = Inr False
   \<and> \<not> isl (solve_schedule_ortools no_solution ex_duplicates)"
  by code_simp


lemma lock_rule_mem:
  assumes norm: "normalize inp = Inr ent"
    and c: "lock_rule ent x = Inr c"
    and r: "r \<in> set (last_rows (locks_df inp))" "locked r = Some 1"
  shows "\<exists>var. map_of x (lock_var r) = Some var \<and> Add (Eq (EVar var) (EConst 1)) \<in> set c"
proof -
  from r have "(lock_key r, 1) \<in> set (locks ent)"
    unfolding locks_entries [OF norm] by blast
  from traverse_Inr_mem [OF c [unfolded lock_rule_def] this]
  obtain zs where zs: "lock_item x (lock_key r, 1) = Inr zs" "set zs \<subseteq> set c" by blast
  from lock_item_Inr [OF zs(1) [unfolded lock_key_def]] zs(2)
  show ?thesis by (auto simp: lock_var_def)
qed

lemma lock_rule_fails:
  assumes norm: "normalize inp = Inr ent"
    and r: "r \<in> set (last_rows (locks_df inp))" "locked r = Some 1" "map_of x (lock_var r) = None"
  shows "\<exists>r'\<in>set (last_rows (locks_df inp)). locked r' = Some 1 \<and> map_of x (lock_var r') = None
           \<and> lock_rule ent x = Inl (RuntimeError (lock_message (l_day r') (l_shift r') (l_room_id r') (l_nurse_id r')))"
proof -
  from r have mem: "(lock_key r, 1) \<in> set (locks ent)"
    unfolding locks_entries [OF norm] by blast
  from r(3) have "lock_item x (lock_key r, 1)
      = Inl (RuntimeError (lock_message (l_day r) (l_shift r) (l_room_id r) (l_nurse_id r)))"
    by (simp add: lock_item_def lock_key_def lock_var_def)
  from traverse_not_Inr [where f = "lock_item x", OF mem this] obtain e b where
    e: "lock_rule ent x = Inl e" and b: "b \<in> set (locks ent)" "lock_item x b = Inl e"
    unfolding lock_rule_def by blast
  obtain k f where bk: "b = (k, f)" by (cases b)
  from lock_item_Inl [OF b(2) [unfolded bk]] obtain d sh rid n where
    f: "f = 1" and k: "k = (d, sh, rid, n)" and nv: "map_of x (n, rid, sh, d) = None"
    and er: "e = RuntimeError (lock_message d sh rid n)" by blast
  from b(1) obtain r' where r': "r' \<in> set (last_rows (locks_df inp))" "lock_key r' = k" "locked r' = Some f"
    unfolding bk locks_entries [OF norm] by blast
  from r'(2) k have parts: "l_day r' = d" "l_shift r' = sh" "l_room_id r' = rid" "l_nurse_id r' = n"
    by (simp_all add: lock_key_def)
  from r' f nv er e parts show ?thesis
    by (intro bexI [of _ r']) (simp_all add: lock_var_def)
qed

text \<open>
  C3, amended.  With the numeric cells present and the selected days distinct, for
  the lock rows that no later row with the same (day, shift, room, nurse) key
  overrides: whenever the model is built, each such row with \<open>locked = 1\<close> has its
  variable, the model contains the constraint that fixes the variable to 1, and in
  every solution the nurse is among the nurses assigned to that slot; the model is
  built whenever every such row with \<open>locked = 1\<close> has a variable; and when some such
  row with \<open>locked = 1\<close> has no variable (the nurse is not qualified for the room, or an
  identifier resolves to no nurse, room, selected shift or selected day), the call
  returns, for every backend, the \<open>RuntimeError\<close> whose message names the day, shift,
  room and nurse of such a row: the backend is not invoked.
\<close>

theorem locks_enforced_or_rejected:
  assumes norm: "normalize inp = Inr ent"
    and dd: "distinct (days inp)"
  shows "(\<forall>x m. build_model inp ent = Inr (x, m) \<longrightarrow>
            (\<forall>r\<in>set (last_rows (locks_df inp)). locked r = Some 1 \<longrightarrow>
                 variable_exists inp ent (lock_var r)
               \<and> map_of x (lock_var r) = Some (X (lock_var r))
               \<and> Add (Eq (EVar (X (lock_var r))) (EConst 1)) \<in> set m
               \<and> (\<forall>v. satisfies v m \<longrightarrow>
                     v (X (lock_var r)) = 1
                   \<and> l_nurse_id r \<in> set (assigned_list ent x v (l_day r, l_room_id r, l_shift r)))))
       \<and> ((\<forall>r\<in>set (last_rows (locks_df inp)). locked r = Some 1 \<longrightarrow> variable_exists inp ent (lock_var r))
            \<longrightarrow> (\<exists>x m. build_model inp ent = Inr (x, m)))
       \<and> ((\<exists>r\<in>set (last_rows (locks_df inp)). locked r = Some 1 \<and> \<not> variable_exists inp ent (lock_var r))
            \<longrightarrow> (\<exists>r\<in>set (last_rows (locks_df inp)).
                    locked r = Some 1 \<and> \<not> variable_exists inp ent (lock_var r)
                  \<and> (\<forall>solver. solve_schedule_ortools solver inp
                        = Inl (RuntimeError (lock_message (l_day r) (l_shift r) (l_room_id r) (l_nurse_id r))))))"
proof (intro conjI allI impI ballI)
  fix x m r v
  assume build: "build_model inp ent = Inr (x, m)"
    and r: "r \<in> set (last_rows (locks_df inp))" "locked r = Some 1"
  from build obtain cs c_day c_week c_cov c_rest c_charge c_cnor c_lock where
    cs: "x_created ent (shifts inp) (days inp) = Inr cs" and x: "x = x_dict cs"
    and lk: "lock_rule ent x = Inr c_lock"
    and m: "m = map (\<lambda>k. NewBoolVar (X k)) cs @ c_day @ c_week @ c_cov @ c_rest
               @ c_charge @ c_cnor @ c_lock
               @ fairness ent x (target_shifts_per_nurse_week inp)
               @ [Maximize (objective inp ent x)]"
    by (rule build_model_Inr)
  from lock_rule_mem [OF norm lk r] obtain var where
    var: "map_of x (lock_var r) = Some var" and mem: "Add (Eq (EVar var) (EConst 1)) \<in> set c_lock"
    by blast
  from var have vx: "var = X (lock_var r)"
    by (simp add: x map_of_x_dict split: if_splits)
  from var vx show ve: "variable_exists inp ent (lock_var r)"
    by (simp add: variable_exists_iff [OF cs] x)
  from var vx show mx: "map_of x (lock_var r) = Some (X (lock_var r))" by simp
  from mem vx show am: "Add (Eq (EVar (X (lock_var r))) (EConst 1)) \<in> set m"
    by (simp add: m)
  { assume sat: "satisfies v m"
    from satisfies_mem [OF sat am] show one: "v (X (lock_var r)) = 1" by simp
    from ve have "l_nurse_id r \<in> set (nurse_ids ent)"
      by (simp add: variable_exists_def lock_var_def)
    with mx one show "l_nurse_id r \<in> set (assigned_list ent x v (l_day r, l_room_id r, l_shift r))"
      by (simp add: assigned_list_def lock_var_def) }
next
  assume all: "\<forall>r\<in>set (last_rows (locks_df inp)). locked r = Some 1 \<longrightarrow> variable_exists inp ent (lock_var r)"
  from build_model_succeeds [OF norm dd this]
  show "\<exists>x m. build_model inp ent = Inr (x, m)" .
next
  assume "\<exists>r\<in>set (last_rows (locks_df inp)). locked r = Some 1 \<and> \<not> variable_exists inp ent (lock_var r)"
  then obtain r where r: "r \<in> set (last_rows (locks_df inp))" "locked r = Some 1"
    and nv: "\<not> variable_exists inp ent (lock_var r)" by blast
  from build_model_by_locks [OF norm dd] obtain cs where cs: "x_created ent (shifts inp) (days inp) = Inr cs"
    and fail: "\<And>e. lock_rule ent (x_dict cs) = Inl e \<Longrightarrow> build_model inp ent = Inl e"
    and ok: "\<And>c. lock_rule ent (x_dict cs) = Inr c \<Longrightarrow> \<exists>m. build_model inp ent = Inr (x_dict cs, m)"
    by blast
  from nv have "map_of (x_dict cs) (lock_var r) = None"
    by (simp add: variable_exists_iff [OF cs] map_of_x_dict split: if_splits)
  from lock_rule_fails [OF norm r this] obtain r' where
    r': "r' \<in> set (last_rows (locks_df inp))" "locked r' = Some 1" "map_of (x_dict cs) (lock_var r') = None"
    and e: "lock_rule ent (x_dict cs)
             = Inl (RuntimeError (lock_message (l_day r') (l_shift r') (l_room_id r') (l_nurse_id r')))"
    by blast
  from r'(3) have nv': "\<not> variable_exists inp ent (lock_var r')"
    by (simp add: variable_exists_iff [OF cs])
  have "solve_schedule_ortools solver inp
          = Inl (RuntimeError (lock_message (l_day r') (l_shift r') (l_room_id r') (l_nurse_id r')))"
    for solver
    unfolding solve_schedule_ortools_def by (simp add: norm fail [OF e])
  with r'(1,2) nv' show "\<exists>r\<in>set (last_rows (locks_df inp)).
                    locked r = Some 1 \<and> \<not> variable_exists inp ent (lock_var r)
                  \<and> (\<forall>solver. solve_schedule_ortools solver inp
                        = Inl (RuntimeError (lock_message (l_day r) (l_shift r) (l_room_id r) (l_nurse_id r))))"
    by blast
qed

theorem locks_enforced_or_rejected_witness:
  "(\<exists>ent x m. normalize ex_locked = Inr ent \<and> distinct (days ex_locked)
      \<and> build_model ex_locked ent = Inr (x, m)
      \<and> satisfies ex1_solution m
      \<and> Add (Eq (EVar (X (''N1'', ''R1'', ''Day'', ''Mon''))) (EConst 1)) \<in> set m
      \<and> ex1_solution (X (''N1'', ''R1'', ''Day'', ''Mon'')) = 1
      \<and> ''N1'' \<in> set (assigned_list ent x ex1_solution (''Mon'', ''R1'', ''Day'')))
   \<and> (\<exists>ent. normalize ex_bad_lock = Inr ent \<and> distinct (days ex_bad_lock)
      \<and> \<not> variable_exists ex_bad_lock ent (''N2'', ''R1'', ''Day'', ''Mon'')
      \<and> solve_schedule_ortools no_solution ex_bad_lock
           = Inl (RuntimeError (lock_message ''Mon'' ''Day'' ''R1'' ''N2'')))"
proof
  let ?r = "\<lparr> l_day = ''Mon'', l_shift = ''Day'', l_room_id = ''R1'', l_nurse_id = ''N1'',
                      locked = Some (1::int) \<rparr>"
  have "case normalize ex_locked of Inl e \<Rightarrow> False
        | Inr ent \<Rightarrow> (case build_model ex_locked ent of Inl e \<Rightarrow> False
                       | Inr xm \<Rightarrow> satisfies ex1_solution (snd xm))"
    by code_simp
  then obtain ent x m where
    h: "normalize ex_locked = Inr ent" "build_model ex_locked ent = Inr (x, m)"
    and sat: "satisfies ex1_solution m"
    by (cases "normalize ex_locked"; cases "build_model ex_locked (projr (normalize ex_locked))") auto
  have dd: "distinct (days ex_locked)" by (simp add: ex_locked_def ex1_def)
  have r: "?r \<in> set (last_rows (locks_df ex_locked))" "locked ?r = Some 1"
    by (simp_all add: ex_locked_def)
  have lv: "lock_var ?r = (''N1'', ''R1'', ''Day'', ''Mon'')" by (simp add: lock_var_def)
  from locks_enforced_or_rejected [OF h(1) dd] h(2) r sat
  have "Add (Eq (EVar (X (lock_var ?r))) (EConst 1)) \<in> set m
      \<and> ex1_solution (X (lock_var ?r)) = 1
      \<and> l_nurse_id ?r \<in> set (assigned_list ent x ex1_solution (l_day ?r, l_room_id ?r, l_shift ?r))"
    by blast
  then have "Add (Eq (EVar (X (''N1'', ''R1'', ''Day'', ''Mon''))) (EConst 1)) \<in> set m
      \<and> ex1_solution (X (''N1'', ''R1'', ''Day'', ''Mon'')) = 1
      \<and> ''N1'' \<in> set (assigned_list ent x ex1_solution (''Mon'', ''R1'', ''Day''))"
    by (simp add: lv)
  with h dd sat show "\<exists>ent x m. normalize ex_locked = Inr ent \<and> distinct (days ex_locked)
      \<and> build_model ex_locked ent = Inr (x, m)
      \<and> satisfies ex1_solution m
      \<and> Add (Eq (EVar (X (''N1'', ''R1'', ''Day'', ''Mon''))) (EConst 1)) \<in> set m
      \<and> ex1_solution (X (''N1'', ''R1'', ''Day'', ''Mon'')) = 1
      \<and> ''N1'' \<in> set (assigned_list ent x ex1_solution (''Mon'', ''R1'', ''Day''))"
    by blast
next
  let ?r = "\<lparr> l_day = ''Mon'', l_shift = ''Day'', l_room_id = ''R1'', l_nurse_id = ''N2'',
                      locked = Some (1::int) \<rparr>"
  have "case normalize ex_bad_lock of Inl e \<Rightarrow> False
        | Inr ent \<Rightarrow> \<not> variable_exists ex_bad_lock ent (''N2'', ''R1'', ''Day'', ''Mon'')"
    by code_simp
  then obtain ent where h: "normalize ex_bad_lock = Inr ent"
    and nv: "\<not> variable_exists ex_bad_lock ent (''N2'', ''R1'', ''Day'', ''Mon'')"
    by (cases "normalize ex_bad_lock") auto
  have dd: "distinct (days ex_bad_lock)" by (simp add: ex_bad_lock_def ex1_def)
  have rows: "last_rows (locks_df ex_bad_lock) = [?r]" by (simp add: ex_bad_lock_def)
  have lv: "lock_var ?r = (''N2'', ''R1'', ''Day'', ''Mon'')" by (simp add: lock_var_def)
  from locks_enforced_or_rejected [OF h dd] nv
  have "\<exists>r\<in>set (last_rows (locks_df ex_bad_lock)).
          (\<forall>solver. solve_schedule_ortools solver ex_bad_lock
              = Inl (RuntimeError (lock_message (l_day r) (l_shift r) (l_room_id r) (l_nurse_id r))))"
    unfolding rows by (simp add: lv)
  then have "solve_schedule_ortools no_solution ex_bad_lock
           = Inl (RuntimeError (lock_message ''Mon'' ''Day'' ''R1'' ''N2''))"
    unfolding rows by simp
  with h dd nv show "\<exists>ent. normalize ex_bad_lock = Inr ent \<and> distinct (days ex_bad_lock)
      \<and> \<not> variable_exists ex_bad_lock ent (''N2'', ''R1'', ''Day'', ''Mon'')
      \<and> solve_schedule_ortools no_solution ex_bad_lock
           = Inl (RuntimeError (lock_message ''Mon'' ''Day'' ''R1'' ''N2''))"
    by blast
qed


subsection \<open>Rooms that no nurse is qualified for\<close>







end
